theory Spec2Isabelle
  imports Complex_Main "HOL-Library.Sublist"
begin

section \<open>Scraping: \<open>scrape_naukri_jobs\<close>\<close>

text \<open>
  Python strings are modelled as \<open>string\<close>; a \<open>char\<close> stands for one code point in the
  range 0..255. The exceptions that the script's calls can raise are values of \<open>exn\<close>;
  a call that may raise returns \<open>exn + 'a\<close> with \<open>Inl\<close> for the exception.
\<close>

datatype exn =
  NoSuchElementException | WebDriverException | ValueError | TypeError | AttributeError | OSError

text \<open>
  One element of \<open>driver.find_elements(By.CLASS_NAME, "srp-jobtuple-wrapper")\<close>, seen
  through the lookups the loop body performs on it: the text of the four mandatory
  children, the texts of the \<open>sal-wrap\<close> children (\<open>find_elements\<close> returns a list), and
  the texts of the \<open>li\<close> children of \<open>tags-gt\<close>. Each lookup is a call of the driver
  and may raise.
\<close>

record job_tuple =
  title :: "exn + string"
  comp_name :: "exn + string"
  loc_wrap :: "exn + string"
  exp_wrap :: "exn + string"
  sal_wrap :: "exn + string list"
  tags_gt :: "exn + string list"

text \<open>The dictionary \<open>jobs\<close> with its seven lists.\<close>

record jobs =
  job_no :: "int list"
  roles :: "string list"
  companies :: "string list"
  locations :: "string list"
  experience :: "string list"
  salaries :: "string list"
  skills :: "string list"

definition empty_jobs :: jobs where
  "empty_jobs = \<lparr>job_no = [], roles = [], companies = [], locations = [],
     experience = [], salaries = [], skills = []\<rparr>"

text \<open>\<open>sep.join(xs)\<close>\<close>

fun join :: "string \<Rightarrow> string list \<Rightarrow> string" where
  "join sep [] = []"
| "join sep [x] = x"
| "join sep (x # y # ys) = x @ sep @ join sep (y # ys)"

text \<open>
  The outer \<open>except NoSuchElementException: continue\<close>: the job is skipped and the
  dictionary is as it was; any other exception leaves the function.
\<close>

definition skip_job :: "exn \<Rightarrow> jobs \<Rightarrow> exn + jobs" where
  "skip_job e js = (if e = NoSuchElementException then Inr js else Inl e)"

definition append_job ::
  "int \<Rightarrow> string \<Rightarrow> string \<Rightarrow> string \<Rightarrow> string \<Rightarrow> string \<Rightarrow> string \<Rightarrow> jobs \<Rightarrow> jobs" where
  "append_job jobno role company location exp' salary skill js =
     js\<lparr>job_no := job_no js @ [jobno],
        roles := roles js @ [role],
        companies := companies js @ [company],
        locations := locations js @ [location],
        experience := experience js @ [exp'],
        salaries := salaries js @ [salary],
        skills := skills js @ [skill]\<rparr>"

text \<open>
  The body of the inner loop for the element \<open>job\<close> at position \<open>index\<close> of the list
  \<open>lst\<close> of page \<open>i\<close>; \<open>len_lst\<close> is \<open>len(lst)\<close>.
\<close>

definition scrape_job :: "nat \<Rightarrow> nat \<Rightarrow> nat \<Rightarrow> job_tuple \<Rightarrow> jobs \<Rightarrow> exn + jobs" where
  "scrape_job i len_lst index job js =
     (let jobno = int (i * len_lst + index + 1) in
      case title job of Inl e \<Rightarrow> skip_job e js | Inr role \<Rightarrow>
      case comp_name job of Inl e \<Rightarrow> skip_job e js | Inr company \<Rightarrow>
      case loc_wrap job of Inl e \<Rightarrow> skip_job e js | Inr location \<Rightarrow>
      case exp_wrap job of Inl e \<Rightarrow> skip_job e js | Inr exp' \<Rightarrow>
      case sal_wrap job of Inl e \<Rightarrow> skip_job e js | Inr salary_elements \<Rightarrow>
      let salary = (case salary_elements of [] \<Rightarrow> ''NA'' | s # _ \<Rightarrow> s) in
      case tags_gt job of
        Inl e \<Rightarrow>
          if e = NoSuchElementException
          then Inr (append_job jobno role company location exp' salary ''NA'' js)
          else skip_job e js
      | Inr skill_tag \<Rightarrow>
          Inr (append_job jobno role company location exp' salary (join '','' skill_tag) js))"

text \<open>\<open>for index, job in enumerate(lst)\<close>, from position \<open>index\<close> on.\<close>

fun scrape_list :: "nat \<Rightarrow> nat \<Rightarrow> nat \<Rightarrow> job_tuple list \<Rightarrow> jobs \<Rightarrow> exn + jobs" where
  "scrape_list i len_lst index [] js = Inr js"
| "scrape_list i len_lst index (job # rest) js =
     (case scrape_job i len_lst index job js of
        Inl e \<Rightarrow> Inl e
      | Inr js' \<Rightarrow> scrape_list i len_lst (Suc index) rest js')"

text \<open>
  The browser as the scraper sees it: \<open>site i\<close> is what \<open>driver.get\<close> of page \<open>i\<close>
  followed by \<open>find_elements\<close> yields, or the exception one of them raises.
  \<open>scrape_pages site i k js\<close> runs the outer loop for the \<open>k\<close> pages from \<open>i\<close> on.
\<close>

fun scrape_pages :: "(nat \<Rightarrow> exn + job_tuple list) \<Rightarrow> nat \<Rightarrow> nat \<Rightarrow> jobs \<Rightarrow> exn + jobs" where
  "scrape_pages site i 0 js = Inr js"
| "scrape_pages site i (Suc k) js =
     (case site i of
        Inl e \<Rightarrow> Inl e
      | Inr lst \<Rightarrow>
          (case scrape_list i (length lst) 0 lst js of
             Inl e \<Rightarrow> Inl e
           | Inr js' \<Rightarrow> scrape_pages site (Suc i) k js'))"

definition scrape_naukri_jobs :: "(nat \<Rightarrow> exn + job_tuple list) \<Rightarrow> nat \<Rightarrow> exn + jobs" where
  "scrape_naukri_jobs site num_pages = scrape_pages site 0 num_pages empty_jobs"

text \<open>The seven lists have one common length \<open>n\<close>.\<close>

definition all_lengths :: "jobs \<Rightarrow> nat \<Rightarrow> bool" where
  "all_lengths js n \<longleftrightarrow>
     length (job_no js) = n \<and> length (roles js) = n \<and> length (companies js) = n \<and>
     length (locations js) = n \<and> length (experience js) = n \<and>
     length (salaries js) = n \<and> length (skills js) = n"

text \<open>A lookup that found its element, and one that is merely absent.\<close>

definition found :: "exn + 'a \<Rightarrow> bool" where
  "found r = (case r of Inl _ \<Rightarrow> False | Inr _ \<Rightarrow> True)"

definition missing :: "exn + 'a \<Rightarrow> bool" where
  "missing r = (case r of Inl e \<Rightarrow> e = NoSuchElementException | Inr _ \<Rightarrow> False)"

definition essentials_found :: "job_tuple \<Rightarrow> bool" where
  "essentials_found job \<longleftrightarrow>
     found (title job) \<and> found (comp_name job) \<and> found (loc_wrap job) \<and> found (exp_wrap job)"

text \<open>
  One of the four essential lookups raises \<open>NoSuchElementException\<close>, and the lookups
  made before it succeeded.
\<close>

definition essential_missing :: "job_tuple \<Rightarrow> bool" where
  "essential_missing job \<longleftrightarrow>
     missing (title job) \<or>
     (found (title job) \<and> missing (comp_name job)) \<or>
     (found (title job) \<and> found (comp_name job) \<and> missing (loc_wrap job)) \<or>
     (found (title job) \<and> found (comp_name job) \<and> found (loc_wrap job) \<and> missing (exp_wrap job))"

text \<open>The entries that a job tuple with the four essential texts puts into the lists.\<close>

definition the_text :: "exn + string \<Rightarrow> string" where
  "the_text r = (case r of Inl _ \<Rightarrow> [] | Inr t \<Rightarrow> t)"

definition recorded_salary :: "job_tuple \<Rightarrow> string" where
  "recorded_salary job = (case sal_wrap job of Inr (s # _) \<Rightarrow> s | _ \<Rightarrow> ''NA'')"

definition recorded_skill :: "job_tuple \<Rightarrow> string" where
  "recorded_skill job = (case tags_gt job of Inl _ \<Rightarrow> ''NA'' | Inr tags \<Rightarrow> join '','' tags)"

text \<open>
  The job tuples that the loops visit, each with the job number computed for it:
  \<open>numbered\<close> for the tuples of one page from position \<open>index\<close> on, \<open>listed\<close> for the
  \<open>k\<close> pages from page \<open>i\<close> on (a page that does not load has none). The complete ones
  among them are those with the four essential texts.
\<close>

fun numbered :: "nat \<Rightarrow> nat \<Rightarrow> nat \<Rightarrow> job_tuple list \<Rightarrow> (int \<times> job_tuple) list" where
  "numbered i len_lst index [] = []"
| "numbered i len_lst index (job # rest) =
     (int (i * len_lst + index + 1), job) # numbered i len_lst (Suc index) rest"

fun listed :: "(nat \<Rightarrow> exn + job_tuple list) \<Rightarrow> nat \<Rightarrow> nat \<Rightarrow> (int \<times> job_tuple) list" where
  "listed site i 0 = []"
| "listed site i (Suc k) =
     (case site i of Inl _ \<Rightarrow> [] | Inr lst \<Rightarrow> numbered i (length lst) 0 lst) @
     listed site (Suc i) k"

definition complete_jobs :: "(int \<times> job_tuple) list \<Rightarrow> (int \<times> job_tuple) list" where
  "complete_jobs njs = filter (\<lambda>(no, job). essentials_found job) njs"

text \<open>The dictionary after one entry per list has been appended for each of the given
  numbered job tuples.\<close>

definition add_jobs :: "(int \<times> job_tuple) list \<Rightarrow> jobs \<Rightarrow> jobs" where
  "add_jobs njs js =
     js\<lparr>job_no := job_no js @ map (\<lambda>(no, job). no) njs,
        roles := roles js @ map (\<lambda>(no, job). the_text (title job)) njs,
        companies := companies js @ map (\<lambda>(no, job). the_text (comp_name job)) njs,
        locations := locations js @ map (\<lambda>(no, job). the_text (loc_wrap job)) njs,
        experience := experience js @ map (\<lambda>(no, job). the_text (exp_wrap job)) njs,
        salaries := salaries js @ map (\<lambda>(no, job). recorded_salary job) njs,
        skills := skills js @ map (\<lambda>(no, job). recorded_skill job) njs\<rparr>"

text \<open>
  A lookup that answers: it finds its element or raises \<open>NoSuchElementException\<close>. A tame
  job tuple is one whose lookups all answer, the \<open>sal-wrap\<close> lookup with a list
  (\<open>find_elements\<close> returns the empty list where nothing is found).
\<close>

definition answered :: "exn + 'a \<Rightarrow> bool" where
  "answered r \<longleftrightarrow> found r \<or> missing r"

definition tame :: "job_tuple \<Rightarrow> bool" where
  "tame job \<longleftrightarrow>
     answered (title job) \<and> answered (comp_name job) \<and> answered (loc_wrap job) \<and>
     answered (exp_wrap job) \<and> found (sal_wrap job) \<and> answered (tags_gt job)"

fun pages_load :: "(nat \<Rightarrow> exn + job_tuple list) \<Rightarrow> nat \<Rightarrow> nat \<Rightarrow> bool" where
  "pages_load site i 0 = True"
| "pages_load site i (Suc k) = (found (site i) \<and> pages_load site (Suc i) k)"

section \<open>Cleaning: \<open>process_job_data\<close>\<close>

text \<open>\<open>str.lower\<close> on the code points 0..255: the ASCII capitals and the capitals of
  the Latin-1 block move up by 32; everything else stays.\<close>

definition lower_char :: "char \<Rightarrow> char" where
  "lower_char c =
     (let n = (of_char c :: nat) in
      if (65 \<le> n \<and> n \<le> 90) \<or> (192 \<le> n \<and> n \<le> 222 \<and> n \<noteq> 215) then char_of (n + 32) else c)"

definition lower :: "string \<Rightarrow> string" where
  "lower s = map lower_char s"

text \<open>\<open>str(n)\<close> for an integer.\<close>

function digits_of :: "nat \<Rightarrow> string" where
  "digits_of n =
     (if n < 10 then [char_of (48 + n)] else digits_of (n div 10) @ [char_of (48 + n mod 10)])"
  by pat_completeness auto
termination
  by (relation "measure id") auto

declare digits_of.simps [simp del]

definition str_int :: "int \<Rightarrow> string" where
  "str_int i = (if i < 0 then CHR ''-'' # digits_of (nat (- i)) else digits_of (nat i))"

text \<open>\<open>s.split(sep)\<close> for a separator of one character: the pieces between the
  separators, in order; a string without separator is its own single piece.\<close>

fun split_on :: "char \<Rightarrow> string \<Rightarrow> string list" where
  "split_on sep [] = [[]]"
| "split_on sep (c # s) =
     (if c = sep then [] # split_on sep s
      else (case split_on sep s of
              [] \<Rightarrow> [[c]]
            | piece # pieces \<Rightarrow> (c # piece) # pieces))"

text \<open>
  \<open>s.replace(old, new)\<close> (and \<open>Series.str.replace\<close> on a pattern without regex
  metacharacters, row by row): one scan from the left that replaces each occurrence of
  \<open>old\<close> it meets and goes on behind it. For the empty \<open>old\<close> Python puts \<open>new\<close> before
  every character and at the end.
\<close>

function replace_str :: "string \<Rightarrow> string \<Rightarrow> string \<Rightarrow> string" where
  "replace_str old new s =
     (if old = [] then new @ concat (map (\<lambda>c. c # new) s)
      else if s = [] then []
      else if prefix old s then new @ replace_str old new (drop (length old) s)
      else hd s # replace_str old new (tl s))"
  by pat_completeness auto
termination
  by (relation "measure (\<lambda>(old, new, s). length s)") auto

declare replace_str.simps [simp del]

text \<open>
  The data frame returned by \<open>process_job_data\<close>, by columns; after the cleaning the
  cells of \<open>skills\<close> and \<open>locations\<close> are lists of strings, every other cell is a
  string.
\<close>

record frame =
  df_job_no :: "string list"
  df_roles :: "string list"
  df_companies :: "string list"
  df_locations :: "string list list"
  df_experience :: "string list"
  df_salaries :: "string list"
  df_skills :: "string list list"

text \<open>
  \<open>pd.DataFrame.from_dict\<close> accepts the dictionary only if its lists have the same
  length, and raises \<open>ValueError\<close> otherwise. From seven empty lists it makes a frame
  whose columns hold no strings (an empty list gives a \<open>float64\<close> column, and \<open>apply\<close>
  on an empty frame leaves it so); the \<open>.str\<close> accessor of the \<open>salaries\<close> column
  then raises \<open>AttributeError\<close>.
\<close>

definition same_lengths :: "jobs \<Rightarrow> bool" where
  "same_lengths js = all_lengths js (length (job_no js))"

definition process_job_data :: "jobs \<Rightarrow> exn + frame" where
  "process_job_data jobs_data =
     (if \<not> same_lengths jobs_data then Inl ValueError
      else if job_no jobs_data = [] then Inl AttributeError
      else
        let job_no_l = map (\<lambda>n. lower (str_int n)) (job_no jobs_data);
            roles_l = map lower (roles jobs_data);
            companies_l = map lower (companies jobs_data);
            locations_l = map lower (locations jobs_data);
            experience_l = map lower (experience jobs_data);
            salaries_l = map lower (salaries jobs_data);
            skills_l = map lower (skills jobs_data)
        in Inr \<lparr>df_job_no = job_no_l,
                 df_roles = roles_l,
                 df_companies = companies_l,
                 df_locations = map (split_on CHR '','') locations_l,
                 df_experience = map (replace_str '' yrs'' []) experience_l,
                 df_salaries = map (replace_str '' lacs pa'' []) salaries_l,
                 df_skills = map (split_on CHR '','') skills_l\<rparr>)"

text \<open>
  ``Every occurrence of \<open>old\<close> removed'', said without a scan: position \<open>j\<close> of \<open>s\<close>
  is covered if it lies inside some occurrence of \<open>old\<close> in \<open>s\<close>, and the result keeps
  exactly the characters at the positions that are not covered.
\<close>

definition occurs_at :: "string \<Rightarrow> string \<Rightarrow> nat \<Rightarrow> bool" where
  "occurs_at old s i \<longleftrightarrow> old \<noteq> [] \<and> take (length old) (drop i s) = old"

definition covered :: "string \<Rightarrow> string \<Rightarrow> nat \<Rightarrow> bool" where
  "covered old s j \<longleftrightarrow> list_ex (\<lambda>i. j < i + length old \<and> occurs_at old s i) [0..<Suc j]"

definition without_occurrences :: "string \<Rightarrow> string \<Rightarrow> string" where
  "without_occurrences old s =
     map (\<lambda>j. s ! j) (filter (\<lambda>j. \<not> covered old s j) [0..<length s])"

text \<open>No proper non-empty end of \<open>old\<close> is also a beginning of it, so two occurrences
  of \<open>old\<close> never overlap.\<close>

definition unbordered :: "string \<Rightarrow> bool" where
  "unbordered old \<longleftrightarrow>
     list_all (\<lambda>k. drop k old \<noteq> take (length old - k) old) [1..<length old]"

section \<open>Strings and regular expressions\<close>

text \<open>
  The character classes of Python's \<open>re\<close> and \<open>str\<close> on the code points 0..255:
  \<open>\s\<close> and \<open>str.strip\<close> use the same whitespace test, \<open>\w\<close> is the alphanumeric
  characters and the underscore.
\<close>

definition is_space :: "char \<Rightarrow> bool" where
  "is_space c \<longleftrightarrow>
     (let n = (of_char c :: nat) in (9 \<le> n \<and> n \<le> 13) \<or> (28 \<le> n \<and> n \<le> 32) \<or> n = 133 \<or> n = 160)"

definition is_word :: "char \<Rightarrow> bool" where
  "is_word c \<longleftrightarrow>
     (let n = (of_char c :: nat) in
        (48 \<le> n \<and> n \<le> 57) \<or> (65 \<le> n \<and> n \<le> 90) \<or> n = 95 \<or> (97 \<le> n \<and> n \<le> 122) \<or>
        n = 170 \<or> n = 178 \<or> n = 179 \<or> n = 181 \<or> n = 185 \<or> n = 186 \<or>
        (188 \<le> n \<and> n \<le> 190) \<or> (192 \<le> n \<and> n \<le> 214) \<or> (216 \<le> n \<and> n \<le> 246) \<or>
        (248 \<le> n \<and> n \<le> 255))"

text \<open>\<open>s.strip()\<close>\<close>

definition strip :: "string \<Rightarrow> string" where
  "strip s = rev (dropWhile is_space (rev (dropWhile is_space s)))"

text \<open>
  The regular expressions of the script use literals, the classes \<open>.\<close>, \<open>\s\<close> and
  \<open>\w\<close>, the greedy star on a single class, \<open>\b\<close> and \<open>$\<close>. A pattern is the list of its
  items.
\<close>

datatype atom = Lit char | Dot | Space | Word

datatype item = One atom | Many atom | Word_boundary | End_of_string

fun atom_ok :: "atom \<Rightarrow> char \<Rightarrow> bool" where
  "atom_ok (Lit a) c = (c = a)"
| "atom_ok Dot c = (c \<noteq> CHR 0x0A)"
| "atom_ok Space c = is_space c"
| "atom_ok Word c = is_word c"

text \<open>
  \<open>\b\<close> holds between a word character and a non-word character or an end of the
  string; \<open>prev\<close> is the character before the current position, if any.
\<close>

definition at_boundary :: "char option \<Rightarrow> string \<Rightarrow> bool" where
  "at_boundary prev s \<longleftrightarrow>
     (case prev of None \<Rightarrow> False | Some c \<Rightarrow> is_word c) \<noteq>
     (case s of [] \<Rightarrow> False | c # _ \<Rightarrow> is_word c)"

text \<open>
  The backtracking matcher: \<open>re_match pat prev s\<close> tries to match \<open>pat\<close> at the start
  of \<open>s\<close> and returns what is left of \<open>s\<close> after the first match found. A star first
  takes one more character and gives it back only if the rest of the pattern then fails.
  \<open>$\<close> (without \<open>re.MULTILINE\<close>) holds at the end of the string and before a final
  newline.
\<close>

fun re_match :: "item list \<Rightarrow> char option \<Rightarrow> string \<Rightarrow> string option" where
  "re_match [] prev s = Some s"
| "re_match (One a # pat) prev [] = None"
| "re_match (One a # pat) prev (c # s) =
     (if atom_ok a c then re_match pat (Some c) s else None)"
| "re_match (Many a # pat) prev [] = re_match pat prev []"
| "re_match (Many a # pat) prev (c # s) =
     (if atom_ok a c
      then (case re_match (Many a # pat) (Some c) s of
              Some r \<Rightarrow> Some r
            | None \<Rightarrow> re_match pat prev (c # s))
      else re_match pat prev (c # s))"
| "re_match (Word_boundary # pat) prev s =
     (if at_boundary prev s then re_match pat prev s else None)"
| "re_match (End_of_string # pat) prev s =
     (if s = [] \<or> s = [CHR 0x0A] then re_match pat prev s else None)"

text \<open>
  \<open>re.sub(pat, repl, s)\<close> for a replacement without group references, scanning from
  the left. After a match that consumed characters the scan goes on where the match
  ended. An empty match is replaced too; the character at that position is then copied
  and the scan goes on behind it (a star that matched nothing has no longer match at that
  position). Where nothing matches, the character is copied.
\<close>

function re_sub_from :: "item list \<Rightarrow> string \<Rightarrow> char option \<Rightarrow> string \<Rightarrow> string" where
  "re_sub_from pat repl prev [] =
     (case re_match pat prev [] of Some r \<Rightarrow> repl | None \<Rightarrow> [])"
| "re_sub_from pat repl prev (c # s) =
     (case re_match pat prev (c # s) of
        Some r \<Rightarrow>
          if length r < length (c # s)
          then repl @ re_sub_from pat repl (Some ((c # s) ! (length s - length r))) r
          else repl @ c # re_sub_from pat repl (Some c) s
      | None \<Rightarrow> c # re_sub_from pat repl (Some c) s)"
  by pat_completeness auto
termination
  by (relation "measure (\<lambda>(pat, repl, prev, s). length s)") auto

definition re_sub :: "item list \<Rightarrow> string \<Rightarrow> string \<Rightarrow> string" where
  "re_sub pat repl s = re_sub_from pat repl None s"

definition lits :: "string \<Rightarrow> item list" where
  "lits s = map (\<lambda>c. One (Lit c)) s"

section \<open>Location clean-up: the two helpers of \<open>clean_and_analyze_locations\<close>\<close>

text \<open>
  The five patterns of \<open>replace_location_patterns\<close>, in the order of its list:
  \<open>\(.*\)\<close>, \<open>hybrid\s*-\s*\<close>, \<open>\bnew\s\<close>, \<open>\s*\<close> and \<open>/.*$\<close>.
\<close>

definition location_patterns :: "item list list" where
  "location_patterns =
     [[One (Lit CHR ''(''), Many Dot, One (Lit CHR '')'')],
      lits ''hybrid'' @ [Many Space, One (Lit CHR ''-''), Many Space],
      Word_boundary # lits ''new'' @ [One Space],
      [Many Space],
      [One (Lit CHR ''/''), Many Dot, End_of_string]]"

definition replace_location_patterns :: "string \<Rightarrow> string" where
  "replace_location_patterns location =
     strip (fold (\<lambda>pattern loc. re_sub pattern [] loc) location_patterns location)"

text \<open>
  The dictionary of \<open>replace_common_locations\<close> in insertion order; each pattern is
  \<open>\b\w*key\w*\b\<close>.
\<close>

definition common_pattern :: "string \<Rightarrow> item list" where
  "common_pattern key = [Word_boundary, Many Word] @ lits key @ [Many Word, Word_boundary]"

definition replacements :: "(item list \<times> string) list" where
  "replacements =
     [(common_pattern ''mumbai'', ''mumbai''),
      (common_pattern ''delhi'', ''delhi''),
      (common_pattern ''bangal'', ''bengaluru''),
      (common_pattern ''noida'', ''noida'')]"

definition replace_common_locations :: "string \<Rightarrow> string" where
  "replace_common_locations location =
     strip (fold (\<lambda>(pattern, replacement) loc. re_sub pattern replacement loc)
              replacements location)"

text \<open>
  A description of the substitutions of \<open>replace_common_locations\<close> by words, used to
  reason about them: a word is a maximal run of \<open>\w\<close> characters, and \<open>words_map f\<close>
  rewrites every word with \<open>f\<close> and keeps everything else.
\<close>

function words_map :: "(string \<Rightarrow> string) \<Rightarrow> string \<Rightarrow> string" where
  "words_map f [] = []"
| "words_map f (c # s) =
     (if is_word c then f (c # takeWhile is_word s) @ words_map f (dropWhile is_word s)
      else c # words_map f s)"
  by pat_completeness auto
termination
  by (relation "measure (\<lambda>(f, s). length s)")
    (auto simp: length_dropWhile_le less_Suc_eq_le)

definition in_word :: "char option \<Rightarrow> bool" where
  "in_word prev = (case prev of None \<Rightarrow> False | Some c \<Rightarrow> is_word c)"

definition word_rule :: "string \<Rightarrow> string \<Rightarrow> string \<Rightarrow> string" where
  "word_rule key replacement w = (if sublist key w then replacement else w)"

text \<open>What the four substitutions together do to one word.\<close>

definition common_word :: "string \<Rightarrow> string" where
  "common_word w =
     word_rule ''noida'' ''noida''
       (word_rule ''bangal'' ''bengaluru''
          (word_rule ''delhi'' ''delhi''
             (word_rule ''mumbai'' ''mumbai'' w)))"

text \<open>A non-empty string of word characters.\<close>

definition is_a_word :: "string \<Rightarrow> bool" where
  "is_a_word w \<longleftrightarrow> w \<noteq> [] \<and> list_all is_word w"

section \<open>Counting and percentages\<close>

text \<open>
  \<open>Series.value_counts()\<close>: the rows are tallied in a table that keeps the values in
  the order of their first appearance, and the table is then put in descending order of
  the counts. (The order among equal counts is not fixed by pandas; here equal counts keep
  their order of first appearance. Nothing below depends on it.)
\<close>

fun bump :: "'a \<Rightarrow> ('a \<times> nat) list \<Rightarrow> ('a \<times> nat) list" where
  "bump v [] = [(v, 1)]"
| "bump v ((k, n) # table) = (if k = v then (k, Suc n) # table else (k, n) # bump v table)"

definition tally :: "'a list \<Rightarrow> ('a \<times> nat) list" where
  "tally col = foldl (\<lambda>table v. bump v table) [] col"

definition value_counts :: "'a list \<Rightarrow> ('a \<times> nat) list" where
  "value_counts col = sort_key (\<lambda>(v, n). - int n) (tally col)"

text \<open>\<open>Series.unique()\<close>: the distinct values in order of first appearance.\<close>

definition unique :: "'a list \<Rightarrow> 'a list" where
  "unique col = foldl (\<lambda>seen v. if v \<in> set seen then seen else seen @ [v]) [] col"

text \<open>
  \<open>explode\<close> on a column of lists: one row per list element; an empty list gives one
  row holding NaN (\<open>None\<close>). \<open>dropna\<close> removes such rows.
\<close>

definition explode :: "'a list list \<Rightarrow> 'a option list" where
  "explode col = concat (map (\<lambda>cell. if cell = [] then [None] else map Some cell) col)"

definition dropna :: "'a option list \<Rightarrow> 'a list" where
  "dropna col = concat (map (\<lambda>cell. case cell of None \<Rightarrow> [] | Some v \<Rightarrow> [v]) col)"

text \<open>
  Double-precision arithmetic. A finite double is the rational number it stands for.
  \<open>round64\<close> rounds a rational to the nearest number with a 53-bit significand, ties to
  the even significand; the exponent range of doubles plays no role for quotients of
  row counts and is not modelled.
\<close>

function bit_length :: "int \<Rightarrow> int" where
  "bit_length p = (if p \<le> 0 then 0 else 1 + bit_length (p div 2))"
  by pat_completeness auto
termination
  by (relation "measure nat") auto

declare bit_length.simps [simp del]

definition pow2 :: "int \<Rightarrow> rat" where
  "pow2 e = (if 0 \<le> e then 2 ^ nat e else 1 / 2 ^ nat (- e))"

text \<open>The exponent \<open>e\<close> with \<open>2 ^ e \<le> x < 2 ^ (e + 1)\<close>, for positive \<open>x\<close>: the
  difference of the bit lengths of numerator and denominator, or one less.\<close>

definition exponent :: "rat \<Rightarrow> int" where
  "exponent x =
     (let (p, q) = quotient_of x;
          d = bit_length p - bit_length q
      in if pow2 d \<le> x then d else d - 1)"

definition round_half_even :: "rat \<Rightarrow> int" where
  "round_half_even y =
     (let f = \<lfloor>y\<rfloor>; r = y - of_int f
      in if r < 1 / 2 then f else if 1 / 2 < r then f + 1 else if even f then f else f + 1)"

definition round64 :: "rat \<Rightarrow> rat" where
  "round64 x =
     (if x = 0 then 0
      else let a = \<bar>x\<bar>; ulp = pow2 (exponent a - 52)
           in sgn x * of_int (round_half_even (a / ulp)) * ulp)"

text \<open>
  \<open>(counts / total) * 100\<close> on the result of \<open>value_counts\<close>: each count is divided
  by the number of rows in double precision (integers of this size are doubles), and the
  quotient is multiplied by 100 in double precision.
\<close>

definition percent :: "nat \<Rightarrow> nat \<Rightarrow> rat" where
  "percent n total_rows = round64 (round64 (of_nat n / of_nat total_rows) * 100)"

definition percentages :: "'a list \<Rightarrow> ('a \<times> rat) list" where
  "percentages col = map (\<lambda>(v, n). (v, percent n (length col))) (value_counts col)"

section \<open>The analyses and \<open>main\<close>\<close>

text \<open>
  What a run of the script does is recorded as a list of events: the browser session
  being opened and quit, each stage function being called with its argument, returning
  its value or raising, the statistics printed, and the files written. The captions that
  the script prints between them are left out.
\<close>

datatype stage =
  Scraping | Cleaning | Csv_output |
  Experience_analysis | Salary_analysis | Location_analysis | Skill_analysis

datatype artifact = Page_count nat | Raw_jobs jobs | Cleaned_frame frame | No_value

datatype event =
    Chrome_started
  | Window_maximized
  | Driver_quit
  | Called stage artifact
  | Returned stage artifact
  | Raised stage exn
  | Counts_printed stage "(string \<times> nat) list"
  | Percentages_printed stage "(string \<times> rat) list"
  | Distinct_printed "string option list"
  | Bar_chart_saved string "(string \<times> nat) list"
  | Word_cloud_saved string string
  | File_written string
  | Error_printed exn

text \<open>
  The world outside the script: whether starting Chrome, maximizing the window, writing
  the CSV file, producing the figure of a given file name, or quitting the driver raises,
  and what the site shows on each page.
\<close>

record env =
  chrome_fails :: "exn option"
  maximize_fails :: "exn option"
  web_site :: "nat \<Rightarrow> exn + job_tuple list"
  to_csv_fails :: "exn option"
  figure_fails :: "string \<Rightarrow> exn option"
  quit_fails :: "exn option"

text \<open>The configuration constants of the script.\<close>

definition job_role :: string where
  "job_role = ''SDET''"

definition num_pages :: nat where
  "num_pages = 1"

text \<open>A computation yields the events it caused and its value, or the exception that
  ended it.\<close>

type_synonym 'a run = "event list \<times> (exn + 'a)"

definition emit :: "event \<Rightarrow> unit run" where
  "emit ev = ([ev], Inr ())"

definition lib_call :: "exn option \<Rightarrow> unit run" where
  "lib_call failure = (case failure of None \<Rightarrow> ([], Inr ()) | Some e \<Rightarrow> ([], Inl e))"

definition and_then :: "'a run \<Rightarrow> ('a \<Rightarrow> 'b run) \<Rightarrow> 'b run" where
  "and_then m f =
     (case m of
        (evs, Inl e) \<Rightarrow> (evs, Inl e)
      | (evs, Inr x) \<Rightarrow> (case f x of (evs', r) \<Rightarrow> (evs @ evs', r)))"

text \<open>A call of a stage function from \<open>main\<close>: its argument, what it does, and how it
  ends.\<close>

definition staged :: "stage \<Rightarrow> artifact \<Rightarrow> ('a \<Rightarrow> artifact) \<Rightarrow> 'a run \<Rightarrow> 'a run" where
  "staged st arg result m =
     (case m of
        (evs, Inl e) \<Rightarrow> (Called st arg # evs @ [Raised st e], Inl e)
      | (evs, Inr x) \<Rightarrow> (Called st arg # evs @ [Returned st (result x)], Inr x))"

definition initialize_driver :: "env \<Rightarrow> unit run" where
  "initialize_driver world =
     and_then (lib_call (chrome_fails world)) (\<lambda>_.
     and_then (emit Chrome_started) (\<lambda>_.
     and_then (lib_call (maximize_fails world)) (\<lambda>_.
     emit Window_maximized)))"

definition csv_name :: string where
  "csv_name = ''Naukri_'' @ replace_str '' '' ''_'' job_role @ ''.csv''"

definition to_csv :: "env \<Rightarrow> frame \<Rightarrow> unit run" where
  "to_csv world df = and_then (lib_call (to_csv_fails world)) (\<lambda>_. emit (File_written csv_name))"

definition analyze_experience :: "env \<Rightarrow> frame \<Rightarrow> unit run" where
  "analyze_experience world df =
     (let experience_counts = value_counts (df_experience df);
          experience_percentages = percentages (df_experience df);
          new_experience_counts = take 10 (value_counts (df_experience df))
      in and_then (emit (Counts_printed Experience_analysis experience_counts)) (\<lambda>_.
         and_then (emit (Percentages_printed Experience_analysis experience_percentages)) (\<lambda>_.
         and_then (lib_call (figure_fails world ''experience_range.png'')) (\<lambda>_.
         emit (Bar_chart_saved ''experience_range.png'' new_experience_counts)))))"

definition analyze_salary :: "env \<Rightarrow> frame \<Rightarrow> unit run" where
  "analyze_salary world df =
     (let salaries_counts = value_counts (df_salaries df);
          salaries_percentages = percentages (df_salaries df);
          new_salaries_counts = take 5 (value_counts (df_salaries df))
      in and_then (emit (Counts_printed Salary_analysis salaries_counts)) (\<lambda>_.
         and_then (emit (Percentages_printed Salary_analysis salaries_percentages)) (\<lambda>_.
         and_then (lib_call (figure_fails world ''salaries_range.png'')) (\<lambda>_.
         emit (Bar_chart_saved ''salaries_range.png'' new_salaries_counts)))))"

text \<open>
  \<open>Series.apply(f)\<close> with one of the two location helpers: \<open>re.sub\<close> raises
  \<open>TypeError\<close> on a NaN row.
\<close>

definition apply_str :: "(string \<Rightarrow> string) \<Rightarrow> string option list \<Rightarrow> exn + string option list" where
  "apply_str f col = (if None \<in> set col then Inl TypeError else Inr (map (map_option f) col))"

text \<open>The location column as it is counted: exploded, then passed through the two
  helpers. (The \<open>job_no\<close> column is carried along by the script and never read.)\<close>

definition cleaned_locations :: "frame \<Rightarrow> exn + string option list" where
  "cleaned_locations df =
     (case apply_str replace_location_patterns (explode (df_locations df)) of
        Inl e \<Rightarrow> Inl e
      | Inr col \<Rightarrow> apply_str replace_common_locations col)"

definition clean_and_analyze_locations :: "env \<Rightarrow> frame \<Rightarrow> unit run" where
  "clean_and_analyze_locations world df =
     and_then ([], cleaned_locations df) (\<lambda>col.
     let location_counts = value_counts (dropna col);
         location_percentages = percentages (dropna col);
         location_string = join '', '' (dropna col)
     in and_then (emit (Counts_printed Location_analysis location_counts)) (\<lambda>_.
        and_then (emit (Percentages_printed Location_analysis location_percentages)) (\<lambda>_.
        and_then (lib_call (figure_fails world ''job_location_counts.png'')) (\<lambda>_.
        and_then (emit (Bar_chart_saved ''job_location_counts.png'' location_counts)) (\<lambda>_.
        and_then (lib_call (figure_fails world ''location_wordcloud.png'')) (\<lambda>_.
        emit (Word_cloud_saved ''location_wordcloud.png'' location_string)))))))"

definition analyze_skills :: "env \<Rightarrow> frame \<Rightarrow> unit run" where
  "analyze_skills world df =
     (let col = explode (df_skills df);
          distinct_skill = unique col;
          skills_string = join '', '' (dropna col)
      in and_then (emit (Distinct_printed distinct_skill)) (\<lambda>_.
         and_then (lib_call (figure_fails world ''skills_wordcloud.png'')) (\<lambda>_.
         emit (Word_cloud_saved ''skills_wordcloud.png'' skills_string))))"

text \<open>The body of the \<open>try\<close> block of \<open>main\<close> after the driver is there.\<close>

definition pipeline :: "env \<Rightarrow> unit run" where
  "pipeline world =
     and_then (staged Scraping (Page_count num_pages) Raw_jobs
                 ([], scrape_naukri_jobs (web_site world) num_pages)) (\<lambda>jobs_data.
     if job_no jobs_data = [] then ([], Inr ())
     else
       and_then (staged Cleaning (Raw_jobs jobs_data) Cleaned_frame
                   ([], process_job_data jobs_data)) (\<lambda>df_raw.
       and_then (staged Csv_output (Cleaned_frame df_raw) (\<lambda>_. No_value)
                   (to_csv world df_raw)) (\<lambda>_.
       and_then (staged Experience_analysis (Cleaned_frame df_raw) (\<lambda>_. No_value)
                   (analyze_experience world df_raw)) (\<lambda>_.
       and_then (staged Salary_analysis (Cleaned_frame df_raw) (\<lambda>_. No_value)
                   (analyze_salary world df_raw)) (\<lambda>_.
       and_then (staged Location_analysis (Cleaned_frame df_raw) (\<lambda>_. No_value)
                   (clean_and_analyze_locations world df_raw)) (\<lambda>_.
       staged Skill_analysis (Cleaned_frame df_raw) (\<lambda>_. No_value)
         (analyze_skills world df_raw)))))))"

text \<open>
  The \<open>try\<close> block: \<open>driver\<close> is assigned only when \<open>initialize_driver\<close> returns. The
  first component tells whether it was.
\<close>

definition main_try :: "env \<Rightarrow> bool \<times> unit run" where
  "main_try world =
     (case initialize_driver world of
        (evs, Inl e) \<Rightarrow> (False, (evs, Inl e))
      | (evs, Inr _) \<Rightarrow> (True, and_then (evs, Inr ()) (\<lambda>_. pipeline world)))"

text \<open>
  \<open>main\<close>: the \<open>except Exception\<close> clause prints the exception; the \<open>finally\<close> clause
  quits the driver if \<open>driver\<close> was assigned. The result is the events of the run and the
  exception that leaves \<open>main\<close>, if any.
\<close>

definition main :: "env \<Rightarrow> event list \<times> exn option" where
  "main world =
     (case main_try world of
        (driver, evs, r) \<Rightarrow>
          let printed = (case r of Inl e \<Rightarrow> [Error_printed e] | Inr _ \<Rightarrow> [])
          in if driver then (evs @ printed @ [Driver_quit], quit_fails world)
             else (evs @ printed, None))"

section \<open>Notions and example data used in the statements\<close>

text \<open>The column that the statistics of a stage are about.\<close>

fun analysed_column :: "stage \<Rightarrow> frame \<Rightarrow> string list" where
  "analysed_column Experience_analysis df = df_experience df"
| "analysed_column Salary_analysis df = df_salaries df"
| "analysed_column Location_analysis df =
     (case cleaned_locations df of Inl _ \<Rightarrow> [] | Inr col \<Rightarrow> dropna col)"
| "analysed_column _ df = []"

text \<open>The events of the four analysis functions on one frame.\<close>

definition analysis_events :: "env \<Rightarrow> frame \<Rightarrow> event list" where
  "analysis_events world df =
     fst (analyze_experience world df) @ fst (analyze_salary world df) @
     fst (clean_and_analyze_locations world df) @ fst (analyze_skills world df)"

text \<open>The number of rows of a column that hold exactly the value \<open>v\<close>.\<close>

definition frequency :: "'a list \<Rightarrow> 'a \<Rightarrow> nat" where
  "frequency col v = length (filter (\<lambda>x. x = v) col)"

text \<open>The percentage of a value in exact arithmetic.\<close>

definition exact_percent :: "'a list \<Rightarrow> 'a \<Rightarrow> rat" where
  "exact_percent col v = of_nat (frequency col v) / of_nat (length col) * 100"

text \<open>A page with two job tuples: the first lacks its company, the second is complete
  but shows neither a salary nor a tag list.\<close>

definition job_partial :: job_tuple where
  "job_partial = \<lparr>title = Inr ''QA Engineer'', comp_name = Inl NoSuchElementException,
     loc_wrap = Inr ''Pune'', exp_wrap = Inr ''1-3 Yrs'', sal_wrap = Inr [''4 Lacs PA''],
     tags_gt = Inr [''selenium'']\<rparr>"

definition job_full :: job_tuple where
  "job_full = \<lparr>title = Inr ''SDET'', comp_name = Inr ''Acme'',
     loc_wrap = Inr ''Navi Mumbai'', exp_wrap = Inr ''2-5 Yrs'', sal_wrap = Inr [],
     tags_gt = Inl NoSuchElementException\<rparr>"

definition job_third :: job_tuple where
  "job_third = \<lparr>title = Inr ''Tester'', comp_name = Inr ''Globex'',
     loc_wrap = Inr ''Pune'', exp_wrap = Inr ''0-1 Yrs'', sal_wrap = Inr [''6-9 Lacs PA'', ''x''],
     tags_gt = Inr [''java'', ''sql'']\<rparr>"

text \<open>A site that shows the same three job tuples on every page, and what scraping two
  of its pages returns.\<close>

definition three_site :: "nat \<Rightarrow> exn + job_tuple list" where
  "three_site i = Inr [job_partial, job_full, job_third]"

definition three_site_jobs :: jobs where
  "three_site_jobs = \<lparr>job_no = [2, 3, 5, 6],
     roles = [''SDET'', ''Tester'', ''SDET'', ''Tester''],
     companies = [''Acme'', ''Globex'', ''Acme'', ''Globex''],
     locations = [''Navi Mumbai'', ''Pune'', ''Navi Mumbai'', ''Pune''],
     experience = [''2-5 Yrs'', ''0-1 Yrs'', ''2-5 Yrs'', ''0-1 Yrs''],
     salaries = [''NA'', ''6-9 Lacs PA'', ''NA'', ''6-9 Lacs PA''],
     skills = [''NA'', ''java,sql'', ''NA'', ''java,sql'']\<rparr>"

definition example_site :: "nat \<Rightarrow> exn + job_tuple list" where
  "example_site i = Inr [job_partial, job_full]"

definition example_jobs :: jobs where
  "example_jobs = \<lparr>job_no = [2], roles = [''SDET''], companies = [''Acme''],
     locations = [''Navi Mumbai''], experience = [''2-5 Yrs''], salaries = [''NA''],
     skills = [''NA'']\<rparr>"

text \<open>A frame of three jobs with three different experience ranges.\<close>

definition three_levels :: frame where
  "three_levels = \<lparr>df_job_no = [''1'', ''2'', ''3''],
     df_roles = [''sdet'', ''sdet'', ''sdet''],
     df_companies = [''acme'', ''initech'', ''globex''],
     df_locations = [[''pune''], [''pune''], [''pune'']],
     df_experience = [''0-1'', ''2-5'', ''5-8''],
     df_salaries = [''na'', ''na'', ''na''],
     df_skills = [[''java''], [''java''], [''java'']]\<rparr>"

text \<open>A cleaned frame of three jobs, and a world in which nothing fails.\<close>

definition three_jobs :: frame where
  "three_jobs = \<lparr>df_job_no = [''1'', ''2'', ''3''],
     df_roles = [''sdet'', ''qa engineer'', ''sdet ii''],
     df_companies = [''acme'', ''initech'', ''globex''],
     df_locations = [[''hybrid - new delhi'', '' navi mumbai''], [''bangalore/bengaluru''], [''pune'']],
     df_experience = [''2-5'', ''0-1'', ''2-5''],
     df_salaries = [''3-5'', ''na'', ''6-9''],
     df_skills = [[''java'', ''new delhi''], [''selenium''], [''java'']]\<rparr>"

definition calm :: env where
  "calm = \<lparr>chrome_fails = None, maximize_fails = None, web_site = example_site,
     to_csv_fails = None, figure_fails = (\<lambda>_. None), quit_fails = None\<rparr>"

text \<open>
  The stage events of a run, and the shape they have in a linear pipeline over a list of
  stages: the stages are called in the order of the list, each returns before the next is
  called, and a stage that raises is the last one.
\<close>

fun is_stage_event :: "event \<Rightarrow> bool" where
  "is_stage_event (Called st a) = True"
| "is_stage_event (Returned st a) = True"
| "is_stage_event (Raised st e) = True"
| "is_stage_event _ = False"

definition stage_trace :: "event list \<Rightarrow> event list" where
  "stage_trace evs = filter is_stage_event evs"

fun pipeline_shape :: "stage list \<Rightarrow> event list \<Rightarrow> bool" where
  "pipeline_shape sts [] = True"
| "pipeline_shape (st # sts) [Called st1 a, Raised st2 e] = (st1 = st \<and> st2 = st)"
| "pipeline_shape (st # sts) (Called st1 a # Returned st2 b # rest) =
     (st1 = st \<and> st2 = st \<and> pipeline_shape sts rest)"
| "pipeline_shape sts evs = False"

text \<open>The stage events of one stage that ends with \<open>r\<close>, followed by those of the
  stages after it.\<close>

definition stage_then ::
  "stage \<Rightarrow> artifact \<Rightarrow> ('a \<Rightarrow> artifact) \<Rightarrow> exn + 'a \<Rightarrow> ('a \<Rightarrow> event list) \<Rightarrow> event list" where
  "stage_then st a res r later =
     (case r of
        Inl e \<Rightarrow> [Called st a, Raised st e]
      | Inr x \<Rightarrow> Called st a # Returned st (res x) # later x)"

definition all_stages :: "stage list" where
  "all_stages = [Scraping, Cleaning, Csv_output, Experience_analysis, Salary_analysis,
     Location_analysis, Skill_analysis]"

text \<open>Every call takes as its argument the value that the call before it returned.\<close>

fun feeds_next :: "event list \<Rightarrow> bool" where
  "feeds_next (Returned st a # Called st' b # rest) = (a = b \<and> feeds_next (Called st' b # rest))"
| "feeds_next (ev # rest) = feeds_next rest"
| "feeds_next [] = True"

text \<open>A table of counts or of percentages for the skills.\<close>

fun skill_statistic :: "event \<Rightarrow> bool" where
  "skill_statistic (Counts_printed st cs) = (st = Skill_analysis)"
| "skill_statistic (Percentages_printed st ps) = (st = Skill_analysis)"
| "skill_statistic _ = False"

text \<open>The frame that cleaning makes of \<open>example_jobs\<close>.\<close>

definition example_frame :: frame where
  "example_frame = \<lparr>df_job_no = [''2''], df_roles = [''sdet''], df_companies = [''acme''],
     df_locations = [[''navi mumbai'']], df_experience = [''2-5''], df_salaries = [''na''],
     df_skills = [[''na'']]\<rparr>"

text \<open>The two events of the browser session: opened by \<open>webdriver.Chrome()\<close>, closed
  by \<open>driver.quit()\<close>.\<close>

fun browser_event :: "event \<Rightarrow> bool" where
  "browser_event Chrome_started = True"
| "browser_event Driver_quit = True"
| "browser_event _ = False"

text \<open>The two location helpers, one after the other.\<close>

definition normalize_location :: "string \<Rightarrow> string" where
  "normalize_location location = replace_common_locations (replace_location_patterns location)"

text \<open>The names of the image files that the analyses save.\<close>

definition figure_names :: "string list" where
  "figure_names = [''experience_range.png'', ''salaries_range.png'',
     ''job_location_counts.png'', ''location_wordcloud.png'', ''skills_wordcloud.png'']"

text \<open>A world in which saving the first figure raises.\<close>

definition plot_breaks :: env where
  "plot_breaks =
     calm\<lparr>figure_fails := (\<lambda>name. if name = ''experience_range.png'' then Some OSError else None)\<rparr>"

text \<open>A world in which Chrome starts and maximizing its window raises.\<close>

definition maximize_breaks :: env where
  "maximize_breaks = calm\<lparr>maximize_fails := Some WebDriverException\<rparr>"

text \<open>
  The letters that \<open>str.lower\<close> changes among the code points 0..255, and what it makes
  of them: \<open>A\<close> to \<open>Z\<close> and the capitals from code point 192 to 222 without the
  multiplication sign 215, each moved to the small letter 32 places further on.
\<close>

definition capital_letters :: string where
  "capital_letters = map char_of ([65..<91] @ [192..<215] @ [216..<223 :: nat])"

definition small_letters :: string where
  "small_letters = map char_of ([97..<123] @ [224..<247] @ [248..<255 :: nat])"

text \<open>The number that a string of decimal digits stands for.\<close>

definition decimal :: "string \<Rightarrow> nat" where
  "decimal s = foldl (\<lambda>acc c. 10 * acc + (of_char c - 48)) 0 s"

text \<open>Two scraped rows, the second with a capital beyond ASCII in its role, and their
  cleaned form.\<close>

definition raw_rows :: jobs where
  "raw_rows = \<lparr>job_no = [1, 12],
     roles = [''SDET'', [CHR ''C'', CHR ''A'', CHR ''F'', CHR 0xC9, CHR '' '', CHR ''Q'', CHR ''A'']],
     companies = [''Acme'', ''Initech''],
     locations = [''Pune, Navi Mumbai'', ''Delhi''],
     experience = [''2-5 Yrs'', ''0-1 Yrs Yrs''],
     salaries = [''3-5 Lacs PA'', ''Not disclosed''],
     skills = [''Java,Selenium'', ''NA'']\<rparr>"

definition clean_rows :: frame where
  "clean_rows = \<lparr>df_job_no = [''1'', ''12''],
     df_roles = [''sdet'', [CHR ''c'', CHR ''a'', CHR ''f'', CHR 0xE9, CHR '' '', CHR ''q'', CHR ''a'']],
     df_companies = [''acme'', ''initech''],
     df_locations = [[''pune'', '' navi mumbai''], [''delhi'']],
     df_experience = [''2-5'', ''0-1''],
     df_salaries = [''3-5'', ''not disclosed''],
     df_skills = [[''java'', ''selenium''], [''na'']]\<rparr>"

text \<open>One scraped row and its cleaned form.\<close>

definition raw_example :: jobs where
  "raw_example = \<lparr>job_no = [1], roles = [''SDET''], companies = [''Acme''],
     locations = [''Pune, Navi Mumbai''], experience = [''2-5 Yrs''],
     salaries = [''3-5 Lacs PA''], skills = [''Java,Selenium'']\<rparr>"

definition clean_example :: frame where
  "clean_example = \<lparr>df_job_no = [''1''], df_roles = [''sdet''], df_companies = [''acme''],
     df_locations = [[''pune'', '' navi mumbai'']], df_experience = [''2-5''],
     df_salaries = [''3-5''], df_skills = [[''java'', ''selenium'']]\<rparr>"

section \<open>Properties of the scraper\<close>

lemma scrape_job_missing:
  "essential_missing job \<Longrightarrow> scrape_job i n k job js = Inr js"
  by (auto simp: essential_missing_def missing_def found_def scrape_job_def skip_job_def
      split: sum.splits)

lemma add_jobs_Nil [simp]: "add_jobs [] js = js"
  by (simp add: add_jobs_def)

lemma add_jobs_append: "add_jobs (a @ b) js = add_jobs b (add_jobs a js)"
  by (simp add: add_jobs_def)

lemma add_jobs_one:
  "add_jobs [(no, job)] js =
     append_job no (the_text (title job)) (the_text (comp_name job)) (the_text (loc_wrap job))
       (the_text (exp_wrap job)) (recorded_salary job) (recorded_skill job) js"
  by (simp add: add_jobs_def append_job_def)

text \<open>What one pass of the loop body leaves behind when it does not raise.\<close>

lemma scrape_job_Inr:
  assumes "scrape_job i n k job js = Inr js1" and "\<not> missing (sal_wrap job)"
  shows "js1 = add_jobs (complete_jobs [(int (i * n + k + 1), job)]) js"
  using assms
  by (auto simp: scrape_job_def skip_job_def Let_def complete_jobs_def essentials_found_def
      found_def missing_def add_jobs_one the_text_def recorded_salary_def recorded_skill_def
      split: sum.splits if_splits list.splits)

lemma scrape_job_found:
  assumes "essentials_found job" and "found (sal_wrap job)"
    and "found (tags_gt job) \<or> missing (tags_gt job)"
  shows "scrape_job i n k job js = Inr (add_jobs [(int (i * n + k + 1), job)] js)"
  using assms
  by (auto simp: scrape_job_def skip_job_def Let_def essentials_found_def
      found_def missing_def add_jobs_one the_text_def recorded_salary_def recorded_skill_def
      split: sum.splits if_splits list.splits)

lemma scrape_job_tame:
  assumes "tame job"
  shows "\<exists>js1. scrape_job i n k job js = Inr js1"
  using assms
  by (auto simp: scrape_job_def skip_job_def Let_def tame_def answered_def
      found_def missing_def split: sum.splits if_splits list.splits)

lemma complete_jobs_Cons:
  "complete_jobs (nj # njs) = complete_jobs [nj] @ complete_jobs njs"
  by (simp add: complete_jobs_def)

lemma complete_jobs_append:
  "complete_jobs (a @ b) = complete_jobs a @ complete_jobs b"
  by (simp add: complete_jobs_def)

lemma scrape_list_Inr:
  assumes "scrape_list i n k lst js = Inr js'"
    and "list_all (\<lambda>(no, job). \<not> missing (sal_wrap job)) (numbered i n k lst)"
  shows "js' = add_jobs (complete_jobs (numbered i n k lst)) js"
  using assms
proof (induction lst arbitrary: k js)
  case Nil
  then show ?case by (simp add: complete_jobs_def)
next
  case (Cons job rest)
  from Cons.prems(1) obtain js1 where
    s1: "scrape_job i n k job js = Inr js1" and
    s2: "scrape_list i n (Suc k) rest js1 = Inr js'"
    by (auto split: sum.splits)
  from Cons.prems(2) have m: "\<not> missing (sal_wrap job)"
    and r: "list_all (\<lambda>(no, job). \<not> missing (sal_wrap job)) (numbered i n (Suc k) rest)"
    by simp_all
  from scrape_job_Inr [OF s1 m] Cons.IH [OF s2 r] show ?case
    by (simp add: complete_jobs_Cons [of _ "numbered i n (Suc k) rest"] add_jobs_append)
qed

lemma scrape_pages_Inr:
  assumes "scrape_pages site i k js = Inr js'"
    and "list_all (\<lambda>(no, job). \<not> missing (sal_wrap job)) (listed site i k)"
  shows "js' = add_jobs (complete_jobs (listed site i k)) js"
  using assms
proof (induction k arbitrary: i js)
  case 0
  then show ?case by (simp add: complete_jobs_def)
next
  case (Suc k)
  from Suc.prems(1) obtain lst js1 where
    s0: "site i = Inr lst" and
    s1: "scrape_list i (length lst) 0 lst js = Inr js1" and
    s2: "scrape_pages site (Suc i) k js1 = Inr js'"
    by (auto split: sum.splits)
  from Suc.prems(2) s0 have
    m: "list_all (\<lambda>(no, job). \<not> missing (sal_wrap job)) (numbered i (length lst) 0 lst)" and
    r: "list_all (\<lambda>(no, job). \<not> missing (sal_wrap job)) (listed site (Suc i) k)"
    by simp_all
  from scrape_list_Inr [OF s1 m] Suc.IH [OF s2 r] s0 show ?case
    by (simp add: complete_jobs_append add_jobs_append)
qed

lemma scrape_list_tame:
  "list_all (\<lambda>(no, job). tame job) (numbered i n k lst) \<Longrightarrow>
   \<exists>js'. scrape_list i n k lst js = Inr js'"
proof (induction lst arbitrary: k js)
  case Nil
  then show ?case by simp
next
  case (Cons job rest)
  from Cons.prems have t: "tame job"
    and r: "list_all (\<lambda>(no, job). tame job) (numbered i n (Suc k) rest)" by simp_all
  from scrape_job_tame [OF t] obtain js1 where "scrape_job i n k job js = Inr js1" by blast
  with Cons.IH [OF r, of js1] show ?case by simp
qed

lemma scrape_pages_tame:
  "pages_load site i k \<Longrightarrow> list_all (\<lambda>(no, job). tame job) (listed site i k) \<Longrightarrow>
   \<exists>js'. scrape_pages site i k js = Inr js'"
proof (induction k arbitrary: i js)
  case 0
  then show ?case by simp
next
  case (Suc k)
  from Suc.prems(1) obtain lst where s0: "site i = Inr lst" and p: "pages_load site (Suc i) k"
    by (cases "site i") (auto simp: found_def)
  from Suc.prems(2) s0 have
    t: "list_all (\<lambda>(no, job). tame job) (numbered i (length lst) 0 lst)" and
    r: "list_all (\<lambda>(no, job). tame job) (listed site (Suc i) k)" by simp_all
  from scrape_list_tame [OF t] obtain js1 where "scrape_list i (length lst) 0 lst js = Inr js1"
    by blast
  with Suc.IH [OF p r, of js1] s0 show ?case by simp
qed

lemma all_lengths_add_jobs:
  "all_lengths js m \<Longrightarrow> all_lengths (add_jobs njs js) (m + length njs)"
  by (simp add: all_lengths_def add_jobs_def)

lemma all_lengths_append_job:
  "all_lengths js n \<Longrightarrow> all_lengths (append_job a b c d e f g js) (Suc n)"
  by (simp add: all_lengths_def append_job_def)

lemma scrape_job_lengths:
  assumes "scrape_job i n k job js = Inr js'" and "all_lengths js m"
  shows "\<exists>m'. all_lengths js' m'"
  using assms
  by (auto simp: scrape_job_def skip_job_def Let_def
      split: sum.splits if_splits intro: all_lengths_append_job)

lemma scrape_list_lengths:
  "scrape_list i n k lst js = Inr js' \<Longrightarrow> all_lengths js m \<Longrightarrow> \<exists>m'. all_lengths js' m'"
proof (induction lst arbitrary: k js m)
  case Nil
  then show ?case by auto
next
  case (Cons job rest)
  from Cons.prems(1) obtain js1 where
    s1: "scrape_job i n k job js = Inr js1" and
    s2: "scrape_list i n (Suc k) rest js1 = Inr js'"
    by (auto split: sum.splits)
  from scrape_job_lengths [OF s1 Cons.prems(2)] obtain m1 where "all_lengths js1 m1" ..
  with Cons.IH [OF s2] show ?case .
qed

lemma scrape_pages_lengths:
  "scrape_pages site i k js = Inr js' \<Longrightarrow> all_lengths js m \<Longrightarrow> \<exists>m'. all_lengths js' m'"
proof (induction k arbitrary: i js m)
  case 0
  then show ?case by auto
next
  case (Suc k)
  from Suc.prems(1) obtain lst js1 where
    s0: "site i = Inr lst" and
    s1: "scrape_list i (length lst) 0 lst js = Inr js1" and
    s2: "scrape_pages site (Suc i) k js1 = Inr js'"
    by (auto split: sum.splits)
  from scrape_list_lengths [OF s1 Suc.prems(2)] obtain m1 where "all_lengths js1 m1" ..
  with Suc.IH [OF s2] show ?case .
qed

lemma all_lengths_empty_jobs: "all_lengths empty_jobs 0"
  by (simp add: all_lengths_def empty_jobs_def)

text \<open>
  Claim C8. Whenever \<open>scrape_naukri_jobs\<close> returns its dictionary, the seven lists
  have the same length. The returned dictionary holds, in the order of the pages and of
  the job tuples on them, exactly one entry in every list for each job tuple that has its
  role, company, location and experience, and no entry for any other job tuple: the job
  number, the four texts, the first salary text or \<open>NA\<close> when there is none, and the
  comma-joined skill tags or \<open>NA\<close> when the tag list is absent. (The \<open>sal-wrap\<close> lookup
  is \<open>find_elements\<close>, which gives the empty list where nothing is found; were it to raise
  \<open>NoSuchElementException\<close>, the handler of the loop body would skip the job.) The
  function does return when every page loads and every lookup answers. For the loop body
  alone: a job tuple for which one of the four essential lookups raises
  \<open>NoSuchElementException\<close> leaves all seven lists as they were, and a job tuple with the
  four present appends exactly one entry to each list.
\<close>

theorem scrape_naukri_jobs_equal_lengths:
  "(scrape_naukri_jobs site n_pages = Inr js \<longrightarrow> (\<exists>n. all_lengths js n)) \<and>
   (scrape_naukri_jobs site n_pages = Inr js \<and>
    list_all (\<lambda>(no, job). \<not> missing (sal_wrap job)) (listed site 0 n_pages) \<longrightarrow>
      all_lengths js (length (complete_jobs (listed site 0 n_pages))) \<and>
      job_no js = map (\<lambda>(no, job). no) (complete_jobs (listed site 0 n_pages)) \<and>
      roles js = map (\<lambda>(no, job). the_text (title job)) (complete_jobs (listed site 0 n_pages)) \<and>
      companies js =
        map (\<lambda>(no, job). the_text (comp_name job)) (complete_jobs (listed site 0 n_pages)) \<and>
      locations js =
        map (\<lambda>(no, job). the_text (loc_wrap job)) (complete_jobs (listed site 0 n_pages)) \<and>
      experience js =
        map (\<lambda>(no, job). the_text (exp_wrap job)) (complete_jobs (listed site 0 n_pages)) \<and>
      salaries js =
        map (\<lambda>(no, job). case sal_wrap job of Inr (s # _) \<Rightarrow> s | _ \<Rightarrow> ''NA'')
          (complete_jobs (listed site 0 n_pages)) \<and>
      skills js =
        map (\<lambda>(no, job). case tags_gt job of Inl _ \<Rightarrow> ''NA'' | Inr tags \<Rightarrow> join '','' tags)
          (complete_jobs (listed site 0 n_pages))) \<and>
   (pages_load site 0 n_pages \<and> list_all (\<lambda>(no, job). tame job) (listed site 0 n_pages) \<longrightarrow>
      (\<exists>js'. scrape_naukri_jobs site n_pages = Inr js')) \<and>
   (essential_missing job \<longrightarrow> scrape_job i len_lst index job js0 = Inr js0) \<and>
   (essentials_found job \<and> found (sal_wrap job) \<and>
    (found (tags_gt job) \<or> missing (tags_gt job)) \<longrightarrow>
      (\<exists>js1 role company location exp'.
         scrape_job i len_lst index job js0 = Inr js1 \<and>
         title job = Inr role \<and> comp_name job = Inr company \<and>
         loc_wrap job = Inr location \<and> exp_wrap job = Inr exp' \<and>
         job_no js1 = job_no js0 @ [int (i * len_lst + index + 1)] \<and>
         roles js1 = roles js0 @ [role] \<and>
         companies js1 = companies js0 @ [company] \<and>
         locations js1 = locations js0 @ [location] \<and>
         experience js1 = experience js0 @ [exp'] \<and>
         salaries js1 =
           salaries js0 @ [case sal_wrap job of Inr (s # _) \<Rightarrow> s | _ \<Rightarrow> ''NA''] \<and>
         skills js1 = skills js0 @
           [case tags_gt job of Inl _ \<Rightarrow> ''NA'' | Inr tags \<Rightarrow> join '','' tags]))"
proof (intro conjI impI)
  assume "scrape_naukri_jobs site n_pages = Inr js"
  then show "\<exists>n. all_lengths js n"
    unfolding scrape_naukri_jobs_def
    by (rule scrape_pages_lengths) (rule all_lengths_empty_jobs)
next
  assume a: "scrape_naukri_jobs site n_pages = Inr js \<and>
    list_all (\<lambda>(no, job). \<not> missing (sal_wrap job)) (listed site 0 n_pages)"
  then have js: "js = add_jobs (complete_jobs (listed site 0 n_pages)) empty_jobs"
    unfolding scrape_naukri_jobs_def using scrape_pages_Inr by blast
  show "all_lengths js (length (complete_jobs (listed site 0 n_pages)))"
    unfolding js using all_lengths_add_jobs [OF all_lengths_empty_jobs] by simp
  show "job_no js = map (\<lambda>(no, job). no) (complete_jobs (listed site 0 n_pages))"
    unfolding js by (simp add: add_jobs_def empty_jobs_def)
  show "roles js = map (\<lambda>(no, job). the_text (title job)) (complete_jobs (listed site 0 n_pages))"
    unfolding js by (simp add: add_jobs_def empty_jobs_def)
  show "companies js =
        map (\<lambda>(no, job). the_text (comp_name job)) (complete_jobs (listed site 0 n_pages))"
    unfolding js by (simp add: add_jobs_def empty_jobs_def)
  show "locations js =
        map (\<lambda>(no, job). the_text (loc_wrap job)) (complete_jobs (listed site 0 n_pages))"
    unfolding js by (simp add: add_jobs_def empty_jobs_def)
  show "experience js =
        map (\<lambda>(no, job). the_text (exp_wrap job)) (complete_jobs (listed site 0 n_pages))"
    unfolding js by (simp add: add_jobs_def empty_jobs_def)
  show "salaries js =
        map (\<lambda>(no, job). case sal_wrap job of Inr (s # _) \<Rightarrow> s | _ \<Rightarrow> ''NA'')
          (complete_jobs (listed site 0 n_pages))"
    unfolding js by (simp add: add_jobs_def empty_jobs_def recorded_salary_def [abs_def])
  show "skills js =
        map (\<lambda>(no, job). case tags_gt job of Inl _ \<Rightarrow> ''NA'' | Inr tags \<Rightarrow> join '','' tags)
          (complete_jobs (listed site 0 n_pages))"
    unfolding js by (simp add: add_jobs_def empty_jobs_def recorded_skill_def [abs_def])
next
  assume "pages_load site 0 n_pages \<and> list_all (\<lambda>(no, job). tame job) (listed site 0 n_pages)"
  then show "\<exists>js'. scrape_naukri_jobs site n_pages = Inr js'"
    unfolding scrape_naukri_jobs_def using scrape_pages_tame by blast
next
  assume "essential_missing job"
  then show "scrape_job i len_lst index job js0 = Inr js0"
    by (rule scrape_job_missing)
next
  assume a: "essentials_found job \<and> found (sal_wrap job) \<and>
    (found (tags_gt job) \<or> missing (tags_gt job))"
  then obtain role company location exp' where t:
    "title job = Inr role" "comp_name job = Inr company"
    "loc_wrap job = Inr location" "exp_wrap job = Inr exp'"
    by (auto simp: essentials_found_def found_def split: sum.splits)
  from a have "scrape_job i len_lst index job js0 =
      Inr (add_jobs [(int (i * len_lst + index + 1), job)] js0)"
    using scrape_job_found [of job i len_lst index js0] by blast
  with t show "\<exists>js1 role company location exp'.
         scrape_job i len_lst index job js0 = Inr js1 \<and>
         title job = Inr role \<and> comp_name job = Inr company \<and>
         loc_wrap job = Inr location \<and> exp_wrap job = Inr exp' \<and>
         job_no js1 = job_no js0 @ [int (i * len_lst + index + 1)] \<and>
         roles js1 = roles js0 @ [role] \<and>
         companies js1 = companies js0 @ [company] \<and>
         locations js1 = locations js0 @ [location] \<and>
         experience js1 = experience js0 @ [exp'] \<and>
         salaries js1 =
           salaries js0 @ [case sal_wrap job of Inr (s # _) \<Rightarrow> s | _ \<Rightarrow> ''NA''] \<and>
         skills js1 = skills js0 @
           [case tags_gt job of Inl _ \<Rightarrow> ''NA'' | Inr tags \<Rightarrow> join '','' tags]"
    by (simp add: add_jobs_def the_text_def recorded_salary_def recorded_skill_def)
qed

theorem scrape_naukri_jobs_equal_lengths_witness:
  "scrape_naukri_jobs three_site 2 = Inr three_site_jobs \<and>
   list_all (\<lambda>(no, job). \<not> missing (sal_wrap job)) (listed three_site 0 2) \<and>
   pages_load three_site 0 2 \<and> list_all (\<lambda>(no, job). tame job) (listed three_site 0 2) \<and>
   all_lengths three_site_jobs 4 \<and>
   map (\<lambda>(no, job). no) (complete_jobs (listed three_site 0 2)) = [2, 3, 5, 6] \<and>
   salaries three_site_jobs =
     map (\<lambda>(no, job). case sal_wrap job of Inr (s # _) \<Rightarrow> s | _ \<Rightarrow> ''NA'')
       (complete_jobs (listed three_site 0 2)) \<and>
   essential_missing job_partial \<and>
   scrape_job 1 3 0 job_partial three_site_jobs = Inr three_site_jobs \<and>
   essentials_found job_third \<and> found (sal_wrap job_third) \<and> found (tags_gt job_third) \<and>
   scrape_job 0 3 2 job_third empty_jobs =
     Inr \<lparr>job_no = [3], roles = [''Tester''], companies = [''Globex''], locations = [''Pune''],
          experience = [''0-1 Yrs''], salaries = [''6-9 Lacs PA''], skills = [''java,sql'']\<rparr>"
proof -
  have run: "scrape_naukri_jobs three_site 2 = Inr three_site_jobs"
    by code_simp
  have sal: "list_all (\<lambda>(no, job). \<not> missing (sal_wrap job)) (listed three_site 0 2)"
    by code_simp
  have load: "pages_load three_site 0 2"
    by code_simp
  have tm: "list_all (\<lambda>(no, job). tame job) (listed three_site 0 2)"
    by code_simp
  have nos: "map (\<lambda>(no, job). no) (complete_jobs (listed three_site 0 2)) = [2, 3, 5, 6]"
    by code_simp
  have len: "length (complete_jobs (listed three_site 0 2)) = 4"
    using arg_cong [OF nos, of length] by simp
  have mis: "essential_missing job_partial"
    by (simp add: essential_missing_def missing_def found_def job_partial_def)
  have ful: "essentials_found job_third \<and> found (sal_wrap job_third) \<and>
      (found (tags_gt job_third) \<or> missing (tags_gt job_third))"
    by (simp add: essentials_found_def missing_def found_def job_third_def)
  have step: "scrape_job 0 3 2 job_third empty_jobs =
     Inr \<lparr>job_no = [3], roles = [''Tester''], companies = [''Globex''], locations = [''Pune''],
          experience = [''0-1 Yrs''], salaries = [''6-9 Lacs PA''], skills = [''java,sql'']\<rparr>"
    by code_simp
  from run sal scrape_naukri_jobs_equal_lengths [of three_site 2 three_site_jobs job_partial 1 3 0 three_site_jobs]
  have a: "all_lengths three_site_jobs (length (complete_jobs (listed three_site 0 2))) \<and>
      salaries three_site_jobs =
        map (\<lambda>(no, job). case sal_wrap job of Inr (s # _) \<Rightarrow> s | _ \<Rightarrow> ''NA'')
          (complete_jobs (listed three_site 0 2))"
    by blast
  from mis scrape_naukri_jobs_equal_lengths [of three_site 2 three_site_jobs job_partial 1 3 0 three_site_jobs]
  have b: "scrape_job 1 3 0 job_partial three_site_jobs = Inr three_site_jobs" by blast
  from ful have f: "essentials_found job_third" "found (sal_wrap job_third)" "found (tags_gt job_third)"
    by (simp_all add: found_def job_third_def)
  from run sal load tm a [unfolded len] nos mis b f step show ?thesis by simp
qed

section \<open>Properties of the substitutions\<close>

lemma re_match_suffix: "re_match pat prev s = Some r \<Longrightarrow> suffix r s"
proof (induction pat prev s arbitrary: r rule: re_match.induct)
  case (5 a pat prev c s)
  then show ?case
    by (auto split: if_splits option.splits intro: suffix_ConsI)
qed (auto split: if_splits intro: suffix_ConsI)

lemma re_match_length: "re_match pat prev s = Some r \<Longrightarrow> length r \<le> length s"
  by (drule re_match_suffix) (rule suffix_length_le)

lemma re_sub_from_deletes:
  "set (re_sub_from pat [] prev s) \<subseteq> set s"
proof (induction pat "[] :: string" prev s rule: re_sub_from.induct)
  case (1 pat prev)
  then show ?case by (simp split: option.splits)
next
  case (2 pat prev c s)
  show ?case
  proof (cases "re_match pat prev (c # s)")
    case None
    with 2 show ?thesis by auto
  next
    case (Some r)
    from re_match_suffix [OF Some] have "set r \<subseteq> set (c # s)"
      by (rule set_mono_suffix)
    with Some 2 show ?thesis by (auto split: if_splits)
  qed
qed

lemma re_match_many_space:
  "re_match [Many Space] prev s = Some (dropWhile is_space s)"
  by (induction s arbitrary: prev) auto

lemma filter_dropWhile_not: "filter (\<lambda>c. \<not> P c) (dropWhile P s) = filter (\<lambda>c. \<not> P c) s"
  by (induction s) auto

lemma re_sub_from_many_space:
  "re_sub_from [Many Space] [] prev s = filter (\<lambda>c. \<not> is_space c) s"
proof (induction "[Many Space]" "[] :: string" prev s rule: re_sub_from.induct)
  case (1 prev)
  then show ?case by (simp add: re_match_many_space)
next
  case (2 prev c s)
  show ?case
  proof (cases "is_space c")
    case True
    have len: "length (dropWhile is_space s) < length (c # s)"
      using length_dropWhile_le [of is_space s] by simp
    have m: "re_match [Many Space] prev (c # s) = Some (dropWhile is_space (c # s))"
      by (rule re_match_many_space)
    from True len 2 m show ?thesis
      by (simp add: filter_dropWhile_not)
  next
    case False
    have m: "re_match [Many Space] prev (c # s) = Some (dropWhile is_space (c # s))"
      by (rule re_match_many_space)
    from False 2 m show ?thesis
      by simp
  qed
qed

lemma set_strip: "set (strip s) \<subseteq> set s"
proof
  fix x assume "x \<in> set (strip s)"
  then have "x \<in> set (dropWhile is_space (rev (dropWhile is_space s)))"
    by (simp add: strip_def)
  then have "x \<in> set (dropWhile is_space s)"
    by (auto dest: set_dropWhileD)
  then show "x \<in> set s" by (rule set_dropWhileD)
qed

lemma fold_last:
  "fold f (xs @ [x]) s = f x (fold f xs s)"
  by simp

text \<open>
  Claim C9. For every input string the result of \<open>replace_location_patterns\<close>
  contains no whitespace character: substituting the pattern \<open>\s*\<close> by the empty string
  deletes every whitespace character, and the later steps only delete. So the words of a
  location name are concatenated: \<open>navi mumbai\<close> becomes \<open>navimumbai\<close>.
\<close>

theorem replace_location_patterns_no_whitespace:
  "filter is_space (replace_location_patterns s) = [] \<and>
   re_sub [Many Space] [] s = filter (\<lambda>c. \<not> is_space c) s \<and>
   replace_location_patterns ''navi mumbai'' = ''navimumbai''"
proof (intro conjI)
  define t where "t = fold (\<lambda>pattern loc. re_sub pattern [] loc) (take 3 location_patterns) s"
  define u where "u = re_sub [Many Space] [] t"
  define v where "v = re_sub [One (Lit CHR ''/''), Many Dot, End_of_string] [] u"
  have r: "replace_location_patterns s = strip v"
    by (simp add: replace_location_patterns_def location_patterns_def t_def u_def v_def)
  have "set u \<subseteq> {c. \<not> is_space c}"
    by (auto simp: u_def re_sub_def re_sub_from_many_space)
  moreover have "set v \<subseteq> set u"
    unfolding v_def re_sub_def by (rule re_sub_from_deletes)
  moreover have "set (strip v) \<subseteq> set v" by (rule set_strip)
  ultimately have "set (replace_location_patterns s) \<subseteq> {c. \<not> is_space c}"
    unfolding r by blast
  then show "filter is_space (replace_location_patterns s) = []"
    by (auto simp: filter_empty_conv)
  show "re_sub [Many Space] [] s = filter (\<lambda>c. \<not> is_space c) s"
    by (simp add: re_sub_def re_sub_from_many_space)
  show "replace_location_patterns ''navi mumbai'' = ''navimumbai''"
    by (simp add: replace_location_patterns_def location_patterns_def re_sub_def lits_def
        strip_def is_space_def is_word_def at_boundary_def)
qed

lemma re_match_word_tail:
  "is_word p \<Longrightarrow> re_match [Many Word, Word_boundary] (Some p) s = Some (dropWhile is_word s)"
  by (induction s arbitrary: p) (auto simp: at_boundary_def)

lemma re_match_lits:
  "re_match (lits key @ pat) prev s =
     (if prefix key s
      then re_match pat (if key = [] then prev else Some (last key)) (drop (length key) s)
      else None)"
proof (induction key arbitrary: prev s)
  case Nil
  then show ?case by (simp add: lits_def)
next
  case (Cons k key)
  show ?case
  proof (cases s)
    case Nil
    then show ?thesis by (simp add: lits_def)
  next
    case (Cons c s')
    with Cons.IH [of "Some k" s'] show ?thesis
      by (auto simp: lits_def)
  qed
qed

lemma dropWhile_drop_prefix:
  assumes "prefix key s" and "\<forall>c \<in> set key. P c"
  shows "dropWhile P (drop (length key) s) = dropWhile P s"
proof -
  from assms(1) obtain t where "s = key @ t" by (auto simp: prefix_def)
  with assms(2) show ?thesis by (simp add: dropWhile_append3 dropWhile_append)
qed

lemma re_match_key_tail:
  assumes "key \<noteq> []" and "\<forall>c \<in> set key. is_word c"
  shows "re_match (lits key @ [Many Word, Word_boundary]) prev s =
           (if prefix key s then Some (dropWhile is_word s) else None)"
proof -
  from assms have "is_word (last key)" by simp
  with assms show ?thesis
    by (simp add: re_match_lits re_match_word_tail dropWhile_drop_prefix)
qed

lemma prefix_takeWhile_iff:
  assumes "\<forall>c \<in> set key. P c"
  shows "prefix key (takeWhile P s) \<longleftrightarrow> prefix key s"
proof
  assume "prefix key (takeWhile P s)"
  then show "prefix key s"
    using takeWhile_is_prefix [of P s] by (rule prefix_order.trans)
next
  assume "prefix key s"
  then obtain t where "s = key @ t" by (auto simp: prefix_def)
  with assms show "prefix key (takeWhile P s)" by (simp add: takeWhile_append2)
qed

lemma re_match_star_key_tail:
  assumes "key \<noteq> []" and "\<forall>c \<in> set key. is_word c"
  shows "re_match (Many Word # lits key @ [Many Word, Word_boundary]) prev s =
           (if sublist key (takeWhile is_word s) then Some (dropWhile is_word s) else None)"
proof (induction s arbitrary: prev)
  case Nil
  with assms show ?case by (simp add: re_match_key_tail)
next
  case (Cons c s)
  show ?case
  proof (cases "is_word c")
    case True
    have p: "prefix key (c # takeWhile is_word s) \<longleftrightarrow> prefix key (c # s)"
      using prefix_takeWhile_iff [OF assms(2), of "c # s"] True by simp
    from True show ?thesis
      by (simp add: Cons.IH re_match_key_tail [OF assms] sublist_Cons_right p)
  next
    case False
    with assms have "\<not> prefix key (c # s)"
      by (cases key) auto
    with False show ?thesis
      using assms(1) by (simp add: re_match_key_tail [OF assms])
  qed
qed

lemma re_match_common_pattern:
  assumes "key \<noteq> []" and "\<forall>c \<in> set key. is_word c"
  shows "re_match (common_pattern key) prev s =
           (if at_boundary prev s \<and> sublist key (takeWhile is_word s)
            then Some (dropWhile is_word s) else None)"
  by (simp add: common_pattern_def re_match_star_key_tail [OF assms])

lemma nth_last_takeWhile:
  assumes "P c"
  shows "P ((c # s) ! (length s - length (dropWhile P s)))"
proof -
  let ?t = "takeWhile P s"
  have len: "length s - length (dropWhile P s) = length ?t"
    by (metis length_append takeWhile_dropWhile_id add_diff_cancel_right')
  have "((c # ?t) @ dropWhile P s) ! length ?t = (c # ?t) ! length ?t"
    using nth_append [of "c # ?t" "dropWhile P s" "length ?t"] by (simp del: append_Cons)
  then have "(c # s) ! length ?t = (c # ?t) ! length ?t" by simp
  moreover have "(c # ?t) ! length ?t \<in> set (c # ?t)"
    by (rule nth_mem) simp
  moreover have "\<forall>x \<in> set (c # ?t). P x"
    using assms by (auto dest: set_takeWhileD)
  ultimately show ?thesis unfolding len by metis
qed

lemma re_sub_from_common_pattern:
  assumes "key \<noteq> []" and "\<forall>c \<in> set key. is_word c"
  shows "re_sub_from (common_pattern key) repl prev s =
           (if in_word prev
            then takeWhile is_word s @ words_map (word_rule key repl) (dropWhile is_word s)
            else words_map (word_rule key repl) s)"
proof (induction "common_pattern key" repl prev s rule: re_sub_from.induct)
  case (1 repl prev)
  then show ?case using assms(1) by (simp add: re_match_common_pattern [OF assms])
next
  case (2 repl prev c s)
  note m = re_match_common_pattern [OF assms]
  show ?case
  proof (cases "is_word c")
    case w: True
    show ?thesis
    proof (cases "in_word prev")
      case True
      then have nb: "\<not> at_boundary prev (c # s)"
        using w by (simp add: at_boundary_def in_word_def)
      then have none: "re_match (common_pattern key) prev (c # s) = None"
        by (simp add: m)
      from 2 none w True show ?thesis
        by (simp add: none in_word_def)
    next
      case False
      then have b: "at_boundary prev (c # s)"
        using w by (simp add: at_boundary_def in_word_def)
      show ?thesis
      proof (cases "sublist key (c # takeWhile is_word s)")
        case True
        let ?r = "dropWhile is_word s"
        have some: "re_match (common_pattern key) prev (c # s) = Some ?r"
          using b w True by (simp add: m)
        have len: "length ?r < length (c # s)"
          using length_dropWhile_le [of is_word s] by simp
        have iw: "in_word (Some ((c # s) ! (length s - length ?r)))"
          using nth_last_takeWhile [of is_word c s] w by (simp add: in_word_def)
        have tw: "takeWhile is_word ?r = []"
          by (metis dropWhile_eq_Cons_conv list.exhaust takeWhile.simps(1) takeWhile.simps(2))
        have dw: "dropWhile is_word ?r = ?r"
          by (simp add: dropWhile_idem)
        from 2 some len iw w \<open>\<not> in_word prev\<close> True show ?thesis
          by (simp add: some tw dw word_rule_def)
      next
        case nosub: False
        have none: "re_match (common_pattern key) prev (c # s) = None"
          using nosub w by (simp add: m)
        from 2 none w False nosub show ?thesis
          by (simp add: none in_word_def word_rule_def)
      qed
    qed
  next
    case nw: False
    have none: "re_match (common_pattern key) prev (c # s) = None"
      using nw assms(1) by (simp add: m)
    from 2 none nw show ?thesis
      by (simp add: none in_word_def)
  qed
qed

lemma re_sub_common_pattern:
  assumes "key \<noteq> []" and "\<forall>c \<in> set key. is_word c"
  shows "re_sub (common_pattern key) repl s = words_map (word_rule key repl) s"
  by (simp add: re_sub_def re_sub_from_common_pattern [OF assms] in_word_def)

lemma takeWhile_stop: "t = [] \<or> \<not> P (hd t) \<Longrightarrow> takeWhile P t = []"
  by (cases t) auto

lemma dropWhile_stop_id: "t = [] \<or> \<not> P (hd t) \<Longrightarrow> dropWhile P t = t"
  by (cases t) auto

lemma takeWhile_append_stop:
  "t = [] \<or> \<not> P (hd t) \<Longrightarrow> takeWhile P (a @ t) = takeWhile P a"
  by (induction a) (simp_all add: takeWhile_stop)

lemma dropWhile_append_stop:
  "t = [] \<or> \<not> P (hd t) \<Longrightarrow> dropWhile P (a @ t) = dropWhile P a @ t"
  by (induction a) (simp_all add: dropWhile_stop_id)

lemma words_map_append:
  "t = [] \<or> \<not> is_word (hd t) \<Longrightarrow> words_map f (a @ t) = words_map f a @ words_map f t"
proof (induction f a rule: words_map.induct)
  case (1 f)
  then show ?case by simp
next
  case (2 f c s)
  then show ?case
    by (simp add: takeWhile_append_stop dropWhile_append_stop)
qed

lemma words_map_one_word:
  assumes "is_a_word w"
  shows "words_map f w = f w"
proof -
  from assms obtain c w' where w: "w = c # w'" and c: "is_word c" and w': "\<forall>x \<in> set w'. is_word x"
    by (cases w) (auto simp: is_a_word_def list_all_iff)
  from w' have t: "takeWhile is_word w' = w'" and d: "dropWhile is_word w' = []"
    by (simp_all add: takeWhile_eq_all_conv)
  show ?thesis unfolding w using c by (simp add: t d del: takeWhile_eq_all_conv dropWhile_eq_Nil_conv)
qed

lemma words_map_word_append:
  assumes "is_a_word w" and "t = [] \<or> \<not> is_word (hd t)"
  shows "words_map f (w @ t) = f w @ words_map f t"
  using words_map_append [OF assms(2)] words_map_one_word [OF assms(1)] by simp

lemma words_map_stop:
  "s = [] \<or> \<not> is_word (hd s) \<Longrightarrow> words_map f s = [] \<or> \<not> is_word (hd (words_map f s))"
  by (cases s) auto

lemma dropWhile_stop: "dropWhile P s = [] \<or> \<not> P (hd (dropWhile P s))"
  using hd_dropWhile [of P s] by blast

lemma is_a_word_run: "is_word c \<Longrightarrow> is_a_word (c # takeWhile is_word s)"
  by (auto simp: is_a_word_def list_all_iff dest: set_takeWhileD)

lemma words_map_comp:
  assumes "\<And>w. is_a_word w \<Longrightarrow> is_a_word (g w)"
  shows "words_map f (words_map g s) = words_map (\<lambda>w. f (g w)) s"
  using assms
proof (induction g s rule: words_map.induct)
  case (1 g)
  then show ?case by simp
next
  case (2 g c s)
  show ?case
  proof (cases "is_word c")
    case True
    let ?w = "c # takeWhile is_word s"
    let ?d = "dropWhile is_word s"
    have gw: "is_a_word (g ?w)" by (rule 2(3)) (rule is_a_word_run [OF True])
    have stop: "words_map g ?d = [] \<or> \<not> is_word (hd (words_map g ?d))"
      by (rule words_map_stop) (rule dropWhile_stop)
    have "words_map f (g ?w @ words_map g ?d) = f (g ?w) @ words_map f (words_map g ?d)"
      by (rule words_map_word_append [OF gw stop])
    with True 2(1) [OF True 2(3)] show ?thesis by simp
  next
    case False
    with 2(2) [OF False 2(3)] show ?thesis by simp
  qed
qed

lemma is_word_not_space: "is_word c \<Longrightarrow> \<not> is_space c"
  unfolding is_word_def is_space_def Let_def by arith

lemma is_a_word_literals:
  "is_a_word ''mumbai''" "is_a_word ''delhi''" "is_a_word ''bengaluru''" "is_a_word ''noida''"
  "is_a_word ''bangal''"
  by (simp_all add: is_a_word_def is_word_def)

lemma common_word_fixed:
  "common_word ''mumbai'' = ''mumbai''"
  "common_word ''delhi'' = ''delhi''"
  "common_word ''bengaluru'' = ''bengaluru''"
  "common_word ''noida'' = ''noida''"
  by (simp_all add: common_word_def word_rule_def sublist_Cons_right)

lemma common_word_cases:
  "common_word w = ''mumbai'' \<or> common_word w = ''delhi'' \<or> common_word w = ''bengaluru'' \<or>
   common_word w = ''noida'' \<or>
   (common_word w = w \<and> \<not> sublist ''mumbai'' w \<and> \<not> sublist ''delhi'' w \<and>
    \<not> sublist ''bangal'' w \<and> \<not> sublist ''noida'' w)"
proof (cases "sublist ''mumbai'' w")
  case True
  then have "common_word w = common_word ''mumbai''"
    by (simp add: common_word_def word_rule_def)
  then show ?thesis by (simp add: common_word_fixed)
next
  case m: False
  show ?thesis
  proof (cases "sublist ''delhi'' w")
    case True
    with m have "common_word w = common_word ''delhi''"
      by (simp add: common_word_def word_rule_def sublist_Cons_right)
    then show ?thesis by (simp add: common_word_fixed)
  next
    case d: False
    show ?thesis
    proof (cases "sublist ''bangal'' w")
      case True
      with m d have "common_word w = common_word ''bengaluru''"
        by (simp add: common_word_def word_rule_def sublist_Cons_right)
      then show ?thesis by (simp add: common_word_fixed)
    next
      case b: False
      show ?thesis
      proof (cases "sublist ''noida'' w")
        case True
        with m d b have "common_word w = common_word ''noida''"
          by (simp add: common_word_def word_rule_def sublist_Cons_right)
        then show ?thesis by (simp add: common_word_fixed)
      next
        case False
        with m d b show ?thesis
          by (simp add: common_word_def word_rule_def)
      qed
    qed
  qed
qed

lemma common_word_idem: "common_word (common_word w) = common_word w"
  using common_word_cases [of w]
  by (elim disjE conjE) (simp_all add: common_word_fixed)

lemma is_a_word_not_space: "is_a_word w \<Longrightarrow> w \<noteq> [] \<and> \<not> is_space (hd w) \<and> \<not> is_space (last w)"
  by (cases w) (auto simp: is_a_word_def list_all_iff is_word_not_space)

lemma is_a_word_word_rule:
  "is_a_word repl \<Longrightarrow> is_a_word w \<Longrightarrow> is_a_word (word_rule key repl w)"
  by (simp add: word_rule_def)

lemma is_a_word_common_word: "is_a_word w \<Longrightarrow> is_a_word (common_word w)"
  by (simp add: common_word_def is_a_word_word_rule is_a_word_literals)

lemma key_ok: "is_a_word key \<Longrightarrow> key \<noteq> [] \<and> (\<forall>c \<in> set key. is_word c)"
  by (simp add: is_a_word_def list_all_iff)

lemma re_sub_word_rule:
  "is_a_word key \<Longrightarrow> re_sub (common_pattern key) repl t = words_map (word_rule key repl) t"
  using re_sub_common_pattern key_ok by blast

lemma words_map_word_rule_comp:
  "is_a_word repl \<Longrightarrow>
   words_map f (words_map (word_rule key repl) t) = words_map (\<lambda>w. f (word_rule key repl w)) t"
  by (rule words_map_comp) (rule is_a_word_word_rule)

lemma fold_replacements:
  "fold (\<lambda>(pattern, replacement) loc. re_sub pattern replacement loc) replacements s =
     words_map common_word s"
proof -
  let ?m = "word_rule ''mumbai'' ''mumbai''"
  let ?d = "word_rule ''delhi'' ''delhi''"
  let ?b = "word_rule ''bangal'' ''bengaluru''"
  let ?n = "word_rule ''noida'' ''noida''"
  have "fold (\<lambda>(pattern, replacement) loc. re_sub pattern replacement loc) replacements s =
          words_map ?n (words_map ?b (words_map ?d (words_map ?m s)))"
    by (simp add: replacements_def re_sub_word_rule is_a_word_literals)
  also have "\<dots> = words_map ?n (words_map ?b (words_map (\<lambda>w. ?d (?m w)) s))"
    by (simp only: words_map_word_rule_comp [OF is_a_word_literals(1)])
  also have "\<dots> = words_map ?n (words_map (\<lambda>w. ?b (?d (?m w))) s)"
    by (rule arg_cong [where f = "words_map ?n"], rule words_map_comp)
      (intro is_a_word_word_rule is_a_word_literals)
  also have "\<dots> = words_map (\<lambda>w. ?n (?b (?d (?m w)))) s"
    by (rule words_map_comp) (intro is_a_word_word_rule is_a_word_literals)
  finally show ?thesis by (simp add: common_word_def [abs_def])
qed

lemma words_map_lstrip:
  assumes "\<And>w. is_a_word w \<Longrightarrow> is_a_word (f w)"
  shows "words_map f (dropWhile is_space s) = dropWhile is_space (words_map f s)"
proof (induction s)
  case Nil
  then show ?case by simp
next
  case (Cons c s)
  show ?case
  proof (cases "is_space c")
    case True
    then have "\<not> is_word c" using is_word_not_space by blast
    with True Cons show ?thesis by simp
  next
    case False
    show ?thesis
    proof (cases "is_word c")
      case True
      let ?w = "f (c # takeWhile is_word s)"
      have "is_a_word ?w" by (rule assms) (rule is_a_word_run [OF True])
      then have "?w \<noteq> []" and "\<not> is_space (hd ?w)"
        using is_a_word_not_space by blast+
      then have "dropWhile is_space (?w @ words_map f (dropWhile is_word s)) =
                 ?w @ words_map f (dropWhile is_word s)"
        by (cases ?w) auto
      with True False show ?thesis by simp
    next
      case nw: False
      with False show ?thesis by simp
    qed
  qed
qed

lemma last_dropWhile:
  "dropWhile P s \<noteq> [] \<Longrightarrow> last (dropWhile P s) = last s"
  by (metis last_appendR takeWhile_dropWhile_id)

lemma words_map_last:
  assumes "\<And>w. is_a_word w \<Longrightarrow> is_a_word (f w)"
  shows "s \<noteq> [] \<Longrightarrow> \<not> is_space (last s) \<Longrightarrow>
         words_map f s \<noteq> [] \<and> \<not> is_space (last (words_map f s))"
  using assms
proof (induction f s rule: words_map.induct)
  case (1 f)
  then show ?case by simp
next
  case (2 g c s)
  show ?case
  proof (cases "is_word c")
    case True
    let ?w = "g (c # takeWhile is_word s)"
    let ?d = "dropWhile is_word s"
    have w: "is_a_word ?w" by (rule 2(5)) (rule is_a_word_run [OF True])
    then have wn: "?w \<noteq> []" and wl: "\<not> is_space (last ?w)"
      using is_a_word_not_space by blast+
    show ?thesis
    proof (cases "?d = []")
      case d: True
      with True wn wl show ?thesis by (simp del: dropWhile_eq_Nil_conv)
    next
      case d: False
      then have "s \<noteq> []" by auto
      with 2(4) have "\<not> is_space (last s)" by simp
      with d have "\<not> is_space (last ?d)" by (simp add: last_dropWhile)
      with 2(1) [OF True d _ 2(5)] have "words_map g ?d \<noteq> [] \<and> \<not> is_space (last (words_map g ?d))"
        by blast
      with True show ?thesis by simp
    qed
  next
    case False
    show ?thesis
    proof (cases "s = []")
      case True
      with False 2(4) show ?thesis by simp
    next
      case ne: False
      with 2(4) have "\<not> is_space (last s)" by simp
      with 2(2) [OF False ne _ 2(5)] have "words_map g s \<noteq> [] \<and> \<not> is_space (last (words_map g s))"
        by blast
      with False show ?thesis by simp
    qed
  qed
qed

lemma rstrip_decomp:
  "\<exists>tr. x = rev (dropWhile P (rev x)) @ tr \<and> (\<forall>c \<in> set tr. P c)"
proof -
  have "rev x = takeWhile P (rev x) @ dropWhile P (rev x)" by simp
  then have "x = rev (dropWhile P (rev x)) @ rev (takeWhile P (rev x))"
    by (metis rev_append rev_rev_ident)
  moreover have "\<forall>c \<in> set (rev (takeWhile P (rev x))). P c"
    by (auto dest: set_takeWhileD)
  ultimately show ?thesis by blast
qed

lemma rstrip_last:
  "rev (dropWhile P (rev x)) = [] \<or> \<not> P (last (rev (dropWhile P (rev x))))"
  using dropWhile_stop [of P "rev x"] by (auto simp: last_rev)

lemma rstrip_append_spaces:
  "\<forall>c \<in> set tr. P c \<Longrightarrow> rev (dropWhile P (rev (a @ tr))) = rev (dropWhile P (rev a))"
  using dropWhile_append2 [of "rev tr" P "rev a"] by simp

lemma rstrip_id:
  "a = [] \<or> \<not> P (last a) \<Longrightarrow> rev (dropWhile P (rev a)) = a"
  by (cases a rule: rev_cases) auto

lemma words_map_not_word:
  "\<forall>c \<in> set t. \<not> is_word c \<Longrightarrow> words_map f t = t"
  by (induction t) auto

lemma words_map_rstrip:
  assumes "\<And>w. is_a_word w \<Longrightarrow> is_a_word (f w)"
  shows "words_map f (rev (dropWhile is_space (rev x))) =
         rev (dropWhile is_space (rev (words_map f x)))"
proof -
  let ?a = "rev (dropWhile is_space (rev x))"
  obtain tr where x: "x = ?a @ tr" and tr: "\<forall>c \<in> set tr. is_space c"
    using rstrip_decomp [of x is_space] by blast
  from tr have nw: "\<forall>c \<in> set tr. \<not> is_word c"
    using is_word_not_space by blast
  then have stop: "tr = [] \<or> \<not> is_word (hd tr)" by (cases tr) auto
  have "words_map f (?a @ tr) = words_map f ?a @ tr"
    using words_map_append [OF stop] words_map_not_word [OF nw] by simp
  then have "rev (dropWhile is_space (rev (words_map f (?a @ tr)))) =
             rev (dropWhile is_space (rev (words_map f ?a)))"
    using rstrip_append_spaces [OF tr] by simp
  moreover have "words_map f ?a = [] \<or> \<not> is_space (last (words_map f ?a))"
  proof (cases "?a = []")
    case True
    then have "words_map f ?a = []" by (simp only: words_map.simps)
    then show ?thesis ..
  next
    case False
    with rstrip_last [of is_space x] have "\<not> is_space (last ?a)" by blast
    with words_map_last [of f ?a, OF assms False] show ?thesis by blast
  qed
  ultimately have "rev (dropWhile is_space (rev (words_map f (?a @ tr)))) = words_map f ?a"
    using rstrip_id by metis
  with x show ?thesis by metis
qed

lemma words_map_strip:
  assumes "\<And>w. is_a_word w \<Longrightarrow> is_a_word (f w)"
  shows "words_map f (strip x) = strip (words_map f x)"
  unfolding strip_def
  by (simp only: words_map_rstrip [OF assms] words_map_lstrip [OF assms])

lemma strip_idem: "strip (strip x) = strip x"
proof -
  let ?z = "dropWhile is_space x"
  let ?y = "rev (dropWhile is_space (rev ?z))"
  obtain tr where z: "?z = ?y @ tr" using rstrip_decomp [of ?z is_space] by blast
  have "?y = [] \<or> \<not> is_space (hd ?y)"
  proof (cases "?y = []")
    case True
    then show ?thesis by blast
  next
    case False
    then have "hd ?y = hd ?z" using z by (metis hd_append2)
    moreover have "?z \<noteq> []" using False z by (metis append_is_Nil_conv)
    ultimately show ?thesis using dropWhile_stop [of is_space x] by metis
  qed
  then have "dropWhile is_space ?y = ?y" by (rule dropWhile_stop_id)
  moreover have "rev (dropWhile is_space (rev ?y)) = ?y"
    using rstrip_last [of is_space ?z] by (rule rstrip_id)
  ultimately show ?thesis by (simp add: strip_def)
qed

lemma replace_common_locations_words:
  "replace_common_locations s = strip (words_map common_word s)"
  by (simp add: replace_common_locations_def fold_replacements)

text \<open>
  Claim C10. \<open>replace_common_locations\<close> is idempotent: applying it to its own result
  changes nothing. Each of the four substitutions rewrites whole words, the replacement
  words \<open>mumbai\<close>, \<open>delhi\<close>, \<open>bengaluru\<close> and \<open>noida\<close> are left alone by all four, and
  \<open>strip\<close> removes only non-word characters at the two ends.
\<close>

theorem replace_common_locations_idempotent:
  "replace_common_locations (replace_common_locations s) = replace_common_locations s"
proof -
  let ?G = "words_map common_word"
  have "?G (strip (?G s)) = strip (?G (?G s))"
    by (rule words_map_strip) (rule is_a_word_common_word)
  also have "?G (?G s) = words_map (\<lambda>w. common_word (common_word w)) s"
    by (rule words_map_comp) (rule is_a_word_common_word)
  also have "\<dots> = ?G s"
    by (simp add: common_word_idem)
  finally have "strip (?G (strip (?G s))) = strip (strip (?G s))" by simp
  then show ?thesis
    by (simp add: replace_common_locations_words strip_idem)
qed

section \<open>Properties of the cleaning\<close>

lemma split_on_not_Nil: "split_on sep s \<noteq> []"
  by (induction s) (auto split: list.splits)

lemma join_Cons: "ps \<noteq> [] \<Longrightarrow> join sep (p # ps) = p @ sep @ join sep ps"
  by (cases ps) auto

lemma join_split_on: "join [sep] (split_on sep s) = s"
proof (induction s)
  case Nil
  then show ?case by simp
next
  case (Cons c s)
  obtain p ps where sp: "split_on sep s = p # ps"
    using split_on_not_Nil [of sep s] by (cases "split_on sep s") auto
  show ?case
  proof (cases "c = sep")
    case True
    with Cons show ?thesis by (simp add: join_Cons split_on_not_Nil)
  next
    case False
    with Cons sp show ?thesis by (cases ps) auto
  qed
qed

lemma split_on_no_sep: "piece \<in> set (split_on sep s) \<Longrightarrow> sep \<notin> set piece"
  by (induction s arbitrary: piece) (auto split: if_splits list.splits)

lemma lower_digits_of: "lower (digits_of n) = digits_of n"
proof (induction n rule: digits_of.induct)
  case (1 n)
  have d: "\<And>k. k < 10 \<Longrightarrow> lower_char (char_of (48 + k)) = char_of (48 + k :: nat)"
    by (simp add: lower_char_def Let_def)
  show ?case
  proof (cases "n < 10")
    case True
    then show ?thesis by (subst (1 2) digits_of.simps) (simp add: lower_def d)
  next
    case False
    have "n mod 10 < 10" by simp
    with False 1 show ?thesis
      by (subst (1 2) digits_of.simps) (simp add: lower_def d del: digits_of.simps)
  qed
qed

lemma lower_str_int: "lower (str_int i) = str_int i"
  using lower_digits_of [unfolded lower_def]
  by (simp add: str_int_def lower_def lower_char_def)

lemma covered_iff:
  "covered old s j \<longleftrightarrow> (\<exists>i\<le>j. j < i + length old \<and> occurs_at old s i)"
proof -
  have "set [0..<Suc j] = {i. i \<le> j}" by auto
  then show ?thesis
    unfolding covered_def list_ex_iff by blast
qed

lemma occurs_at_0: "old \<noteq> [] \<Longrightarrow> occurs_at old s 0 \<longleftrightarrow> prefix old s"
  by (auto simp: occurs_at_def prefix_def) (metis append_take_drop_id)

lemma occurs_at_Suc: "occurs_at old (c # s) (Suc i) \<longleftrightarrow> occurs_at old s i"
  by (simp add: occurs_at_def)

lemma covered_Suc:
  assumes "old \<noteq> []" and "\<not> prefix old (c # s)"
  shows "covered old (c # s) (Suc j) \<longleftrightarrow> covered old s j"
proof
  assume "covered old (c # s) (Suc j)"
  then obtain i where i: "i \<le> Suc j" "Suc j < i + length old" "occurs_at old (c # s) i"
    by (auto simp: covered_iff)
  with assms have "i \<noteq> 0" using occurs_at_0 [of old "c # s"] by (cases i) auto
  then obtain i' where "i = Suc i'" by (cases i) auto
  with i show "covered old s j"
    by (auto simp: covered_iff occurs_at_Suc)
next
  assume "covered old s j"
  then obtain i where "i \<le> j" "j < i + length old" "occurs_at old s i"
    by (auto simp: covered_iff)
  then have "Suc i \<le> Suc j \<and> Suc j < Suc i + length old \<and> occurs_at old (c # s) (Suc i)"
    by (simp add: occurs_at_Suc)
  then show "covered old (c # s) (Suc j)"
    unfolding covered_iff by blast
qed

lemma not_covered_0:
  assumes "old \<noteq> []" and "\<not> prefix old s"
  shows "\<not> covered old s 0"
  using assms by (simp add: covered_iff occurs_at_0)

lemma keep_Cons:
  "map ((!) (c # s)) (filter P [0..<Suc (length s)]) =
     (if P 0 then [c] else []) @ map ((!) s) (filter (\<lambda>j. P (Suc j)) [0..<length s])"
proof -
  have "[0..<Suc (length s)] = 0 # map Suc [0..<length s]"
    by (simp add: upt_conv_Cons map_Suc_upt del: upt_Suc)
  then show ?thesis
    by (simp add: filter_map comp_def del: upt_Suc)
qed

lemma keep_drop:
  assumes "\<And>j. j < n \<Longrightarrow> \<not> P j" and "n \<le> length s"
  shows "map ((!) s) (filter P [0..<length s]) =
         map ((!) (drop n s)) (filter (\<lambda>j. P (j + n)) [0..<length s - n])"
  using assms
proof (induction n arbitrary: s P)
  case 0
  then show ?case by simp
next
  case (Suc n)
  from Suc.prems(2) obtain c s' where s: "s = c # s'" by (cases s) auto
  have p0: "\<not> P 0" using Suc.prems(1) by simp
  have "map ((!) s') (filter (\<lambda>j. P (Suc j)) [0..<length s']) =
        map ((!) (drop n s')) (filter (\<lambda>j. P (Suc (j + n))) [0..<length s' - n])"
    using Suc.prems by (intro Suc.IH) (auto simp: s)
  with p0 show ?case
    unfolding s by (simp add: keep_Cons del: upt_Suc)
qed

lemma unbordered_no_overlap:
  assumes "unbordered old" and "prefix old s" and "occurs_at old s i" and "0 < i"
  shows "length old \<le> i"
proof (rule ccontr)
  assume "\<not> length old \<le> i"
  then have lt: "i < length old" by simp
  from assms(2) obtain t where s: "s = old @ t" by (auto simp: prefix_def)
  from assms(3) have "take (length old) (drop i old @ t) = old"
    using lt by (simp add: occurs_at_def s)
  then have "take (length old - i) (take (length old) (drop i old @ t)) = take (length old - i) old"
    by simp
  then have "drop i old = take (length old - i) old"
    using lt by (simp add: min_def)
  moreover from assms(1,4) lt have "drop i old \<noteq> take (length old - i) old"
    by (auto simp: unbordered_def list_all_iff)
  ultimately show False by simp
qed

lemma occurs_at_drop:
  "n \<le> i \<Longrightarrow> occurs_at old s i \<longleftrightarrow> occurs_at old (drop n s) (i - n)"
  by (simp add: occurs_at_def)

lemma covered_after_prefix:
  assumes "unbordered old" and "prefix old s"
  shows "covered old s (j + length old) \<longleftrightarrow> covered old (drop (length old) s) j"
proof
  let ?n = "length old"
  assume "covered old s (j + ?n)"
  then obtain i where i: "i \<le> j + ?n" "j + ?n < i + ?n" "occurs_at old s i"
    by (auto simp: covered_iff)
  then have "0 < i" by simp
  from unbordered_no_overlap [OF assms i(3) this] have ge: "?n \<le> i" .
  with i have "i - ?n \<le> j \<and> j < (i - ?n) + ?n \<and> occurs_at old (drop ?n s) (i - ?n)"
    using occurs_at_drop [OF ge, of old s] by auto
  then show "covered old (drop ?n s) j"
    unfolding covered_iff by blast
next
  let ?n = "length old"
  assume "covered old (drop ?n s) j"
  then obtain i where i: "i \<le> j" "j < i + ?n" "occurs_at old (drop ?n s) i"
    by (auto simp: covered_iff)
  have "occurs_at old s (i + ?n)"
    using occurs_at_drop [of ?n "i + ?n" old s] i(3) by simp
  with i have "i + ?n \<le> j + ?n \<and> j + ?n < (i + ?n) + ?n \<and> occurs_at old s (i + ?n)"
    by simp
  then show "covered old s (j + ?n)"
    unfolding covered_iff by blast
qed

lemma covered_prefix:
  assumes "old \<noteq> []" and "prefix old s" and "j < length old"
  shows "covered old s j"
proof -
  from assms have "0 \<le> j \<and> j < 0 + length old \<and> occurs_at old s 0"
    by (simp add: occurs_at_0)
  then show ?thesis unfolding covered_iff by blast
qed

lemma without_occurrences_prefix:
  assumes "old \<noteq> []" and "unbordered old" and "prefix old s"
  shows "without_occurrences old s = without_occurrences old (drop (length old) s)"
proof -
  have len: "length old \<le> length s"
    using assms(3) by (rule prefix_length_le)
  have "map ((!) s) (filter (\<lambda>j. \<not> covered old s j) [0..<length s]) =
        map ((!) (drop (length old) s))
          (filter (\<lambda>j. \<not> covered old s (j + length old)) [0..<length s - length old])"
    by (rule keep_drop) (simp_all add: covered_prefix [OF assms(1,3)] len)
  then show ?thesis
    by (simp add: without_occurrences_def covered_after_prefix [OF assms(2,3)])
qed

lemma without_occurrences_Cons:
  assumes "old \<noteq> []" and "\<not> prefix old (c # s)"
  shows "without_occurrences old (c # s) = c # without_occurrences old s"
  using keep_Cons [of c s "\<lambda>j. \<not> covered old (c # s) j"]
  by (simp add: without_occurrences_def not_covered_0 [OF assms] covered_Suc [OF assms]
      del: upt_Suc)

lemma replace_str_removes_all:
  assumes "old \<noteq> []" and "unbordered old"
  shows "replace_str old [] s = without_occurrences old s"
  using assms
proof (induction old "[] :: string" s rule: replace_str.induct)
  case (1 old s)
  show ?case
  proof (cases "s = []")
    case True
    with 1 show ?thesis
      by (subst replace_str.simps) (simp add: without_occurrences_def)
  next
    case ne: False
    show ?thesis
    proof (cases "prefix old s")
      case True
      with 1 ne show ?thesis
        by (subst replace_str.simps) (simp add: without_occurrences_prefix)
    next
      case False
      from ne obtain c s' where s: "s = c # s'" by (cases s) auto
      with 1 ne False show ?thesis
        by (subst replace_str.simps) (simp add: without_occurrences_Cons)
    qed
  qed
qed

lemma unbordered_literals: "unbordered '' lacs pa''" "unbordered '' yrs''"
  by (simp_all add: unbordered_def upt_conv_Cons)

lemma lower_table: "map lower_char capital_letters = small_letters"
  by code_simp

lemma in_capital_letters:
  "c \<in> set capital_letters \<longleftrightarrow>
     (65 \<le> (of_char c :: nat) \<and> (of_char c :: nat) \<le> 90) \<or>
     (192 \<le> (of_char c :: nat) \<and> (of_char c :: nat) \<le> 222 \<and> (of_char c :: nat) \<noteq> 215)"
proof -
  let ?ns = "[65..<91] @ [192..<215] @ [216..<223 :: nat]"
  have "c \<in> set capital_letters \<longleftrightarrow> of_char c \<in> set ?ns"
  proof
    assume "c \<in> set capital_letters"
    then obtain n where n: "n \<in> set ?ns" and c: "c = char_of n"
      by (auto simp: capital_letters_def)
    from n have "n < 256"
      by (simp only: set_append set_upt Un_iff atLeastLessThan_iff) arith
    with c have "of_char c = n" by simp
    with n show "of_char c \<in> set ?ns" by simp
  next
    assume "of_char c \<in> set ?ns"
    then have "char_of (of_char c :: nat) \<in> char_of ` set ?ns" by (rule imageI)
    then show "c \<in> set capital_letters" by (simp add: capital_letters_def)
  qed
  also have "of_char c \<in> set ?ns \<longleftrightarrow>
     (65 \<le> (of_char c :: nat) \<and> (of_char c :: nat) \<le> 90) \<or>
     (192 \<le> (of_char c :: nat) \<and> (of_char c :: nat) \<le> 222 \<and> (of_char c :: nat) \<noteq> 215)"
    by (simp only: set_append set_upt Un_iff atLeastLessThan_iff) arith
  finally show ?thesis .
qed

lemma lower_other: "c \<notin> set capital_letters \<Longrightarrow> lower_char c = c"
  unfolding in_capital_letters lower_char_def Let_def by (simp only: if_False)

lemma decimal_snoc: "decimal (s @ [c]) = 10 * decimal s + (of_char c - 48)"
  by (simp add: decimal_def)

lemma digit_value: "d < 10 \<Longrightarrow> (of_char (char_of (48 + d :: nat)) :: nat) - 48 = d"
  by simp

lemma decimal_digits_of: "decimal (digits_of n) = n"
proof (induction n rule: digits_of.induct)
  case (1 n)
  show ?case
  proof (cases "n < 10")
    case True
    have "decimal [char_of (48 + n)] = n"
      using digit_value [OF True] by (simp add: decimal_def)
    with True show ?thesis by (subst digits_of.simps) (simp only: if_True)
  next
    case False
    have m: "n mod 10 < 10" by simp
    from False 1 have ih: "decimal (digits_of (n div 10)) = n div 10" by simp
    have "decimal (digits_of (n div 10) @ [char_of (48 + n mod 10)]) = 10 * (n div 10) + n mod 10"
      unfolding decimal_snoc ih digit_value [OF m] ..
    also have "\<dots> = n" by simp
    finally show ?thesis using False by (subst digits_of.simps) (simp only: if_False)
  qed
qed

lemma digit_table: "list_all (\<lambda>d. char_of (48 + d) \<in> set ''0123456789'') [0 ..< 10 :: nat]"
  by code_simp

lemma digit_char: "d < 10 \<Longrightarrow> char_of (48 + d :: nat) \<in> set ''0123456789''"
proof -
  assume "d < 10"
  then have "d \<in> set [0 ..< 10]" by (simp only: set_upt atLeastLessThan_iff) simp
  with digit_table show ?thesis unfolding list_all_iff by blast
qed

lemma digits_of_digits: "list_all (\<lambda>c. c \<in> set ''0123456789'') (digits_of n)"
proof (induction n rule: digits_of.induct)
  case (1 n)
  show ?case
  proof (cases "n < 10")
    case True
    from digit_char [OF True] have "list_all (\<lambda>c. c \<in> set ''0123456789'') [char_of (48 + n)]"
      by simp
    with True show ?thesis by (subst digits_of.simps) (simp only: if_True simp_thms)
  next
    case False
    have m: "n mod 10 < 10" by simp
    from False 1 have ih: "list_all (\<lambda>c. c \<in> set ''0123456789'') (digits_of (n div 10))"
      by simp
    from ih digit_char [OF m]
    have "list_all (\<lambda>c. c \<in> set ''0123456789'')
            (digits_of (n div 10) @ [char_of (48 + n mod 10)])"
      by simp
    then show ?thesis using False by (subst digits_of.simps) (simp only: if_False simp_thms)
  qed
qed

lemma digits_of_not_Nil: "digits_of n \<noteq> []"
  by (subst digits_of.simps) simp

lemma digit_zero: "d < 10 \<Longrightarrow> char_of (48 + d :: nat) = CHR ''0'' \<Longrightarrow> d = 0"
proof -
  assume d: "d < 10" and "char_of (48 + d :: nat) = CHR ''0''"
  then have "(of_char (char_of (48 + d :: nat)) :: nat) = of_char CHR ''0''" by (simp only:)
  with d show "d = 0" by simp
qed

lemma digits_of_no_leading_zero: "0 < n \<Longrightarrow> hd (digits_of n) \<noteq> CHR ''0''"
proof (induction n rule: digits_of.induct)
  case (1 n)
  show ?case
  proof (cases "n < 10")
    case True
    with 1(2) digit_zero [OF True] have "char_of (48 + n) \<noteq> CHR ''0''" by blast
    then have "hd [char_of (48 + n)] \<noteq> CHR ''0''" by (simp only: list.sel simp_thms)
    with True show ?thesis by (subst digits_of.simps) (simp only: if_True simp_thms)
  next
    case False
    then have "0 < n div 10" by (simp add: div_greater_zero_iff)
    with False 1 have "hd (digits_of (n div 10)) \<noteq> CHR ''0''" by simp
    then have "hd (digits_of (n div 10) @ [char_of (48 + n mod 10)]) \<noteq> CHR ''0''"
      by (simp only: hd_append2 [OF digits_of_not_Nil] simp_thms)
    then show ?thesis using False by (subst digits_of.simps) (simp only: if_False simp_thms)
  qed
qed

lemma str_int_nat: "str_int (int k) = digits_of k"
  by (simp add: str_int_def)

lemma str_int_minus: "0 < k \<Longrightarrow> str_int (- int k) = CHR ''-'' # str_int (int k)"
  by (simp add: str_int_def)

lemma process_job_data_cells:
  assumes "process_job_data js = Inr df"
  shows "[] \<notin> set (df_locations df) \<and> [] \<notin> set (df_skills df)"
  using assms
  by (auto simp: process_job_data_def Let_def split_on_not_Nil split_on_not_Nil [THEN not_sym]
      split: if_splits)

lemma process_job_data_empty: "process_job_data empty_jobs = Inl AttributeError"
  by (simp add: process_job_data_def same_lengths_def all_lengths_def empty_jobs_def)

text \<open>
  Claim C6. On a dictionary whose seven lists have a common length that is not zero,
  \<open>process_job_data\<close> returns a frame of the same height in which, row by row, every
  field is the lowercased text of the raw field (the job number is its decimal text,
  which lowercasing leaves alone); \<open>skills\<close> and \<open>locations\<close> are that text split at the
  commas, so there is at least one piece, the pieces joined by commas give the text back
  and no piece contains a comma; \<open>salaries\<close> is that text with every occurrence of \<open> lacs pa\<close> removed and
  \<open>experience\<close> with every occurrence of \<open> yrs\<close> removed; \<open>roles\<close>, \<open>companies\<close> and
  \<open>job_no\<close> are not changed further. On the dictionary of seven empty lists it raises
  \<open>AttributeError\<close>. Lowercasing works character by character: it sends the capital
  letters, in order, to the small letters and leaves every other character as it is.
  The decimal text of a positive job number consists of digits, does not begin with a
  zero and stands for that number.
\<close>

theorem process_job_data_cleans:
  "(all_lengths jobs_data n \<and> 0 < n \<longrightarrow>
     (\<exists>df. process_job_data jobs_data = Inr df \<and>
       length (df_job_no df) = n \<and> length (df_roles df) = n \<and> length (df_companies df) = n \<and>
       length (df_locations df) = n \<and> length (df_experience df) = n \<and>
       length (df_salaries df) = n \<and> length (df_skills df) = n \<and>
       (\<forall>i<n.
          df_job_no df ! i = lower (str_int (job_no jobs_data ! i)) \<and>
          df_job_no df ! i = str_int (job_no jobs_data ! i) \<and>
          df_roles df ! i = lower (roles jobs_data ! i) \<and>
          df_companies df ! i = lower (companies jobs_data ! i) \<and>
          df_locations df ! i = split_on CHR '','' (lower (locations jobs_data ! i)) \<and>
          join '','' (df_locations df ! i) = lower (locations jobs_data ! i) \<and>
          df_locations df ! i \<noteq> [] \<and>
          (\<forall>piece \<in> set (df_locations df ! i). CHR '','' \<notin> set piece) \<and>
          df_skills df ! i = split_on CHR '','' (lower (skills jobs_data ! i)) \<and>
          join '','' (df_skills df ! i) = lower (skills jobs_data ! i) \<and>
          df_skills df ! i \<noteq> [] \<and>
          (\<forall>piece \<in> set (df_skills df ! i). CHR '','' \<notin> set piece) \<and>
          df_salaries df ! i = replace_str '' lacs pa'' [] (lower (salaries jobs_data ! i)) \<and>
          df_salaries df ! i = without_occurrences '' lacs pa'' (lower (salaries jobs_data ! i)) \<and>
          df_experience df ! i = replace_str '' yrs'' [] (lower (experience jobs_data ! i)) \<and>
          df_experience df ! i = without_occurrences '' yrs'' (lower (experience jobs_data ! i))))) \<and>
   process_job_data empty_jobs = Inl AttributeError \<and>
   length (lower s) = length s \<and>
   (\<forall>j<length s. lower s ! j = lower_char (s ! j)) \<and>
   map lower_char capital_letters = small_letters \<and>
   (c \<notin> set capital_letters \<longrightarrow> lower_char c = c) \<and>
   decimal (str_int (int k)) = k \<and>
   list_all (\<lambda>d. d \<in> set ''0123456789'') (str_int (int k)) \<and>
   (0 < k \<longrightarrow> hd (str_int (int k)) \<noteq> CHR ''0'')"
proof -
  have r1: "\<And>s. replace_str '' lacs pa'' [] s = without_occurrences '' lacs pa'' s"
    by (rule replace_str_removes_all) (simp_all add: unbordered_literals)
  have r2: "\<And>s. replace_str '' yrs'' [] s = without_occurrences '' yrs'' s"
    by (rule replace_str_removes_all) (simp_all add: unbordered_literals)
  have rows: "all_lengths jobs_data n \<and> 0 < n \<longrightarrow>
     (\<exists>df. process_job_data jobs_data = Inr df \<and>
       length (df_job_no df) = n \<and> length (df_roles df) = n \<and> length (df_companies df) = n \<and>
       length (df_locations df) = n \<and> length (df_experience df) = n \<and>
       length (df_salaries df) = n \<and> length (df_skills df) = n \<and>
       (\<forall>i<n.
          df_job_no df ! i = lower (str_int (job_no jobs_data ! i)) \<and>
          df_job_no df ! i = str_int (job_no jobs_data ! i) \<and>
          df_roles df ! i = lower (roles jobs_data ! i) \<and>
          df_companies df ! i = lower (companies jobs_data ! i) \<and>
          df_locations df ! i = split_on CHR '','' (lower (locations jobs_data ! i)) \<and>
          join '','' (df_locations df ! i) = lower (locations jobs_data ! i) \<and>
          df_locations df ! i \<noteq> [] \<and>
          (\<forall>piece \<in> set (df_locations df ! i). CHR '','' \<notin> set piece) \<and>
          df_skills df ! i = split_on CHR '','' (lower (skills jobs_data ! i)) \<and>
          join '','' (df_skills df ! i) = lower (skills jobs_data ! i) \<and>
          df_skills df ! i \<noteq> [] \<and>
          (\<forall>piece \<in> set (df_skills df ! i). CHR '','' \<notin> set piece) \<and>
          df_salaries df ! i = replace_str '' lacs pa'' [] (lower (salaries jobs_data ! i)) \<and>
          df_salaries df ! i = without_occurrences '' lacs pa'' (lower (salaries jobs_data ! i)) \<and>
          df_experience df ! i = replace_str '' yrs'' [] (lower (experience jobs_data ! i)) \<and>
          df_experience df ! i = without_occurrences '' yrs'' (lower (experience jobs_data ! i))))"
  proof
    assume a: "all_lengths jobs_data n \<and> 0 < n"
    then have same: "same_lengths jobs_data"
      by (simp add: same_lengths_def all_lengths_def)
    from a have ne: "job_no jobs_data \<noteq> []"
      by (auto simp: all_lengths_def)
    from a same ne show "\<exists>df. process_job_data jobs_data = Inr df \<and>
       length (df_job_no df) = n \<and> length (df_roles df) = n \<and> length (df_companies df) = n \<and>
       length (df_locations df) = n \<and> length (df_experience df) = n \<and>
       length (df_salaries df) = n \<and> length (df_skills df) = n \<and>
       (\<forall>i<n.
          df_job_no df ! i = lower (str_int (job_no jobs_data ! i)) \<and>
          df_job_no df ! i = str_int (job_no jobs_data ! i) \<and>
          df_roles df ! i = lower (roles jobs_data ! i) \<and>
          df_companies df ! i = lower (companies jobs_data ! i) \<and>
          df_locations df ! i = split_on CHR '','' (lower (locations jobs_data ! i)) \<and>
          join '','' (df_locations df ! i) = lower (locations jobs_data ! i) \<and>
          df_locations df ! i \<noteq> [] \<and>
          (\<forall>piece \<in> set (df_locations df ! i). CHR '','' \<notin> set piece) \<and>
          df_skills df ! i = split_on CHR '','' (lower (skills jobs_data ! i)) \<and>
          join '','' (df_skills df ! i) = lower (skills jobs_data ! i) \<and>
          df_skills df ! i \<noteq> [] \<and>
          (\<forall>piece \<in> set (df_skills df ! i). CHR '','' \<notin> set piece) \<and>
          df_salaries df ! i = replace_str '' lacs pa'' [] (lower (salaries jobs_data ! i)) \<and>
          df_salaries df ! i = without_occurrences '' lacs pa'' (lower (salaries jobs_data ! i)) \<and>
          df_experience df ! i = replace_str '' yrs'' [] (lower (experience jobs_data ! i)) \<and>
          df_experience df ! i = without_occurrences '' yrs'' (lower (experience jobs_data ! i)))"
      by (simp add: process_job_data_def all_lengths_def lower_str_int join_split_on
          split_on_no_sep split_on_not_Nil r1 r2)
  qed
  have low: "length (lower s) = length s \<and> (\<forall>j<length s. lower s ! j = lower_char (s ! j))"
    by (simp add: lower_def)
  have oth: "c \<notin> set capital_letters \<longrightarrow> lower_char c = c"
    using lower_other by blast
  have dec: "decimal (str_int (int k)) = k"
    unfolding str_int_nat by (rule decimal_digits_of)
  have dig: "list_all (\<lambda>d. d \<in> set ''0123456789'') (str_int (int k))"
    unfolding str_int_nat by (rule digits_of_digits)
  have lead: "0 < k \<longrightarrow> hd (str_int (int k)) \<noteq> CHR ''0''"
    unfolding str_int_nat using digits_of_no_leading_zero by blast
  from rows process_job_data_empty low lower_table oth dec dig lead show ?thesis
    by (intro conjI) (erule conjunct1 conjunct2 | assumption)+
qed

theorem process_job_data_cleans_witness:
  "all_lengths raw_rows 2 \<and> process_job_data raw_rows = Inr clean_rows \<and>
   df_job_no clean_rows ! 1 = str_int (job_no raw_rows ! 1) \<and>
   df_roles clean_rows ! 1 = lower (roles raw_rows ! 1) \<and>
   df_companies clean_rows ! 1 = lower (companies raw_rows ! 1) \<and>
   join '','' (df_locations clean_rows ! 0) = lower (locations raw_rows ! 0) \<and>
   df_skills clean_rows ! 0 = split_on CHR '','' (lower (skills raw_rows ! 0)) \<and>
   df_skills clean_rows ! 1 \<noteq> [] \<and>
   df_salaries clean_rows ! 0 = without_occurrences '' lacs pa'' (lower (salaries raw_rows ! 0)) \<and>
   df_experience clean_rows ! 1 = without_occurrences '' yrs'' (lower (experience raw_rows ! 1)) \<and>
   lower (roles raw_rows ! 1) ! 3 = lower_char (CHR 0xC9) \<and>
   CHR 0xD7 \<notin> set capital_letters \<and> lower_char (CHR 0xD7) = CHR 0xD7 \<and>
   0 < (12 :: nat) \<and> decimal (str_int (int 12)) = 12 \<and> hd (str_int (int 12)) \<noteq> CHR ''0''"
proof -
  have h: "all_lengths raw_rows 2 \<and> 0 < (2 :: nat)"
    by (simp add: all_lengths_def raw_rows_def)
  have e: "process_job_data raw_rows = Inr clean_rows"
    by code_simp
  have l: "(3 :: nat) < length (roles raw_rows ! 1)"
    by (simp add: raw_rows_def)
  have r: "roles raw_rows ! 1 ! 3 = CHR 0xC9"
    by (simp add: raw_rows_def)
  have x: "CHR 0xD7 \<notin> set capital_letters"
    by code_simp
  have two: "\<And>P. (\<forall>i<2::nat. P i) = (P 0 \<and> P 1)"
    by (auto simp: less_Suc_eq numeral_2_eq_2)
  from process_job_data_cleans [of raw_rows 2 "roles raw_rows ! 1" "CHR 0xD7" 12] e h l r x
  show ?thesis
    by (auto simp: two)
qed

section \<open>Properties of the statistics\<close>

lemma keys_bump: "fst ` set (bump v table) = insert v (fst ` set table)"
  by (induction v table rule: bump.induct) auto

lemma distinct_bump: "distinct (map fst table) \<Longrightarrow> distinct (map fst (bump v table))"
  by (induction v table rule: bump.induct) (auto simp: keys_bump)

lemma map_of_bump:
  "map_of (bump v table) =
     (map_of table)(v \<mapsto> (case map_of table v of None \<Rightarrow> 1 | Some n \<Rightarrow> Suc n))"
  by (induction v table rule: bump.induct) (auto simp: fun_eq_iff)

lemma frequency_snoc:
  "frequency (seen @ [v]) k = (if k = v then Suc (frequency seen k) else frequency seen k)"
  by (simp add: frequency_def)

lemma frequency_0_iff: "frequency col k = 0 \<longleftrightarrow> k \<notin> set col"
  by (auto simp: frequency_def filter_empty_conv)

lemma tally_from:
  assumes "distinct (map fst table)"
    and "\<And>k. map_of table k = (if k \<in> set seen then Some (frequency seen k) else None)"
  shows "distinct (map fst (foldl (\<lambda>table v. bump v table) table col)) \<and>
         (\<forall>k. map_of (foldl (\<lambda>table v. bump v table) table col) k =
            (if k \<in> set (seen @ col) then Some (frequency (seen @ col) k) else None))"
  using assms
proof (induction col arbitrary: table seen)
  case Nil
  then show ?case by simp
next
  case (Cons v col)
  have d: "distinct (map fst (bump v table))"
    using Cons.prems(1) by (rule distinct_bump)
  have m: "\<And>k. map_of (bump v table) k =
             (if k \<in> set (seen @ [v]) then Some (frequency (seen @ [v]) k) else None)"
    by (simp add: map_of_bump Cons.prems(2) frequency_snoc frequency_0_iff)
  from Cons.IH [OF d m] show ?case by simp
qed

lemma tally_counts:
  "distinct (map fst (tally col)) \<and>
   (\<forall>k n. (k, n) \<in> set (tally col) \<longleftrightarrow> k \<in> set col \<and> n = frequency col k)"
proof -
  have t: "distinct (map fst (tally col)) \<and>
           (\<forall>k. map_of (tally col) k = (if k \<in> set col then Some (frequency col k) else None))"
    using tally_from [of "[]" "[]" col] by (simp add: tally_def)
  then have d: "distinct (map fst (tally col))" ..
  have "(k, n) \<in> set (tally col) \<longleftrightarrow> k \<in> set col \<and> n = frequency col k" for k n
    using t map_of_eq_Some_iff [OF d, of k n] by (auto split: if_splits)
  with d show ?thesis by blast
qed

lemma value_counts_counts:
  "distinct (map fst (value_counts col)) \<and>
   (\<forall>k n. (k, n) \<in> set (value_counts col) \<longleftrightarrow> k \<in> set col \<and> n = frequency col k)"
proof -
  have s: "set (value_counts col) = set (tally col)"
    by (simp add: value_counts_def)
  have "distinct (value_counts col) = distinct (tally col)"
    by (simp add: value_counts_def)
  with s have "distinct (map fst (value_counts col)) = distinct (map fst (tally col))"
    by (simp add: distinct_map)
  with s show ?thesis using tally_counts [of col] by simp
qed

lemma value_counts_keys: "fst ` set (value_counts col) = set col"
  using value_counts_counts [of col] by (auto simp: image_iff) (metis fst_conv)

lemma explode_nonempty: "[] \<notin> set col \<Longrightarrow> explode col = map Some (concat col)"
  by (induction col) (auto simp: explode_def)

lemma apply_str_Some:
  "apply_str f (map (\<lambda>x. Some (g x)) xs) = Inr (map (\<lambda>x. Some (f (g x))) xs)"
  by (auto simp: apply_str_def)

lemma dropna_Some [simp]: "dropna (map (\<lambda>x. Some (g x)) xs) = map g xs"
  by (induction xs) (simp_all add: dropna_def)

lemma cleaned_locations_nonempty:
  "[] \<notin> set (df_locations df) \<Longrightarrow>
   cleaned_locations df = Inr (map (\<lambda>l. Some (normalize_location l)) (concat (df_locations df)))"
  using apply_str_Some [of replace_location_patterns "\<lambda>x. x" "concat (df_locations df)"]
  by (simp add: cleaned_locations_def explode_nonempty apply_str_Some normalize_location_def)

lemma normalized_locations:
  "[] \<notin> set (df_locations df) \<Longrightarrow>
   analysed_column Location_analysis df = map normalize_location (concat (df_locations df))"
  by (simp add: cleaned_locations_nonempty)

text \<open>The three analyses print their two tables before they plot, so whatever the
  plotting does.\<close>

lemma analyze_experience_prints:
  "Counts_printed Experience_analysis (value_counts (df_experience df))
     \<in> set (fst (analyze_experience world df))"
  "Percentages_printed Experience_analysis (percentages (df_experience df))
     \<in> set (fst (analyze_experience world df))"
  by (simp_all add: analyze_experience_def and_then_def emit_def lib_call_def Let_def
      split: option.splits)

lemma analyze_salary_prints:
  "Counts_printed Salary_analysis (value_counts (df_salaries df))
     \<in> set (fst (analyze_salary world df))"
  "Percentages_printed Salary_analysis (percentages (df_salaries df))
     \<in> set (fst (analyze_salary world df))"
  by (simp_all add: analyze_salary_def and_then_def emit_def lib_call_def Let_def
      split: option.splits)

lemma clean_and_analyze_locations_prints:
  assumes "[] \<notin> set (df_locations df)"
  shows "Counts_printed Location_analysis
           (value_counts (map normalize_location (concat (df_locations df))))
           \<in> set (fst (clean_and_analyze_locations world df))"
    and "Percentages_printed Location_analysis
           (percentages (map normalize_location (concat (df_locations df))))
           \<in> set (fst (clean_and_analyze_locations world df))"
  by (simp_all add: clean_and_analyze_locations_def cleaned_locations_nonempty [OF assms]
      and_then_def emit_def lib_call_def Let_def split: option.splits)

lemma counts_of_analyze_experience:
  "Counts_printed st cs \<in> set (fst (analyze_experience world df)) \<Longrightarrow>
   st = Experience_analysis \<and> cs = value_counts (df_experience df)"
  by (auto simp: analyze_experience_def and_then_def emit_def lib_call_def Let_def
      split: option.splits)

lemma counts_of_analyze_salary:
  "Counts_printed st cs \<in> set (fst (analyze_salary world df)) \<Longrightarrow>
   st = Salary_analysis \<and> cs = value_counts (df_salaries df)"
  by (auto simp: analyze_salary_def and_then_def emit_def lib_call_def Let_def
      split: option.splits)

lemma counts_of_clean_and_analyze_locations:
  "Counts_printed st cs \<in> set (fst (clean_and_analyze_locations world df)) \<Longrightarrow>
   st = Location_analysis \<and> (\<exists>col. cleaned_locations df = Inr col \<and> cs = value_counts (dropna col))"
  by (auto simp: clean_and_analyze_locations_def and_then_def emit_def lib_call_def Let_def
      split: option.splits sum.splits)

lemma counts_of_analyze_skills:
  "Counts_printed st cs \<notin> set (fst (analyze_skills world df))"
  by (auto simp: analyze_skills_def and_then_def emit_def lib_call_def Let_def
      split: option.splits)

lemma counts_of_analysis:
  assumes "Counts_printed st cs \<in> set (analysis_events world df)"
  shows "st \<in> {Experience_analysis, Salary_analysis, Location_analysis} \<and>
         cs = value_counts (analysed_column st df)"
proof -
  from assms consider
      "Counts_printed st cs \<in> set (fst (analyze_experience world df))"
    | "Counts_printed st cs \<in> set (fst (analyze_salary world df))"
    | "Counts_printed st cs \<in> set (fst (clean_and_analyze_locations world df))"
    using counts_of_analyze_skills [of st cs world df]
    by (auto simp: analysis_events_def)
  then show ?thesis
  proof cases
    case 1
    from counts_of_analyze_experience [OF 1] show ?thesis by simp
  next
    case 2
    from counts_of_analyze_salary [OF 2] show ?thesis by simp
  next
    case 3
    from counts_of_clean_and_analyze_locations [OF 3] show ?thesis by auto
  qed
qed

text \<open>
  Claim C7. \<open>analyze_experience\<close> prints the table of counts of the experience column
  and \<open>analyze_salary\<close> that of the salaries column, whatever the plotting does
  afterwards; \<open>clean_and_analyze_locations\<close> prints that of the normalized locations (the
  cells of the location column, one row for each, passed through the two location
  helpers) when no cell of the location column is an empty list, as is the case in every
  frame that \<open>process_job_data\<close> returns. Every table of counts
  that an analysis prints is a frequency count of the column analysed (experience,
  salaries, or the normalized locations): it has one entry for each distinct value of
  the column and no other, and the count of a value is the number of rows of the column
  holding exactly that value.
\<close>

theorem printed_counts_are_frequencies:
  "Counts_printed Experience_analysis (value_counts (df_experience df))
     \<in> set (fst (analyze_experience world df)) \<and>
   Counts_printed Salary_analysis (value_counts (df_salaries df))
     \<in> set (fst (analyze_salary world df)) \<and>
   ([] \<notin> set (df_locations df) \<longrightarrow>
      Counts_printed Location_analysis
        (value_counts (map normalize_location (concat (df_locations df))))
        \<in> set (fst (clean_and_analyze_locations world df)) \<and>
      analysed_column Location_analysis df =
        map normalize_location (concat (df_locations df))) \<and>
   (process_job_data jobs_data = Inr df \<longrightarrow> [] \<notin> set (df_locations df)) \<and>
   (Counts_printed st cs \<in> set (analysis_events world df) \<longrightarrow>
      st \<in> {Experience_analysis, Salary_analysis, Location_analysis} \<and>
      distinct (map fst cs) \<and>
      fst ` set cs = set (analysed_column st df) \<and>
      (\<forall>(v, n) \<in> set cs. n = length (filter (\<lambda>x. x = v) (analysed_column st df))))"
proof -
  have loc: "[] \<notin> set (df_locations df) \<longrightarrow>
      Counts_printed Location_analysis
        (value_counts (map normalize_location (concat (df_locations df))))
        \<in> set (fst (clean_and_analyze_locations world df)) \<and>
      analysed_column Location_analysis df =
        map normalize_location (concat (df_locations df))"
    using clean_and_analyze_locations_prints(1) [of df world] normalized_locations [of df]
    by blast
  have freq: "Counts_printed st cs \<in> set (analysis_events world df) \<longrightarrow>
      st \<in> {Experience_analysis, Salary_analysis, Location_analysis} \<and>
      distinct (map fst cs) \<and>
      fst ` set cs = set (analysed_column st df) \<and>
      (\<forall>(v, n) \<in> set cs. n = length (filter (\<lambda>x. x = v) (analysed_column st df)))"
  proof
    assume a: "Counts_printed st cs \<in> set (analysis_events world df)"
    from counts_of_analysis [OF a] have
      st: "st \<in> {Experience_analysis, Salary_analysis, Location_analysis}" and
      cs: "cs = value_counts (analysed_column st df)" by blast+
    from value_counts_counts [of "analysed_column st df"]
      value_counts_keys [of "analysed_column st df"]
    show "st \<in> {Experience_analysis, Salary_analysis, Location_analysis} \<and>
      distinct (map fst cs) \<and>
      fst ` set cs = set (analysed_column st df) \<and>
      (\<forall>(v, n) \<in> set cs. n = length (filter (\<lambda>x. x = v) (analysed_column st df)))"
      unfolding cs using st by (auto simp: frequency_def)
  qed
  have made: "process_job_data jobs_data = Inr df \<longrightarrow> [] \<notin> set (df_locations df)"
    using process_job_data_cells [of jobs_data df] by blast
  from analyze_experience_prints(1) [of df world] analyze_salary_prints(1) [of df world]
    loc made freq
  show ?thesis by (intro conjI)
qed

theorem printed_counts_are_frequencies_witness:
  "process_job_data raw_rows = Inr clean_rows \<and> [] \<notin> set (df_locations clean_rows) \<and>
   [] \<notin> set (df_locations three_jobs) \<and>
   Counts_printed Experience_analysis [(''2-5'', 2), (''0-1'', 1)]
     \<in> set (fst (analyze_experience calm three_jobs)) \<and>
   Counts_printed Salary_analysis [(''3-5'', 1), (''na'', 1), (''6-9'', 1)]
     \<in> set (fst (analyze_salary calm three_jobs)) \<and>
   Counts_printed Location_analysis
     [(''delhi'', 1), (''mumbai'', 1), (''bengaluru'', 1), (''pune'', 1)]
     \<in> set (fst (clean_and_analyze_locations calm three_jobs)) \<and>
   analysed_column Experience_analysis three_jobs = [''2-5'', ''0-1'', ''2-5''] \<and>
   analysed_column Salary_analysis three_jobs = [''3-5'', ''na'', ''6-9''] \<and>
   analysed_column Location_analysis three_jobs = [''delhi'', ''mumbai'', ''bengaluru'', ''pune''] \<and>
   2 = length (filter (\<lambda>x. x = ''2-5'') (analysed_column Experience_analysis three_jobs)) \<and>
   1 = length (filter (\<lambda>x. x = ''0-1'') (analysed_column Experience_analysis three_jobs)) \<and>
   1 = length (filter (\<lambda>x. x = ''na'') (analysed_column Salary_analysis three_jobs)) \<and>
   1 = length (filter (\<lambda>x. x = ''mumbai'') (analysed_column Location_analysis three_jobs))"
proof -
  note t = printed_counts_are_frequencies [of three_jobs calm]
  have l: "[] \<notin> set (df_locations three_jobs)"
    by (simp add: three_jobs_def)
  have p: "process_job_data raw_rows = Inr clean_rows"
    by code_simp
  from printed_counts_are_frequencies [of clean_rows calm raw_rows] p
  have m: "[] \<notin> set (df_locations clean_rows)"
    by blast
  have v1: "value_counts (df_experience three_jobs) = [(''2-5'', 2), (''0-1'', 1)]"
    by code_simp
  have v2: "value_counts (df_salaries three_jobs) = [(''3-5'', 1), (''na'', 1), (''6-9'', 1)]"
    by code_simp
  have v3: "map normalize_location (concat (df_locations three_jobs)) =
              [''delhi'', ''mumbai'', ''bengaluru'', ''pune'']"
    by code_simp
  have v4: "value_counts [''delhi'', ''mumbai'', ''bengaluru'', ''pune''] =
              [(''delhi'', 1), (''mumbai'', 1), (''bengaluru'', 1), (''pune'', 1)]"
    by code_simp
  have c1: "analysed_column Experience_analysis three_jobs = [''2-5'', ''0-1'', ''2-5'']"
    by (simp add: three_jobs_def)
  have c2: "analysed_column Salary_analysis three_jobs = [''3-5'', ''na'', ''6-9'']"
    by (simp add: three_jobs_def)
  have e: "Counts_printed Experience_analysis [(''2-5'', 2), (''0-1'', 1)]
             \<in> set (fst (analyze_experience calm three_jobs))"
    using t [THEN conjunct1] by (simp only: v1)
  have s: "Counts_printed Salary_analysis [(''3-5'', 1), (''na'', 1), (''6-9'', 1)]
             \<in> set (fst (analyze_salary calm three_jobs))"
    using t [THEN conjunct2, THEN conjunct1] by (simp only: v2)
  have lo: "Counts_printed Location_analysis
             [(''delhi'', 1), (''mumbai'', 1), (''bengaluru'', 1), (''pune'', 1)]
             \<in> set (fst (clean_and_analyze_locations calm three_jobs)) \<and>
           analysed_column Location_analysis three_jobs =
             [''delhi'', ''mumbai'', ''bengaluru'', ''pune'']"
    using t [THEN conjunct2, THEN conjunct2, THEN conjunct1, rule_format, OF l]
    by (simp only: v3 v4)
  then have c3: "analysed_column Location_analysis three_jobs =
             [''delhi'', ''mumbai'', ''bengaluru'', ''pune'']" ..
  from e have ae: "Counts_printed Experience_analysis [(''2-5'', 2), (''0-1'', 1)]
             \<in> set (analysis_events calm three_jobs)"
    by (simp add: analysis_events_def)
  from s have as: "Counts_printed Salary_analysis [(''3-5'', 1), (''na'', 1), (''6-9'', 1)]
             \<in> set (analysis_events calm three_jobs)"
    by (simp add: analysis_events_def)
  from lo have al: "Counts_printed Location_analysis
             [(''delhi'', 1), (''mumbai'', 1), (''bengaluru'', 1), (''pune'', 1)]
             \<in> set (analysis_events calm three_jobs)"
    by (simp add: analysis_events_def)
  from t [THEN conjunct2, THEN conjunct2, THEN conjunct2, THEN conjunct2, rule_format, OF ae] have f1:
    "\<forall>(v, n) \<in> set [(''2-5'', 2 :: nat), (''0-1'', 1)].
       n = length (filter (\<lambda>x. x = v) (analysed_column Experience_analysis three_jobs))"
    by blast
  from t [THEN conjunct2, THEN conjunct2, THEN conjunct2, THEN conjunct2, rule_format, OF as] have f2:
    "\<forall>(v, n) \<in> set [(''3-5'', 1 :: nat), (''na'', 1), (''6-9'', 1)].
       n = length (filter (\<lambda>x. x = v) (analysed_column Salary_analysis three_jobs))"
    by blast
  from t [THEN conjunct2, THEN conjunct2, THEN conjunct2, THEN conjunct2, rule_format, OF al] have f3:
    "\<forall>(v, n) \<in> set [(''delhi'', 1 :: nat), (''mumbai'', 1), (''bengaluru'', 1), (''pune'', 1)].
       n = length (filter (\<lambda>x. x = v) (analysed_column Location_analysis three_jobs))"
    by blast
  from f1 have g1:
    "2 = length (filter (\<lambda>x. x = ''2-5'') (analysed_column Experience_analysis three_jobs)) \<and>
     1 = length (filter (\<lambda>x. x = ''0-1'') (analysed_column Experience_analysis three_jobs))"
    by simp
  from f2 have g2:
    "1 = length (filter (\<lambda>x. x = ''na'') (analysed_column Salary_analysis three_jobs))"
    by simp
  from f3 have g3:
    "1 = length (filter (\<lambda>x. x = ''mumbai'') (analysed_column Location_analysis three_jobs))"
    by simp
  from p m l e s lo c1 c2 g1 g2 g3 show ?thesis by blast
qed

lemma sum_bump: "sum_list (map snd (bump v table)) = Suc (sum_list (map snd table))"
  by (induction v table rule: bump.induct) auto

lemma sum_tally_from:
  "sum_list (map snd (foldl (\<lambda>table v. bump v table) table col)) =
     sum_list (map snd table) + length col"
  by (induction col arbitrary: table) (simp_all add: sum_bump)

lemma sum_insort_key:
  "sum_list (map g (insort_key f x xs)) = g x + sum_list (map g xs)"
  for g :: "'a \<Rightarrow> 'b :: comm_monoid_add"
  by (induction xs) (simp_all add: ac_simps)

lemma sum_sort_key:
  "sum_list (map g (sort_key f xs)) = sum_list (map g xs)"
  for g :: "'a \<Rightarrow> 'b :: comm_monoid_add"
  by (induction xs) (simp_all add: sum_insort_key)

lemma sum_value_counts: "sum_list (map snd (value_counts col)) = length col"
  by (simp add: value_counts_def sum_sort_key tally_def sum_tally_from)

lemma sum_scaled:
  "(\<Sum>x \<leftarrow> xs. (of_nat (snd x) * c :: rat)) = of_nat (sum_list (map snd xs)) * c"
  by (induction xs) (simp_all add: algebra_simps)

lemma exact_percentages_sum:
  assumes "col \<noteq> []"
  shows "(\<Sum>(v, n) \<leftarrow> value_counts col. (of_nat n / of_nat (length col) * 100 :: rat)) = 100"
proof -
  have "(\<Sum>(v, n) \<leftarrow> value_counts col. (of_nat n / of_nat (length col) * 100 :: rat)) =
        (\<Sum>x \<leftarrow> value_counts col. of_nat (snd x) * (100 / of_nat (length col)))"
    by (simp add: case_prod_unfold)
  also have "\<dots> = of_nat (sum_list (map snd (value_counts col))) * (100 / of_nat (length col))"
    by (rule sum_scaled)
  also have "\<dots> = 100"
    using assms by (simp add: sum_value_counts)
  finally show ?thesis .
qed

lemma bit_length_bounds:
  "0 < p \<Longrightarrow> 0 < bit_length p \<and> 2 ^ nat (bit_length p - 1) \<le> p \<and> p < 2 ^ nat (bit_length p)"
proof (induction p rule: bit_length.induct)
  case (1 p)
  show ?case
  proof (cases "p div 2 = 0")
    case True
    with 1(2) have p: "p = 1" by presburger
    have "bit_length 1 = 1"
      by (subst bit_length.simps, subst bit_length.simps) simp
    with p show ?thesis by simp
  next
    case False
    with 1(2) have pos: "0 < p div 2" by presburger
    let ?b = "bit_length (p div 2)"
    from 1(1) 1(2) pos have b: "0 < ?b" and lo: "2 ^ nat (?b - 1) \<le> p div 2" and hi: "p div 2 < 2 ^ nat ?b"
      by simp_all
    have bl: "bit_length p = 1 + ?b"
      using 1(2) by (subst bit_length.simps) simp
    have e1: "(2::int) ^ nat ?b = 2 * 2 ^ nat (?b - 1)"
      using b by (metis Suc_nat_eq_nat_zadd1 add.commute diff_add_cancel diff_ge_0_iff_ge
          int_one_le_iff_zero_less power_Suc zle_diff1_eq)
    have e2: "(2::int) ^ nat (1 + ?b) = 2 * 2 ^ nat ?b"
      using b by (simp add: nat_add_distrib)
    from lo have "2 * 2 ^ nat (?b - 1) \<le> p" by presburger
    moreover from hi have "p < 2 * 2 ^ nat ?b" by presburger
    ultimately show ?thesis using b bl e1 e2 by simp
  qed
qed

lemma pow2_pos: "0 < pow2 e"
  by (simp add: pow2_def)

lemma pow2_diff: "pow2 (a - b) = pow2 a / pow2 b"
proof -
  have "pow2 e = power_int 2 e" for e
    by (simp add: pow2_def power_int_def inverse_eq_divide power_one_over)
  then show ?thesis by (simp add: power_int_diff)
qed

lemma pow2_nat: "0 \<le> e \<Longrightarrow> pow2 e = 2 ^ nat e"
  by (simp add: pow2_def)

lemma exponent_le:
  assumes "0 < x"
  shows "pow2 (exponent x) \<le> x"
proof -
  obtain p q where pq: "quotient_of x = (p, q)" by (cases "quotient_of x")
  then have q: "0 < q" and x: "x = of_int p / of_int q"
    by (rule quotient_of_denom_pos, rule quotient_of_div)
  from assms x q have p: "0 < p"
    by (simp add: zero_less_divide_iff)
  let ?d = "bit_length p - bit_length q"
  show ?thesis
  proof (cases "pow2 ?d \<le> x")
    case True
    with pq show ?thesis by (simp add: exponent_def)
  next
    case False
    from bit_length_bounds [OF p] have bp: "0 < bit_length p" and lo: "2 ^ nat (bit_length p - 1) \<le> p"
      by simp_all
    from bit_length_bounds [OF q] have bq: "0 < bit_length q" and hi: "q < 2 ^ nat (bit_length q)"
      by simp_all
    have "pow2 (?d - 1) = pow2 (bit_length p - 1) / pow2 (bit_length q)"
      using pow2_diff [of "bit_length p - 1" "bit_length q"] by (simp add: algebra_simps)
    also have "\<dots> = 2 ^ nat (bit_length p - 1) / 2 ^ nat (bit_length q)"
      using bp bq by (simp add: pow2_nat)
    also have "\<dots> \<le> of_int p / of_int q"
    proof (rule frac_le)
      show "(0::rat) \<le> of_int p" using p by simp
      from lo have "(of_int (2 ^ nat (bit_length p - 1)) :: rat) \<le> of_int p"
        by (simp only: of_int_le_iff)
      then show "(2 :: rat) ^ nat (bit_length p - 1) \<le> of_int p" by simp
      show "(0 :: rat) < of_int q" using q by simp
      from hi have "(of_int q :: rat) \<le> of_int (2 ^ nat (bit_length q))"
        by (simp only: of_int_le_iff)
      then show "(of_int q :: rat) \<le> 2 ^ nat (bit_length q)" by simp
    qed
    finally have "pow2 (?d - 1) \<le> x" using x by simp
    with False pq show ?thesis by (simp add: exponent_def)
  qed
qed

lemma round_half_even_close: "\<bar>of_int (round_half_even y) - y\<bar> \<le> 1 / 2"
proof -
  have "of_int \<lfloor>y\<rfloor> \<le> y" and "y < of_int \<lfloor>y\<rfloor> + 1" by linarith+
  then show ?thesis
    by (auto simp: round_half_even_def Let_def)
qed

lemma round64_error:
  assumes "0 < x"
  shows "\<bar>round64 x - x\<bar> \<le> x / 2 ^ 53"
proof -
  let ?ulp = "pow2 (exponent x - 52)"
  have u: "0 < ?ulp" by (rule pow2_pos)
  have r: "round64 x = of_int (round_half_even (x / ?ulp)) * ?ulp"
    using assms by (simp add: round64_def Let_def)
  have "\<bar>round64 x - x\<bar> = \<bar>of_int (round_half_even (x / ?ulp)) - x / ?ulp\<bar> * ?ulp"
  proof -
    have "round64 x - x = (of_int (round_half_even (x / ?ulp)) - x / ?ulp) * ?ulp"
      using u by (simp add: r algebra_simps)
    then show ?thesis using u by (simp add: abs_mult)
  qed
  also have "\<dots> \<le> 1 / 2 * ?ulp"
    using round_half_even_close [of "x / ?ulp"] u by (intro mult_right_mono) simp_all
  also have "\<dots> = pow2 (exponent x) / 2 ^ 53"
    using pow2_diff [of "exponent x" 52] by (simp add: pow2_nat)
  also have "\<dots> \<le> x / 2 ^ 53"
    using exponent_le [OF assms] by (simp add: divide_right_mono)
  finally show ?thesis .
qed

lemma percent_error:
  assumes "0 < n" and "0 < t"
  shows "\<bar>percent n t - of_nat n / of_nat t * 100\<bar> \<le> (of_nat n / of_nat t * 100) / 2 ^ 51"
proof -
  define q :: rat where "q = of_nat n / of_nat t"
  define r where "r = round64 q"
  define u :: rat where "u = 1 / 2 ^ 53"
  have q: "0 < q" using assms by (simp add: q_def)
  have u: "0 < u" "u \<le> 1" by (simp_all add: u_def)
  have e1: "\<bar>r - q\<bar> \<le> q * u"
    using round64_error [OF q] by (simp add: r_def u_def)
  then have "q - q * u \<le> r" and rq: "r \<le> q + q * u" by linarith+
  moreover have "0 < q - q * u"
  proof -
    have "u < 1" by (simp add: u_def)
    then have "q * u < q * 1" using q by (intro mult_strict_left_mono)
    then show ?thesis by simp
  qed
  ultimately have r: "0 < r" by linarith
  then have r100: "0 < r * 100" by simp
  have e2: "\<bar>round64 (r * 100) - r * 100\<bar> \<le> r * 100 * u"
    using round64_error [OF r100] by (simp add: u_def)
  have "r * 100 * u \<le> (q + q * u) * 100 * u"
    using rq u(1) by (intro mult_right_mono) simp_all
  with e2 have e3: "\<bar>round64 (r * 100) - r * 100\<bar> \<le> (q + q * u) * 100 * u" by linarith
  have "\<bar>round64 (r * 100) - q * 100\<bar> \<le> \<bar>round64 (r * 100) - r * 100\<bar> + \<bar>r - q\<bar> * 100"
    by (simp add: abs_if split: if_splits)
  with e1 e3 have "\<bar>round64 (r * 100) - q * 100\<bar> \<le> (q + q * u) * 100 * u + q * u * 100"
    by linarith
  also have "\<dots> = q * 100 * (2 * u + u * u)" by (simp add: algebra_simps)
  also have "\<dots> \<le> q * 100 * (4 * u)"
  proof -
    have "u * u \<le> 1 * u" using u by (intro mult_right_mono) simp_all
    then have "2 * u + u * u \<le> 4 * u" using u(1) by simp
    then show ?thesis using q by (intro mult_left_mono) simp_all
  qed
  also have "\<dots> = q * 100 / 2 ^ 51" by (simp add: u_def)
  finally show ?thesis by (simp add: percent_def q_def r_def)
qed

lemma percentages_error:
  assumes "(v, p) \<in> set (percentages col)"
  shows "v \<in> set col \<and> p = percent (frequency col v) (length col) \<and>
         \<bar>p - exact_percent col v\<bar> \<le> exact_percent col v / 2 ^ 51"
proof -
  from assms obtain n where vn: "(v, n) \<in> set (value_counts col)" and p: "p = percent n (length col)"
    by (auto simp: percentages_def)
  from vn value_counts_counts [of col] have v: "v \<in> set col" and n: "n = frequency col v"
    by blast+
  from v have "0 < n" unfolding n using frequency_0_iff [of col v] by simp
  moreover from v have "0 < length col" by (cases col) auto
  ultimately show ?thesis
    using percent_error [of n "length col"] v p n by (simp add: exact_percent_def)
qed

lemma percentages_keys: "map fst (percentages col) = map fst (value_counts col)"
  by (simp add: percentages_def case_prod_unfold comp_def)

lemma sum_list_abs_diff:
  "(\<And>x. x \<in> set xs \<Longrightarrow> \<bar>f x - g x\<bar> \<le> h x) \<Longrightarrow>
   \<bar>sum_list (map f xs) - sum_list (map g xs)\<bar> \<le> sum_list (map h xs)"
  for f g h :: "'a \<Rightarrow> rat"
proof (induction xs)
  case Nil
  then show ?case by simp
next
  case (Cons x xs)
  have "\<bar>f x - g x\<bar> \<le> h x" using Cons.prems by simp
  moreover have "\<bar>sum_list (map f xs) - sum_list (map g xs)\<bar> \<le> sum_list (map h xs)"
    using Cons.prems by (intro Cons.IH) simp
  ultimately show ?case by simp
qed

lemma sum_list_divide:
  "sum_list (map (\<lambda>x. f x / c) xs) = sum_list (map f xs) / c" for f :: "'a \<Rightarrow> rat"
  by (induction xs) (simp_all add: add_divide_distrib)

lemma exact_percent_sum:
  assumes "col \<noteq> []"
  shows "(\<Sum>v \<leftarrow> map fst (value_counts col). exact_percent col v) = 100"
proof -
  have "(\<Sum>v \<leftarrow> map fst (value_counts col). exact_percent col v) =
        (\<Sum>(v, n) \<leftarrow> value_counts col. (of_nat n / of_nat (length col) * 100 :: rat))"
    using value_counts_counts [of col]
    by (intro arg_cong [where f = sum_list]) (auto simp: exact_percent_def comp_def)
  then show ?thesis using exact_percentages_sum [OF assms] by simp
qed

lemma percentages_sum_error:
  assumes "col \<noteq> []"
  shows "\<bar>sum_list (map snd (percentages col)) - 100\<bar> \<le> 100 / 2 ^ 51"
proof -
  let ?vc = "value_counts col"
  have "\<bar>sum_list (map (\<lambda>(v, n). percent n (length col)) ?vc) -
         sum_list (map (\<lambda>(v, n). exact_percent col v) ?vc)\<bar> \<le>
        sum_list (map (\<lambda>(v, n). exact_percent col v / 2 ^ 51) ?vc)"
  proof (rule sum_list_abs_diff)
    fix x assume x: "x \<in> set ?vc"
    then have "(fst x, percent (snd x) (length col)) \<in> set (percentages col)"
      by (force simp: percentages_def)
    from percentages_error [OF this] x value_counts_counts [of col]
    show "\<bar>(case x of (v, n) \<Rightarrow> percent n (length col)) - (case x of (v, n) \<Rightarrow> exact_percent col v)\<bar>
          \<le> (case x of (v, n) \<Rightarrow> exact_percent col v / 2 ^ 51)"
      by (cases x) auto
  qed
  moreover have "sum_list (map (\<lambda>(v, n). percent n (length col)) ?vc) =
                 sum_list (map snd (percentages col))"
    by (simp add: percentages_def comp_def case_prod_unfold)
  moreover have "sum_list (map (\<lambda>(v, n). exact_percent col v) ?vc) = 100"
    using exact_percent_sum [OF assms] by (simp add: comp_def case_prod_unfold)
  moreover have "sum_list (map (\<lambda>(v, n). exact_percent col v / 2 ^ 51) ?vc) = 100 / 2 ^ 51"
  proof -
    have "sum_list (map (\<lambda>(v, n). exact_percent col v / 2 ^ 51) ?vc) =
          sum_list (map (\<lambda>(v, n). exact_percent col v) ?vc) / 2 ^ 51"
      using sum_list_divide [of "\<lambda>(v, n). exact_percent col v" "2 ^ 51" ?vc]
      by (simp add: case_prod_unfold)
    then show ?thesis
      using exact_percent_sum [OF assms] by (simp add: comp_def case_prod_unfold)
  qed
  ultimately show ?thesis by simp
qed

lemma percentages_of_analyze_experience:
  "Percentages_printed st ps \<in> set (fst (analyze_experience world df)) \<Longrightarrow>
   st = Experience_analysis \<and> ps = percentages (df_experience df)"
  by (auto simp: analyze_experience_def and_then_def emit_def lib_call_def Let_def
      split: option.splits)

lemma percentages_of_analyze_salary:
  "Percentages_printed st ps \<in> set (fst (analyze_salary world df)) \<Longrightarrow>
   st = Salary_analysis \<and> ps = percentages (df_salaries df)"
  by (auto simp: analyze_salary_def and_then_def emit_def lib_call_def Let_def
      split: option.splits)

lemma percentages_of_clean_and_analyze_locations:
  "Percentages_printed st ps \<in> set (fst (clean_and_analyze_locations world df)) \<Longrightarrow>
   st = Location_analysis \<and> (\<exists>col. cleaned_locations df = Inr col \<and> ps = percentages (dropna col))"
  by (auto simp: clean_and_analyze_locations_def and_then_def emit_def lib_call_def Let_def
      split: option.splits sum.splits)

lemma percentages_of_analyze_skills:
  "Percentages_printed st ps \<notin> set (fst (analyze_skills world df))"
  by (auto simp: analyze_skills_def and_then_def emit_def lib_call_def Let_def
      split: option.splits)

lemma percentages_of_analysis:
  assumes "Percentages_printed st ps \<in> set (analysis_events world df)"
  shows "st \<in> {Experience_analysis, Salary_analysis, Location_analysis} \<and>
         ps = percentages (analysed_column st df)"
proof -
  from assms consider
      "Percentages_printed st ps \<in> set (fst (analyze_experience world df))"
    | "Percentages_printed st ps \<in> set (fst (analyze_salary world df))"
    | "Percentages_printed st ps \<in> set (fst (clean_and_analyze_locations world df))"
    using percentages_of_analyze_skills [of st ps world df]
    by (auto simp: analysis_events_def)
  then show ?thesis
  proof cases
    case 1
    from percentages_of_analyze_experience [OF 1] show ?thesis by simp
  next
    case 2
    from percentages_of_analyze_salary [OF 2] show ?thesis by simp
  next
    case 3
    from percentages_of_clean_and_analyze_locations [OF 3] show ?thesis by auto
  qed
qed

text \<open>
  Claim C3, as the code has it. \<open>analyze_experience\<close> prints the percentages of the
  experience column and \<open>analyze_salary\<close> those of the salaries column, whatever the
  plotting does afterwards; \<open>clean_and_analyze_locations\<close> prints those of the normalized
  locations when no cell of the location column is an empty list, as is the case in every
  frame that \<open>process_job_data\<close> returns. The percentages are
  computed in double precision: for every non-empty analysed column (experience,
  salaries, normalized locations) the percentage printed for a distinct value is its
  frequency count divided by the number of rows and then multiplied by 100, each of the
  two operations rounded to the nearest double. It differs from the exact quotient times
  100 by at most the fraction \<open>1 / 2 ^ 51\<close> of it. The exact percentages of the distinct
  values sum to exactly 100; the printed ones sum to 100 up to an error of at most
  \<open>100 / 2 ^ 51\<close>.
\<close>

theorem printed_percentages_are_rounded:
  "Percentages_printed Experience_analysis (percentages (df_experience df))
     \<in> set (fst (analyze_experience world df)) \<and>
   Percentages_printed Salary_analysis (percentages (df_salaries df))
     \<in> set (fst (analyze_salary world df)) \<and>
   ([] \<notin> set (df_locations df) \<longrightarrow>
      Percentages_printed Location_analysis
        (percentages (map normalize_location (concat (df_locations df))))
        \<in> set (fst (clean_and_analyze_locations world df)) \<and>
      analysed_column Location_analysis df =
        map normalize_location (concat (df_locations df))) \<and>
   (process_job_data jobs_data = Inr df \<longrightarrow> [] \<notin> set (df_locations df)) \<and>
   (Percentages_printed st ps \<in> set (analysis_events world df) \<and>
    analysed_column st df \<noteq> [] \<longrightarrow>
      st \<in> {Experience_analysis, Salary_analysis, Location_analysis} \<and>
      map fst ps = map fst (value_counts (analysed_column st df)) \<and>
      (\<forall>(v, p) \<in> set ps.
         p = round64 (round64 (of_nat (length (filter (\<lambda>x. x = v) (analysed_column st df))) /
                               of_nat (length (analysed_column st df))) * 100) \<and>
         \<bar>p - exact_percent (analysed_column st df) v\<bar> \<le>
           exact_percent (analysed_column st df) v / 2 ^ 51) \<and>
      (\<Sum>v \<leftarrow> map fst ps. exact_percent (analysed_column st df) v) = 100 \<and>
      \<bar>sum_list (map snd ps) - 100\<bar> \<le> 100 / 2 ^ 51)"
proof -
  let ?col = "analysed_column st df"
  have loc: "[] \<notin> set (df_locations df) \<longrightarrow>
      Percentages_printed Location_analysis
        (percentages (map normalize_location (concat (df_locations df))))
        \<in> set (fst (clean_and_analyze_locations world df)) \<and>
      analysed_column Location_analysis df =
        map normalize_location (concat (df_locations df))"
    using clean_and_analyze_locations_prints(2) [of df world] normalized_locations [of df]
    by blast
  have rounded: "Percentages_printed st ps \<in> set (analysis_events world df) \<and> ?col \<noteq> [] \<longrightarrow>
      st \<in> {Experience_analysis, Salary_analysis, Location_analysis} \<and>
      map fst ps = map fst (value_counts ?col) \<and>
      (\<forall>(v, p) \<in> set ps.
         p = round64 (round64 (of_nat (length (filter (\<lambda>x. x = v) ?col)) /
                               of_nat (length ?col)) * 100) \<and>
         \<bar>p - exact_percent ?col v\<bar> \<le> exact_percent ?col v / 2 ^ 51) \<and>
      (\<Sum>v \<leftarrow> map fst ps. exact_percent ?col v) = 100 \<and>
      \<bar>sum_list (map snd ps) - 100\<bar> \<le> 100 / 2 ^ 51"
  proof
    assume a: "Percentages_printed st ps \<in> set (analysis_events world df) \<and> ?col \<noteq> []"
    then have a1: "Percentages_printed st ps \<in> set (analysis_events world df)"
      and a2: "?col \<noteq> []" by blast+
    from percentages_of_analysis [OF a1] have
      st: "st \<in> {Experience_analysis, Salary_analysis, Location_analysis}" and
      ps: "ps = percentages ?col" by blast+
    have keys: "map fst ps = map fst (value_counts ?col)"
      unfolding ps by (rule percentages_keys)
    have each: "\<forall>(v, p) \<in> set ps.
              p = round64 (round64 (of_nat (length (filter (\<lambda>x. x = v) ?col)) /
                                    of_nat (length ?col)) * 100) \<and>
              \<bar>p - exact_percent ?col v\<bar> \<le> exact_percent ?col v / 2 ^ 51"
      unfolding ps using percentages_error [of _ _ ?col]
      by (auto simp: percent_def frequency_def)
    have exact: "(\<Sum>v \<leftarrow> map fst ps. exact_percent ?col v) = 100"
      unfolding keys by (rule exact_percent_sum [OF a2])
    have total: "\<bar>sum_list (map snd ps) - 100\<bar> \<le> 100 / 2 ^ 51"
      unfolding ps by (rule percentages_sum_error [OF a2])
    from st keys each exact total
    show "st \<in> {Experience_analysis, Salary_analysis, Location_analysis} \<and>
      map fst ps = map fst (value_counts ?col) \<and>
      (\<forall>(v, p) \<in> set ps.
         p = round64 (round64 (of_nat (length (filter (\<lambda>x. x = v) ?col)) /
                               of_nat (length ?col)) * 100) \<and>
         \<bar>p - exact_percent ?col v\<bar> \<le> exact_percent ?col v / 2 ^ 51) \<and>
      (\<Sum>v \<leftarrow> map fst ps. exact_percent ?col v) = 100 \<and>
      \<bar>sum_list (map snd ps) - 100\<bar> \<le> 100 / 2 ^ 51"
      by blast
  qed
  have made: "process_job_data jobs_data = Inr df \<longrightarrow> [] \<notin> set (df_locations df)"
    using process_job_data_cells [of jobs_data df] by blast
  from analyze_experience_prints(2) [of df world] analyze_salary_prints(2) [of df world]
    loc made rounded
  show ?thesis by (intro conjI)
qed

theorem printed_percentages_are_rounded_witness:
  "process_job_data raw_rows = Inr clean_rows \<and> [] \<notin> set (df_locations clean_rows) \<and>
   [] \<notin> set (df_locations three_jobs) \<and>
   Percentages_printed Experience_analysis
     [(''2-5'', 2345624805922133 / 35184372088832), (''0-1'', 2345624805922133 / 70368744177664)]
     \<in> set (fst (analyze_experience calm three_jobs)) \<and>
   Percentages_printed Salary_analysis
     [(''3-5'', 2345624805922133 / 70368744177664), (''na'', 2345624805922133 / 70368744177664),
      (''6-9'', 2345624805922133 / 70368744177664)]
     \<in> set (fst (analyze_salary calm three_jobs)) \<and>
   Percentages_printed Location_analysis
     [(''delhi'', 25), (''mumbai'', 25), (''bengaluru'', 25), (''pune'', 25)]
     \<in> set (fst (clean_and_analyze_locations calm three_jobs)) \<and>
   analysed_column Experience_analysis three_jobs \<noteq> [] \<and>
   analysed_column Salary_analysis three_jobs \<noteq> [] \<and>
   analysed_column Location_analysis three_jobs \<noteq> [] \<and>
   \<bar>sum_list (map snd [(''2-5'', 2345624805922133 / 35184372088832 :: rat),
                        (''0-1'', 2345624805922133 / 70368744177664)]) - 100\<bar> \<le> 100 / 2 ^ 51 \<and>
   \<bar>sum_list (map snd [(''3-5'', 2345624805922133 / 70368744177664 :: rat),
                        (''na'', 2345624805922133 / 70368744177664),
                        (''6-9'', 2345624805922133 / 70368744177664)]) - 100\<bar> \<le> 100 / 2 ^ 51 \<and>
   \<bar>sum_list (map snd [(''delhi'', 25 :: rat), (''mumbai'', 25), (''bengaluru'', 25),
                        (''pune'', 25)]) - 100\<bar> \<le> 100 / 2 ^ 51"
proof -
  note t = printed_percentages_are_rounded [of three_jobs calm]
  have l: "[] \<notin> set (df_locations three_jobs)"
    by (simp add: three_jobs_def)
  have p: "process_job_data raw_rows = Inr clean_rows"
    by code_simp
  from printed_percentages_are_rounded [of clean_rows calm raw_rows] p
  have m: "[] \<notin> set (df_locations clean_rows)"
    by blast
  have v1: "percentages (df_experience three_jobs) =
      [(''2-5'', 2345624805922133 / 35184372088832), (''0-1'', 2345624805922133 / 70368744177664)]"
    by code_simp
  have v2: "percentages (df_salaries three_jobs) =
      [(''3-5'', 2345624805922133 / 70368744177664), (''na'', 2345624805922133 / 70368744177664),
       (''6-9'', 2345624805922133 / 70368744177664)]"
    by code_simp
  have v3: "map normalize_location (concat (df_locations three_jobs)) =
              [''delhi'', ''mumbai'', ''bengaluru'', ''pune'']"
    by code_simp
  have v4: "percentages [''delhi'', ''mumbai'', ''bengaluru'', ''pune''] =
              [(''delhi'', 25), (''mumbai'', 25), (''bengaluru'', 25), (''pune'', 25)]"
    by code_simp
  have c1: "analysed_column Experience_analysis three_jobs \<noteq> []"
    by (simp add: three_jobs_def)
  have c2: "analysed_column Salary_analysis three_jobs \<noteq> []"
    by (simp add: three_jobs_def)
  have e: "Percentages_printed Experience_analysis
      [(''2-5'', 2345624805922133 / 35184372088832), (''0-1'', 2345624805922133 / 70368744177664)]
      \<in> set (fst (analyze_experience calm three_jobs))"
    using t [THEN conjunct1] by (simp only: v1)
  have s: "Percentages_printed Salary_analysis
      [(''3-5'', 2345624805922133 / 70368744177664), (''na'', 2345624805922133 / 70368744177664),
       (''6-9'', 2345624805922133 / 70368744177664)]
      \<in> set (fst (analyze_salary calm three_jobs))"
    using t [THEN conjunct2, THEN conjunct1] by (simp only: v2)
  have lo: "Percentages_printed Location_analysis
             [(''delhi'', 25), (''mumbai'', 25), (''bengaluru'', 25), (''pune'', 25)]
             \<in> set (fst (clean_and_analyze_locations calm three_jobs)) \<and>
           analysed_column Location_analysis three_jobs =
             [''delhi'', ''mumbai'', ''bengaluru'', ''pune'']"
    using t [THEN conjunct2, THEN conjunct2, THEN conjunct1, rule_format, OF l]
    by (simp only: v3 v4)
  then have c3: "analysed_column Location_analysis three_jobs \<noteq> []" by simp
  from e have ae: "Percentages_printed Experience_analysis
      [(''2-5'', 2345624805922133 / 35184372088832), (''0-1'', 2345624805922133 / 70368744177664)]
      \<in> set (analysis_events calm three_jobs)"
    by (simp add: analysis_events_def)
  from s have as: "Percentages_printed Salary_analysis
      [(''3-5'', 2345624805922133 / 70368744177664), (''na'', 2345624805922133 / 70368744177664),
       (''6-9'', 2345624805922133 / 70368744177664)]
      \<in> set (analysis_events calm three_jobs)"
    by (simp add: analysis_events_def)
  from lo have al: "Percentages_printed Location_analysis
             [(''delhi'', 25), (''mumbai'', 25), (''bengaluru'', 25), (''pune'', 25)]
             \<in> set (analysis_events calm three_jobs)"
    by (simp add: analysis_events_def)
  from t [THEN conjunct2, THEN conjunct2, THEN conjunct2, THEN conjunct2, rule_format, OF conjI [OF ae c1]]
  have g1: "\<bar>sum_list (map snd [(''2-5'', 2345624805922133 / 35184372088832 :: rat),
                        (''0-1'', 2345624805922133 / 70368744177664)]) - 100\<bar> \<le> 100 / 2 ^ 51"
    by blast
  from t [THEN conjunct2, THEN conjunct2, THEN conjunct2, THEN conjunct2, rule_format, OF conjI [OF as c2]]
  have g2: "\<bar>sum_list (map snd [(''3-5'', 2345624805922133 / 70368744177664 :: rat),
                        (''na'', 2345624805922133 / 70368744177664),
                        (''6-9'', 2345624805922133 / 70368744177664)]) - 100\<bar> \<le> 100 / 2 ^ 51"
    by blast
  from t [THEN conjunct2, THEN conjunct2, THEN conjunct2, THEN conjunct2, rule_format, OF conjI [OF al c3]]
  have g3: "\<bar>sum_list (map snd [(''delhi'', 25 :: rat), (''mumbai'', 25), (''bengaluru'', 25),
                        (''pune'', 25)]) - 100\<bar> \<le> 100 / 2 ^ 51"
    by blast
  from p m l e s lo c1 c2 c3 g1 g2 g3 show ?thesis by blast
qed

text \<open>
  Claim C3 as stated fails: with three rows holding three different values each
  percentage printed is the double \<open>33.33333333333333\<close>, which is not a third of 100, and
  the three printed percentages do not sum to 100, neither exactly nor when added in
  double precision.
\<close>

theorem percentages_not_exact:
  "Percentages_printed Experience_analysis
     [(''0-1'', 2345624805922133 / 70368744177664),
      (''2-5'', 2345624805922133 / 70368744177664),
      (''5-8'', 2345624805922133 / 70368744177664)]
     \<in> set (fst (analyze_experience calm three_levels)) \<and>
   exact_percent (df_experience three_levels) ''0-1'' = 100 / 3 \<and>
   (2345624805922133 / 70368744177664 :: rat) \<noteq> 100 / 3 \<and>
   (2345624805922133 / 70368744177664 + 2345624805922133 / 70368744177664 +
      2345624805922133 / 70368744177664 :: rat) \<noteq> 100 \<and>
   round64 (round64 (2345624805922133 / 70368744177664 + 2345624805922133 / 70368744177664) +
      2345624805922133 / 70368744177664) \<noteq> 100"
  by code_simp

section \<open>Properties of the run\<close>

lemma and_then_Inl [simp]: "and_then (evs, Inl e) f = (evs, Inl e)"
  by (simp add: and_then_def)

lemma and_then_Inr [simp]: "and_then (evs, Inr x) f = (evs @ fst (f x), snd (f x))"
  by (simp add: and_then_def split: prod.splits)

lemma stage_trace_append [simp]: "stage_trace (a @ b) = stage_trace a @ stage_trace b"
  by (simp add: stage_trace_def)

lemma stage_trace_Nil [simp]: "stage_trace [] = []"
  by (simp add: stage_trace_def)

lemma stage_trace_to_csv [simp]: "stage_trace (fst (to_csv world df)) = []"
  by (simp add: to_csv_def lib_call_def emit_def stage_trace_def split: option.splits)

lemma stage_trace_analyze_experience [simp]:
  "stage_trace (fst (analyze_experience world df)) = []"
  by (simp add: analyze_experience_def lib_call_def emit_def stage_trace_def Let_def
      split: option.splits)

lemma stage_trace_analyze_salary [simp]:
  "stage_trace (fst (analyze_salary world df)) = []"
  by (simp add: analyze_salary_def lib_call_def emit_def stage_trace_def Let_def
      split: option.splits)

lemma stage_trace_clean_and_analyze_locations [simp]:
  "stage_trace (fst (clean_and_analyze_locations world df)) = []"
  by (cases "cleaned_locations df")
    (simp_all add: clean_and_analyze_locations_def lib_call_def emit_def stage_trace_def Let_def
      split: option.splits)

lemma stage_trace_analyze_skills [simp]:
  "stage_trace (fst (analyze_skills world df)) = []"
  by (simp add: analyze_skills_def lib_call_def emit_def stage_trace_def Let_def
      split: option.splits)

lemma stage_trace_staged:
  "stage_trace (fst m) = [] \<Longrightarrow>
   stage_trace (fst (staged st a res m)) = stage_then st a res (snd m) (\<lambda>_. [])"
  by (cases m) (auto simp: staged_def stage_trace_def stage_then_def split: sum.splits)

lemma stage_trace_and_then_staged:
  "stage_trace (fst m) = [] \<Longrightarrow>
   stage_trace (fst (and_then (staged st a res m) f)) =
     stage_then st a res (snd m) (\<lambda>x. stage_trace (fst (f x)))"
  by (cases m) (auto simp: staged_def stage_trace_def stage_then_def split: sum.splits)

text \<open>The stage events of the pipeline, written out.\<close>

lemma stage_trace_pipeline:
  "stage_trace (fst (pipeline world)) =
     stage_then Scraping (Page_count num_pages) Raw_jobs
       (scrape_naukri_jobs (web_site world) num_pages) (\<lambda>jobs_data.
     if job_no jobs_data = [] then []
     else
       stage_then Cleaning (Raw_jobs jobs_data) Cleaned_frame (process_job_data jobs_data) (\<lambda>df_raw.
       stage_then Csv_output (Cleaned_frame df_raw) (\<lambda>_. No_value) (snd (to_csv world df_raw)) (\<lambda>_.
       stage_then Experience_analysis (Cleaned_frame df_raw) (\<lambda>_. No_value)
         (snd (analyze_experience world df_raw)) (\<lambda>_.
       stage_then Salary_analysis (Cleaned_frame df_raw) (\<lambda>_. No_value)
         (snd (analyze_salary world df_raw)) (\<lambda>_.
       stage_then Location_analysis (Cleaned_frame df_raw) (\<lambda>_. No_value)
         (snd (clean_and_analyze_locations world df_raw)) (\<lambda>_.
       stage_then Skill_analysis (Cleaned_frame df_raw) (\<lambda>_. No_value)
         (snd (analyze_skills world df_raw)) (\<lambda>_. [])))))))"
  unfolding pipeline_def
  by (simp add: stage_trace_and_then_staged stage_trace_staged if_distrib [of fst]
      if_distrib [of stage_trace] cong: if_cong)

lemma stage_trace_initialize_driver [simp]:
  "stage_trace (fst (initialize_driver world)) = []"
  by (simp add: initialize_driver_def lib_call_def emit_def stage_trace_def
      split: option.splits)

lemma stage_trace_main:
  "stage_trace (fst (main world)) =
     (if snd (initialize_driver world) = Inr () then stage_trace (fst (pipeline world)) else [])"
proof (cases "initialize_driver world")
  case (Pair evs r)
  then have t: "stage_trace evs = []"
    using stage_trace_initialize_driver [of world] by simp
  show ?thesis
  proof (cases r)
    case (Inl e)
    with Pair t show ?thesis
      by (simp add: main_def main_try_def stage_trace_def)
  next
    case (Inr u)
    with Pair t show ?thesis
      by (cases "pipeline world")
        (auto simp: main_def main_try_def stage_trace_def Let_def split: sum.splits)
  qed
qed

lemma called_in_stage_trace:
  "Called st a \<in> set evs \<longleftrightarrow> Called st a \<in> set (stage_trace evs)"
  by (simp add: stage_trace_def)

lemma returned_in_stage_trace:
  "Returned st a \<in> set evs \<longleftrightarrow> Returned st a \<in> set (stage_trace evs)"
  by (simp add: stage_trace_def)

lemma pipeline_shape_pipeline:
  "pipeline_shape all_stages (stage_trace (fst (pipeline world)))"
  by (simp add: stage_trace_pipeline all_stages_def stage_then_def split: sum.splits)

lemma cleaning_fed_by_scraping:
  "Called Cleaning a \<in> set (stage_trace (fst (pipeline world))) \<Longrightarrow>
   Returned Scraping a \<in> set (stage_trace (fst (pipeline world)))"
  by (auto simp: stage_trace_pipeline stage_then_def split: sum.splits if_splits)

lemma later_fed_by_cleaning:
  "Called st a \<in> set (stage_trace (fst (pipeline world))) \<Longrightarrow> st \<noteq> Scraping \<Longrightarrow>
   st \<noteq> Cleaning \<Longrightarrow> Returned Cleaning a \<in> set (stage_trace (fst (pipeline world)))"
  by (auto simp: stage_trace_pipeline stage_then_def split: sum.splits if_splits)

lemma scraping_argument:
  "Called Scraping a \<in> set (stage_trace (fst (pipeline world))) \<Longrightarrow> a = Page_count num_pages"
  by (auto simp: stage_trace_pipeline stage_then_def split: sum.splits if_splits)

lemma returned_scraping:
  "Returned Scraping a \<in> set (stage_trace (fst (pipeline world))) \<Longrightarrow>
   \<exists>js. a = Raw_jobs js \<and> scrape_naukri_jobs (web_site world) num_pages = Inr js"
  by (auto simp: stage_trace_pipeline stage_then_def split: sum.splits if_splits)

lemma returned_cleaning:
  "Returned Cleaning a \<in> set (stage_trace (fst (pipeline world))) \<Longrightarrow>
   \<exists>js df. a = Cleaned_frame df \<and> process_job_data js = Inr df \<and>
     scrape_naukri_jobs (web_site world) num_pages = Inr js"
  by (auto simp: stage_trace_pipeline stage_then_def split: sum.splits if_splits)

lemma pipeline_shape_Nil: "pipeline_shape sts []"
  by simp

text \<open>
  Claim C5, as the code has it. Every run is a linear pipeline: the stage functions are
  called in the order scraping, cleaning, CSV output, experience, salary, location and
  skill analysis; each returns before the next is called; a stage that raises is the last
  one called. Scraping is given the page count; cleaning is given exactly the dictionary
  that scraping returned; the CSV output and each of the four analyses are given exactly
  the frame that cleaning returned (not the value returned by the stage just before
  them).
\<close>

theorem main_is_linear_pipeline:
  "pipeline_shape all_stages (stage_trace (fst (main world))) \<and>
   (\<forall>a. Called Scraping a \<in> set (fst (main world)) \<longrightarrow> a = Page_count num_pages) \<and>
   (\<forall>a. Returned Scraping a \<in> set (fst (main world)) \<longrightarrow>
      (\<exists>js. a = Raw_jobs js \<and> scrape_naukri_jobs (web_site world) num_pages = Inr js)) \<and>
   (\<forall>a. Called Cleaning a \<in> set (fst (main world)) \<longrightarrow>
      Returned Scraping a \<in> set (fst (main world))) \<and>
   (\<forall>a. Returned Cleaning a \<in> set (fst (main world)) \<longrightarrow>
      (\<exists>js df. a = Cleaned_frame df \<and> process_job_data js = Inr df \<and>
         scrape_naukri_jobs (web_site world) num_pages = Inr js)) \<and>
   (\<forall>st a. Called st a \<in> set (fst (main world)) \<and> st \<noteq> Scraping \<and> st \<noteq> Cleaning \<longrightarrow>
      Returned Cleaning a \<in> set (fst (main world)))"
proof (cases "snd (initialize_driver world) = Inr ()")
  case True
  then have t: "stage_trace (fst (main world)) = stage_trace (fst (pipeline world))"
    by (simp add: stage_trace_main)
  show ?thesis
    unfolding called_in_stage_trace [of _ _ "fst (main world)"]
      returned_in_stage_trace [of _ _ "fst (main world)"] t
    using pipeline_shape_pipeline [of world] scraping_argument [of _ world]
      returned_scraping [of _ world] cleaning_fed_by_scraping [of _ world]
      returned_cleaning [of _ world] later_fed_by_cleaning [of _ _ world]
    by blast
next
  case False
  then have t: "stage_trace (fst (main world)) = []"
    by (simp add: stage_trace_main)
  show ?thesis
    unfolding called_in_stage_trace [of _ _ "fst (main world)"]
      returned_in_stage_trace [of _ _ "fst (main world)"] t
    by simp
qed

theorem main_is_linear_pipeline_witness:
  "Called Scraping (Page_count 1) \<in> set (fst (main calm)) \<and>
   Returned Scraping (Raw_jobs example_jobs) \<in> set (fst (main calm)) \<and>
   Called Cleaning (Raw_jobs example_jobs) \<in> set (fst (main calm)) \<and>
   Returned Cleaning (Cleaned_frame example_frame) \<in> set (fst (main calm)) \<and>
   Called Skill_analysis (Cleaned_frame example_frame) \<in> set (fst (main calm)) \<and>
   Skill_analysis \<noteq> Scraping \<and> Skill_analysis \<noteq> Cleaning \<and>
   pipeline_shape all_stages (stage_trace (fst (main calm)))"
proof -
  have a: "Called Scraping (Page_count 1) \<in> set (fst (main calm))"
    and b: "Called Cleaning (Raw_jobs example_jobs) \<in> set (fst (main calm))"
    and c: "Called Skill_analysis (Cleaned_frame example_frame) \<in> set (fst (main calm))"
    by code_simp+
  from main_is_linear_pipeline [of calm] b have
    "Returned Scraping (Raw_jobs example_jobs) \<in> set (fst (main calm))" by blast
  moreover from main_is_linear_pipeline [of calm] c have
    "Returned Cleaning (Cleaned_frame example_frame) \<in> set (fst (main calm))" by blast
  moreover from main_is_linear_pipeline [of calm] have
    "pipeline_shape all_stages (stage_trace (fst (main calm)))" by blast
  ultimately show ?thesis using a b c by simp
qed

text \<open>
  Claim C5 as stated fails in its data-flow part: in a run where nothing raises, the CSV
  output returns no value, and the experience analysis that follows it is given the
  cleaned frame; likewise each later analysis.
\<close>

theorem analysis_not_fed_by_csv_output:
  "\<not> feeds_next (stage_trace (fst (main calm))) \<and>
   stage_trace (fst (main calm)) ! 5 = Returned Csv_output No_value \<and>
   stage_trace (fst (main calm)) ! 6 = Called Experience_analysis (Cleaned_frame example_frame)"
  by code_simp

lemma quiet_and_then:
  assumes "filter browser_event (fst m) = []"
    and "\<And>x. filter browser_event (fst (f x)) = []"
  shows "filter browser_event (fst (and_then m f)) = []"
proof (cases m)
  case (Pair evs r)
  with assms show ?thesis by (cases r) simp_all
qed

lemma quiet_staged:
  assumes "filter browser_event (fst m) = []"
  shows "filter browser_event (fst (staged st a res m)) = []"
  using assms by (cases m) (auto simp: staged_def split: sum.splits)

lemma quiet_lib_call [simp]: "filter browser_event (fst (lib_call failure)) = []"
  by (simp add: lib_call_def split: option.splits)

lemma quiet_to_csv: "filter browser_event (fst (to_csv world df)) = []"
  by (simp add: to_csv_def emit_def quiet_and_then)

lemma quiet_analyze_experience: "filter browser_event (fst (analyze_experience world df)) = []"
  by (simp add: analyze_experience_def emit_def Let_def quiet_and_then)

lemma quiet_analyze_salary: "filter browser_event (fst (analyze_salary world df)) = []"
  by (simp add: analyze_salary_def emit_def Let_def quiet_and_then)

lemma quiet_clean_and_analyze_locations:
  "filter browser_event (fst (clean_and_analyze_locations world df)) = []"
  by (simp add: clean_and_analyze_locations_def emit_def Let_def quiet_and_then)

lemma quiet_analyze_skills: "filter browser_event (fst (analyze_skills world df)) = []"
  by (simp add: analyze_skills_def emit_def Let_def quiet_and_then)

lemma quiet_pipeline: "filter browser_event (fst (pipeline world)) = []"
  unfolding pipeline_def
  by (intro quiet_and_then quiet_staged quiet_to_csv quiet_analyze_experience
      quiet_analyze_salary quiet_clean_and_analyze_locations quiet_analyze_skills)
    (simp_all add: quiet_and_then quiet_staged quiet_to_csv quiet_analyze_experience
      quiet_analyze_salary quiet_clean_and_analyze_locations quiet_analyze_skills)

text \<open>
  On every path on which \<open>initialize_driver\<close> returns, the run opens the browser session
  once and quits it once, as its last action; and no run opens more than one session.
\<close>

lemma main_quits_assigned_driver:
  "filter browser_event (fst (main world)) =
     (if snd (initialize_driver world) = Inr () then [Chrome_started, Driver_quit]
      else if chrome_fails world = None then [Chrome_started]
      else [])"
proof -
  obtain evs r where p: "pipeline world = (evs, r)" by (cases "pipeline world")
  with quiet_pipeline [of world] have q: "filter browser_event evs = []" by simp
  show ?thesis
    using q
    by (auto simp: main_def main_try_def initialize_driver_def lib_call_def emit_def p Let_def
        split: option.splits sum.splits)
qed

text \<open>
  Claim C4 against the code: when \<open>webdriver.Chrome()\<close> succeeds and
  \<open>driver.maximize_window()\<close> raises inside \<open>initialize_driver\<close>, the variable \<open>driver\<close>
  of \<open>main\<close> is still \<open>None\<close> in the \<open>finally\<close> clause: the session has been opened and
  the run ends without \<open>driver.quit()\<close>.
\<close>

theorem session_left_open:
  "main maximize_breaks = ([Chrome_started, Error_printed WebDriverException], None) \<and>
   filter browser_event (fst (main maximize_breaks)) = [Chrome_started]"
  by (simp add: main_def main_try_def initialize_driver_def lib_call_def emit_def
      maximize_breaks_def calm_def)

lemma scrape_same_lengths:
  assumes "scrape_naukri_jobs site n = Inr js"
  shows "same_lengths js"
proof -
  from assms obtain m where "all_lengths js m"
    unfolding scrape_naukri_jobs_def
    using scrape_pages_lengths [OF _ all_lengths_empty_jobs] by blast
  then show ?thesis by (simp add: same_lengths_def all_lengths_def)
qed

lemma process_job_data_total:
  "same_lengths js \<Longrightarrow> job_no js \<noteq> [] \<Longrightarrow> \<exists>df. process_job_data js = Inr df"
  by (simp add: process_job_data_def Let_def)

lemma events_of_clean_and_analyze_locations:
  assumes "[] \<notin> set (df_locations df)"
  shows "\<exists>n. fst (clean_and_analyze_locations world df) =
           take n
             [Counts_printed Location_analysis
                (value_counts (map normalize_location (concat (df_locations df)))),
              Percentages_printed Location_analysis
                (percentages (map normalize_location (concat (df_locations df)))),
              Bar_chart_saved ''job_location_counts.png''
                (value_counts (map normalize_location (concat (df_locations df)))),
              Word_cloud_saved ''location_wordcloud.png''
                (join '', '' (map normalize_location (concat (df_locations df))))]"
proof -
  let ?all = "[Counts_printed Location_analysis
                (value_counts (map normalize_location (concat (df_locations df)))),
              Percentages_printed Location_analysis
                (percentages (map normalize_location (concat (df_locations df)))),
              Bar_chart_saved ''job_location_counts.png''
                (value_counts (map normalize_location (concat (df_locations df)))),
              Word_cloud_saved ''location_wordcloud.png''
                (join '', '' (map normalize_location (concat (df_locations df))))]"
  have "fst (clean_and_analyze_locations world df) = take 2 ?all \<or>
        fst (clean_and_analyze_locations world df) = take 3 ?all \<or>
        fst (clean_and_analyze_locations world df) = take 4 ?all"
    by (simp add: clean_and_analyze_locations_def cleaned_locations_nonempty [OF assms]
        emit_def lib_call_def Let_def split: option.splits)
  then show ?thesis by blast
qed

lemma events_of_analyze_skills:
  assumes "[] \<notin> set (df_skills df)"
  shows "\<exists>n. fst (analyze_skills world df) =
           take n
             [Distinct_printed (unique (map Some (concat (df_skills df)))),
              Word_cloud_saved ''skills_wordcloud.png'' (join '', '' (concat (df_skills df)))]"
proof -
  let ?all = "[Distinct_printed (unique (map Some (concat (df_skills df)))),
              Word_cloud_saved ''skills_wordcloud.png'' (join '', '' (concat (df_skills df)))]"
  have "dropna (map Some (concat (df_skills df))) = concat (df_skills df)"
    using dropna_Some [of "\<lambda>x. x"] by simp
  then have "fst (analyze_skills world df) = take 1 ?all \<or>
        fst (analyze_skills world df) = take 2 ?all"
    by (simp add: analyze_skills_def explode_nonempty [OF assms]
        emit_def lib_call_def Let_def split: option.splits)
  then show ?thesis by blast
qed

text \<open>
  Claim C1, as the code has it. On a frame made by \<open>process_job_data\<close>, the location
  analysis first puts every exploded location entry through the two regex helpers
  \<open>replace_location_patterns\<close> and \<open>replace_common_locations\<close>; its counts, percentages,
  bar chart and word cloud are all computed from the entries so normalized. The skill
  analysis applies no such step: its distinct values and its word cloud are made of the
  exploded skill entries as they are.
\<close>

theorem normalization_is_for_locations:
  assumes "process_job_data js = Inr df"
  shows "analysed_column Location_analysis df =
           map (\<lambda>l. replace_common_locations (replace_location_patterns l))
             (concat (df_locations df)) \<and>
         (\<forall>st cs. Counts_printed st cs \<in> set (fst (clean_and_analyze_locations world df)) \<longrightarrow>
            cs = value_counts (analysed_column Location_analysis df)) \<and>
         (\<forall>st ps. Percentages_printed st ps \<in> set (fst (clean_and_analyze_locations world df)) \<longrightarrow>
            ps = percentages (analysed_column Location_analysis df)) \<and>
         (\<forall>name cs. Bar_chart_saved name cs \<in> set (fst (clean_and_analyze_locations world df)) \<longrightarrow>
            cs = value_counts (analysed_column Location_analysis df)) \<and>
         (\<forall>name t. Word_cloud_saved name t \<in> set (fst (clean_and_analyze_locations world df)) \<longrightarrow>
            t = join '', '' (analysed_column Location_analysis df)) \<and>
         (\<forall>ds. Distinct_printed ds \<in> set (fst (analyze_skills world df)) \<longrightarrow>
            ds = unique (map Some (concat (df_skills df)))) \<and>
         (\<forall>name t. Word_cloud_saved name t \<in> set (fst (analyze_skills world df)) \<longrightarrow>
            t = join '', '' (concat (df_skills df)))"
proof -
  from process_job_data_cells [OF assms] have
    l: "[] \<notin> set (df_locations df)" and s: "[] \<notin> set (df_skills df)" by blast+
  have col: "analysed_column Location_analysis df = map normalize_location (concat (df_locations df))"
    by (simp add: cleaned_locations_nonempty [OF l])
  obtain n where n: "fst (clean_and_analyze_locations world df) =
           take n
             [Counts_printed Location_analysis
                (value_counts (map normalize_location (concat (df_locations df)))),
              Percentages_printed Location_analysis
                (percentages (map normalize_location (concat (df_locations df)))),
              Bar_chart_saved ''job_location_counts.png''
                (value_counts (map normalize_location (concat (df_locations df)))),
              Word_cloud_saved ''location_wordcloud.png''
                (join '', '' (map normalize_location (concat (df_locations df))))]"
    using events_of_clean_and_analyze_locations [OF l] by blast
  obtain k where k: "fst (analyze_skills world df) =
           take k
             [Distinct_printed (unique (map Some (concat (df_skills df)))),
              Word_cloud_saved ''skills_wordcloud.png'' (join '', '' (concat (df_skills df)))]"
    using events_of_analyze_skills [OF s] by blast
  have loc: "ev \<in> set (fst (clean_and_analyze_locations world df)) \<Longrightarrow>
     ev \<in> {Counts_printed Location_analysis
                (value_counts (map normalize_location (concat (df_locations df)))),
              Percentages_printed Location_analysis
                (percentages (map normalize_location (concat (df_locations df)))),
              Bar_chart_saved ''job_location_counts.png''
                (value_counts (map normalize_location (concat (df_locations df)))),
              Word_cloud_saved ''location_wordcloud.png''
                (join '', '' (map normalize_location (concat (df_locations df))))}" for ev
    unfolding n by (drule in_set_takeD) simp
  have ski: "ev \<in> set (fst (analyze_skills world df)) \<Longrightarrow>
     ev \<in> {Distinct_printed (unique (map Some (concat (df_skills df)))),
              Word_cloud_saved ''skills_wordcloud.png'' (join '', '' (concat (df_skills df)))}" for ev
    unfolding k by (drule in_set_takeD) simp
  show ?thesis
    unfolding col
    using loc ski by (auto simp: normalize_location_def [abs_def])
qed

theorem normalization_is_for_locations_witness:
  "process_job_data raw_example = Inr clean_example \<and>
   Counts_printed Location_analysis [(''pune'', 1), (''mumbai'', 1)]
     \<in> set (fst (clean_and_analyze_locations calm clean_example)) \<and>
   [(''pune'', 1), (''mumbai'', 1)] = value_counts (analysed_column Location_analysis clean_example) \<and>
   Word_cloud_saved ''skills_wordcloud.png'' ''java, selenium''
     \<in> set (fst (analyze_skills calm clean_example)) \<and>
   ''java, selenium'' = join '', '' (concat (df_skills clean_example))"
proof -
  have p: "process_job_data raw_example = Inr clean_example"
    by code_simp
  have c: "Counts_printed Location_analysis [(''pune'', 1), (''mumbai'', 1)]
     \<in> set (fst (clean_and_analyze_locations calm clean_example))"
    by code_simp
  have w: "Word_cloud_saved ''skills_wordcloud.png'' ''java, selenium''
     \<in> set (fst (analyze_skills calm clean_example))"
    by code_simp
  from normalization_is_for_locations [OF p, of calm] c w p show ?thesis
    by blast
qed

text \<open>
  Claim C1 as stated fails for the skill field: the skill entry \<open>new delhi\<close> is printed
  and drawn as it is, while the location entry \<open>new delhi\<close> is counted as \<open>delhi\<close>.
\<close>

theorem skills_are_not_normalized:
  "analyze_skills calm three_jobs =
     ([Distinct_printed [Some ''java'', Some ''new delhi'', Some ''selenium''],
       Word_cloud_saved ''skills_wordcloud.png'' ''java, new delhi, selenium, java''],
      Inr ()) \<and>
   replace_common_locations (replace_location_patterns ''new delhi'') = ''delhi''"
  by code_simp

text \<open>
  Claim C2, as the code has it. When the scraped dataset is not empty and no library call
  raises (starting and maximizing the browser, writing the CSV file, producing the five
  figures), the run cleans the data, writes the CSV file, prints the counts and the
  percentages of experience, of salary and of the normalized locations, saves a bar chart
  for each of the three and a word cloud of the locations, prints the distinct skills and
  saves a word cloud of the skills, in this order. For the skills it prints neither counts
  nor percentages.
\<close>

theorem main_produces_statistics_and_plots:
  assumes "chrome_fails world = None" and "maximize_fails world = None"
    and "to_csv_fails world = None"
    and "\<forall>name \<in> set figure_names. figure_fails world name = None"
    and "scrape_naukri_jobs (web_site world) num_pages = Inr js"
    and "job_no js \<noteq> []"
  shows "\<exists>df. process_job_data js = Inr df \<and>
     fst (main world) =
       [Chrome_started, Window_maximized,
        Called Scraping (Page_count num_pages), Returned Scraping (Raw_jobs js),
        Called Cleaning (Raw_jobs js), Returned Cleaning (Cleaned_frame df),
        Called Csv_output (Cleaned_frame df), File_written csv_name, Returned Csv_output No_value,
        Called Experience_analysis (Cleaned_frame df),
        Counts_printed Experience_analysis (value_counts (df_experience df)),
        Percentages_printed Experience_analysis (percentages (df_experience df)),
        Bar_chart_saved ''experience_range.png'' (take 10 (value_counts (df_experience df))),
        Returned Experience_analysis No_value,
        Called Salary_analysis (Cleaned_frame df),
        Counts_printed Salary_analysis (value_counts (df_salaries df)),
        Percentages_printed Salary_analysis (percentages (df_salaries df)),
        Bar_chart_saved ''salaries_range.png'' (take 5 (value_counts (df_salaries df))),
        Returned Salary_analysis No_value,
        Called Location_analysis (Cleaned_frame df),
        Counts_printed Location_analysis (value_counts (analysed_column Location_analysis df)),
        Percentages_printed Location_analysis (percentages (analysed_column Location_analysis df)),
        Bar_chart_saved ''job_location_counts.png''
          (value_counts (analysed_column Location_analysis df)),
        Word_cloud_saved ''location_wordcloud.png''
          (join '', '' (analysed_column Location_analysis df)),
        Returned Location_analysis No_value,
        Called Skill_analysis (Cleaned_frame df),
        Distinct_printed (unique (map Some (concat (df_skills df)))),
        Word_cloud_saved ''skills_wordcloud.png'' (join '', '' (concat (df_skills df))),
        Returned Skill_analysis No_value,
        Driver_quit] \<and>
     filter skill_statistic (fst (main world)) = []"
proof -
  from process_job_data_total [OF scrape_same_lengths [OF assms(5)] assms(6)]
  obtain df where df: "process_job_data js = Inr df" by blast
  from process_job_data_cells [OF df] have
    l: "[] \<notin> set (df_locations df)" and s: "[] \<notin> set (df_skills df)" by blast+
  from assms(4) have f:
    "figure_fails world ''experience_range.png'' = None"
    "figure_fails world ''salaries_range.png'' = None"
    "figure_fails world ''job_location_counts.png'' = None"
    "figure_fails world ''location_wordcloud.png'' = None"
    "figure_fails world ''skills_wordcloud.png'' = None"
    by (simp_all add: figure_names_def)
  have init: "initialize_driver world = ([Chrome_started, Window_maximized], Inr ())"
    using assms(1,2) by (simp add: initialize_driver_def lib_call_def emit_def)
  have csv: "to_csv world df = ([File_written csv_name], Inr ())"
    using assms(3) by (simp add: to_csv_def lib_call_def emit_def)
  have ex: "analyze_experience world df =
      ([Counts_printed Experience_analysis (value_counts (df_experience df)),
        Percentages_printed Experience_analysis (percentages (df_experience df)),
        Bar_chart_saved ''experience_range.png'' (take 10 (value_counts (df_experience df)))],
       Inr ())"
    by (simp add: analyze_experience_def lib_call_def emit_def f Let_def)
  have sa: "analyze_salary world df =
      ([Counts_printed Salary_analysis (value_counts (df_salaries df)),
        Percentages_printed Salary_analysis (percentages (df_salaries df)),
        Bar_chart_saved ''salaries_range.png'' (take 5 (value_counts (df_salaries df)))],
       Inr ())"
    by (simp add: analyze_salary_def lib_call_def emit_def f Let_def)
  have col: "analysed_column Location_analysis df = map normalize_location (concat (df_locations df))"
    by (simp add: cleaned_locations_nonempty [OF l])
  have lo: "clean_and_analyze_locations world df =
      ([Counts_printed Location_analysis (value_counts (analysed_column Location_analysis df)),
        Percentages_printed Location_analysis (percentages (analysed_column Location_analysis df)),
        Bar_chart_saved ''job_location_counts.png''
          (value_counts (analysed_column Location_analysis df)),
        Word_cloud_saved ''location_wordcloud.png''
          (join '', '' (analysed_column Location_analysis df))],
       Inr ())"
    unfolding col
    by (simp add: clean_and_analyze_locations_def cleaned_locations_nonempty [OF l]
        lib_call_def emit_def f Let_def)
  have dn: "dropna (map Some (concat (df_skills df))) = concat (df_skills df)"
    using dropna_Some [of "\<lambda>x. x"] by simp
  have sk: "analyze_skills world df =
      ([Distinct_printed (unique (map Some (concat (df_skills df)))),
        Word_cloud_saved ''skills_wordcloud.png'' (join '', '' (concat (df_skills df)))],
       Inr ())"
    by (simp add: analyze_skills_def explode_nonempty [OF s] dn lib_call_def emit_def f Let_def)
  have pipe: "pipeline world =
      ([Called Scraping (Page_count num_pages), Returned Scraping (Raw_jobs js),
        Called Cleaning (Raw_jobs js), Returned Cleaning (Cleaned_frame df),
        Called Csv_output (Cleaned_frame df), File_written csv_name, Returned Csv_output No_value,
        Called Experience_analysis (Cleaned_frame df),
        Counts_printed Experience_analysis (value_counts (df_experience df)),
        Percentages_printed Experience_analysis (percentages (df_experience df)),
        Bar_chart_saved ''experience_range.png'' (take 10 (value_counts (df_experience df))),
        Returned Experience_analysis No_value,
        Called Salary_analysis (Cleaned_frame df),
        Counts_printed Salary_analysis (value_counts (df_salaries df)),
        Percentages_printed Salary_analysis (percentages (df_salaries df)),
        Bar_chart_saved ''salaries_range.png'' (take 5 (value_counts (df_salaries df))),
        Returned Salary_analysis No_value,
        Called Location_analysis (Cleaned_frame df),
        Counts_printed Location_analysis (value_counts (analysed_column Location_analysis df)),
        Percentages_printed Location_analysis (percentages (analysed_column Location_analysis df)),
        Bar_chart_saved ''job_location_counts.png''
          (value_counts (analysed_column Location_analysis df)),
        Word_cloud_saved ''location_wordcloud.png''
          (join '', '' (analysed_column Location_analysis df)),
        Returned Location_analysis No_value,
        Called Skill_analysis (Cleaned_frame df),
        Distinct_printed (unique (map Some (concat (df_skills df)))),
        Word_cloud_saved ''skills_wordcloud.png'' (join '', '' (concat (df_skills df))),
        Returned Skill_analysis No_value],
       Inr ())"
    using assms(6)
    by (simp add: pipeline_def assms(5) df csv ex sa lo sk staged_def
        del: analysed_column.simps)
  have "fst (main world) = [Chrome_started, Window_maximized] @ fst (pipeline world) @ [Driver_quit]"
    by (simp add: main_def main_try_def init pipe)
  with df show ?thesis
    by (simp add: pipe del: analysed_column.simps)
qed

theorem main_produces_statistics_and_plots_witness:
  "chrome_fails calm = None \<and> maximize_fails calm = None \<and> to_csv_fails calm = None \<and>
   figure_fails calm ''experience_range.png'' = None \<and>
   figure_fails calm ''salaries_range.png'' = None \<and>
   figure_fails calm ''job_location_counts.png'' = None \<and>
   figure_fails calm ''location_wordcloud.png'' = None \<and>
   figure_fails calm ''skills_wordcloud.png'' = None \<and>
   scrape_naukri_jobs (web_site calm) num_pages = Inr example_jobs \<and>
   job_no example_jobs \<noteq> [] \<and>
   process_job_data example_jobs = Inr example_frame \<and>
   fst (main calm) ! 12 =
     Bar_chart_saved ''experience_range.png'' (take 10 (value_counts (df_experience example_frame))) \<and>
   fst (main calm) ! 27 =
     Word_cloud_saved ''skills_wordcloud.png'' (join '', '' (concat (df_skills example_frame))) \<and>
   filter skill_statistic (fst (main calm)) = []"
proof -
  have h: "chrome_fails calm = None" "maximize_fails calm = None" "to_csv_fails calm = None"
    "\<forall>name \<in> set figure_names. figure_fails calm name = None"
    by (simp_all add: calm_def)
  have s: "scrape_naukri_jobs (web_site calm) num_pages = Inr example_jobs"
    by code_simp
  have n: "job_no example_jobs \<noteq> []"
    by (simp add: example_jobs_def)
  have p: "process_job_data example_jobs = Inr example_frame"
    by code_simp
  from main_produces_statistics_and_plots [OF h s n] p
  have "fst (main calm) ! 12 =
     Bar_chart_saved ''experience_range.png'' (take 10 (value_counts (df_experience example_frame))) \<and>
   fst (main calm) ! 27 =
     Word_cloud_saved ''skills_wordcloud.png'' (join '', '' (concat (df_skills example_frame))) \<and>
   filter skill_statistic (fst (main calm)) = []"
    by (auto simp del: analysed_column.simps)
  with h(1-3) s n p show ?thesis by (simp add: calm_def)
qed

text \<open>
  Claim C2 as stated fails. In a run on a non-empty dataset in which nothing raises, no
  counts and no percentages are printed for the skills. And in a run on the same dataset
  in which saving the first figure raises, no image file is saved and the salary,
  location and skill analyses do not run.
\<close>

theorem skills_have_no_statistics:
  "scrape_naukri_jobs (web_site calm) num_pages = Inr example_jobs \<and>
   job_no example_jobs \<noteq> [] \<and>
   filter skill_statistic (fst (main calm)) = [] \<and>
   scrape_naukri_jobs (web_site plot_breaks) num_pages = Inr example_jobs \<and>
   fst (main plot_breaks) =
     [Chrome_started, Window_maximized,
      Called Scraping (Page_count 1), Returned Scraping (Raw_jobs example_jobs),
      Called Cleaning (Raw_jobs example_jobs), Returned Cleaning (Cleaned_frame example_frame),
      Called Csv_output (Cleaned_frame example_frame), File_written ''Naukri_SDET.csv'',
      Returned Csv_output No_value,
      Called Experience_analysis (Cleaned_frame example_frame),
      Counts_printed Experience_analysis [(''2-5'', 1)],
      Percentages_printed Experience_analysis [(''2-5'', 100)],
      Raised Experience_analysis OSError, Error_printed OSError, Driver_quit]"
  by code_simp

end
